(* ===== verification/Prelude.thy ===== *)
theory Prelude
  imports Main "HOL-Library.Word" "HOL-Library.Extended_Nat"
begin

unbundle bit_operations_syntax

text \<open>
  What every theory of the development shares: the machine integers of the Rust code,
  its \<open>Result\<close> type as a sum with a bind, the results of code that may also fail to
  return, and generic lemmas on words and byte lists.
\<close>

section \<open>Machine integers\<close>

type_synonym byte = "8 word"
type_synonym u16 = "16 word"
type_synonym u32 = "32 word"
type_synonym u64 = "64 word"

named_theorems codec_simps
named_theorems handler_simps
named_theorems packet_simps

section \<open>Results\<close>

text \<open>
  \<open>Result<T, E>\<close> is the sum \<open>'e + 'a\<close> with \<open>Inl\<close> the error; the \<open>?\<close> operator is
  \<open>rbind\<close>.
\<close>

definition rbind :: "'e + 'a \<Rightarrow> ('a \<Rightarrow> 'e + 'b) \<Rightarrow> 'e + 'b" where
  "rbind m f = (case m of Inl e \<Rightarrow> Inl e | Inr x \<Rightarrow> f x)"

lemma rbind_simps [simp]:
  "rbind (Inl e) f = Inl e"
  "rbind (Inr x) f = f x"
  by (simp_all add: rbind_def)

lemma rbind_assoc [simp]: "rbind (rbind m f) g = rbind m (\<lambda>x. rbind (f x) g)"
  by (cases m) simp_all

lemma rbind_eq_Inr: "rbind m f = Inr y \<longleftrightarrow> (\<exists>x. m = Inr x \<and> f x = Inr y)"
  by (cases m) simp_all

lemma rbind_eq_Inl: "rbind m f = Inl e \<longleftrightarrow> m = Inl e \<or> (\<exists>x. m = Inr x \<and> f x = Inl e)"
  by (cases m) simp_all

text \<open>\<open>Option::ok_or\<close> and \<open>map_err(|_| e)\<close> on results whose error carries nothing.\<close>

definition or_err :: "'e \<Rightarrow> 'a option \<Rightarrow> 'e + 'a" where
  "or_err e m = (case m of None \<Rightarrow> Inl e | Some x \<Rightarrow> Inr x)"

lemma or_err_simps [simp]:
  "or_err e None = Inl e"
  "or_err e (Some x) = Inr x"
  by (simp_all add: or_err_def)

lemma or_err_eq_Inr [simp]: "or_err e m = Inr x \<longleftrightarrow> m = Some x"
  by (cases m) simp_all

lemma or_err_eq_Inl [simp]: "or_err e m = Inl e' \<longleftrightarrow> m = None \<and> e' = e"
  by (cases m) auto

text \<open>A \<open>for\<close> loop over a list whose body may leave with \<open>?\<close>.\<close>

fun rfold :: "('a \<Rightarrow> 's \<Rightarrow> 'e + 's) \<Rightarrow> 'a list \<Rightarrow> 's \<Rightarrow> 'e + 's" where
  "rfold f [] s = Inr s"
| "rfold f (x # xs) s = rbind (f x s) (rfold f xs)"

lemma rfold_append: "rfold f (xs @ ys) s = rbind (rfold f xs s) (rfold f ys)"
proof (induction xs arbitrary: s)
  case (Cons x xs)
  then have "rfold f (xs @ ys) = (\<lambda>s. rbind (rfold f xs s) (rfold f ys))" by auto
  then show ?case by simp
qed simp

lemma rfold_map_at: "rfold f (map g xs) s = rfold (\<lambda>x. f (g x)) xs s"
proof (induction xs arbitrary: s)
  case (Cons x xs)
  then have "rfold f (map g xs) = rfold (\<lambda>x. f (g x)) xs" by auto
  then show ?case by simp
qed simp

lemma rfold_map: "rfold f (map g xs) = rfold (\<lambda>x. f (g x)) xs"
  by (rule ext) (simp add: rfold_map_at)

section \<open>Results of code that may not return\<close>

text \<open>
  Code with a loop whose termination depends on a parameter of the model has results of
  type \<open>('e + 'a) option\<close>: \<open>None\<close> means that it does not return. \<open>tbind\<close> is \<open>?\<close> there.
\<close>

definition tbind :: "('e + 'a) option \<Rightarrow> ('a \<Rightarrow> ('e + 'b) option) \<Rightarrow> ('e + 'b) option" where
  "tbind m f = Option.bind m (\<lambda>r. case r of Inl e \<Rightarrow> Some (Inl e) | Inr x \<Rightarrow> f x)"

lemma tbind_simps [simp]:
  "tbind None f = None"
  "tbind (Some (Inl e)) f = Some (Inl e)"
  "tbind (Some (Inr x)) f = f x"
  by (simp_all add: tbind_def)

lemma result_cases [case_names stuck err ok]:
  fixes m :: "('e + 'a) option"
  obtains "m = None" | e where "m = Some (Inl e)" | x where "m = Some (Inr x)"
proof (cases m)
  case (Some r)
  with that show ?thesis by (cases r) auto
qed (use that in auto)

lemma tbind_assoc [simp]: "tbind (tbind m f) g = tbind m (\<lambda>x. tbind (f x) g)"
  by (cases m) (auto simp: tbind_def split: sum.splits)

lemma tbind_eq_None:
  "tbind m f = None \<longleftrightarrow> m = None \<or> (\<exists>x. m = Some (Inr x) \<and> f x = None)"
  by (cases m) (auto simp: tbind_def split: sum.splits)

lemma tbind_eq_Inr:
  "tbind m f = Some (Inr y) \<longleftrightarrow> (\<exists>x. m = Some (Inr x) \<and> f x = Some (Inr y))"
  by (cases m) (auto simp: tbind_def split: sum.splits)

lemma tbind_cong [fundef_cong]:
  "m = m' \<Longrightarrow> (\<And>x. m' = Some (Inr x) \<Longrightarrow> f x = g x) \<Longrightarrow> tbind m f = tbind m' g"
  by (cases m') (auto simp: tbind_def split: sum.splits)

lemma tbind_mono [partial_function_mono]:
  assumes "mono_option B" and "\<And>y. mono_option (\<lambda>f. C y f)"
  shows "mono_option (\<lambda>f. tbind (B f) (\<lambda>y. C y f))"
proof -
  have "mono_option (\<lambda>f. case r of Inl e \<Rightarrow> Some (Inl e) | Inr x \<Rightarrow> C x f)" for r
    using assms(2) by (cases r) (simp_all add: option.const_mono)
  then show ?thesis
    unfolding tbind_def by (intro bind_mono assms(1))
qed

section \<open>Byte lists and words\<close>

text \<open>Little-endian bytes of a word, as the \<open>*_le_*\<close> operations of the \<open>bytes\<close> crate document.\<close>

fun le_bytes :: "nat \<Rightarrow> 'a::len word \<Rightarrow> byte list" where
  "le_bytes 0 v = []"
| "le_bytes (Suc n) v = ucast v # le_bytes n (drop_bit 8 v)"

fun le_word :: "byte list \<Rightarrow> 'a::len word" where
  "le_word [] = 0"
| "le_word (b # bs) = ucast b OR push_bit 8 (le_word bs)"

lemma length_le_bytes [simp]: "length (le_bytes n v) = n"
  by (induction n arbitrary: v) simp_all

lemma le_bytes_eq_Nil [simp]: "le_bytes n v = [] \<longleftrightarrow> n = 0"
  by (cases n) simp_all

lemma le_word_le_bytes_take: "le_word (le_bytes n v) = take_bit (8 * n) (v :: 'a::len word)"
proof (induction n arbitrary: v)
  case 0
  then show ?case by simp
next
  case (Suc n)
  show ?case
    by (rule bit_eqI) (auto simp: Suc bit_simps)
qed

lemma le_word_le_bytes [simp]:
  "le_word (le_bytes 4 (v :: u32)) = v"
  "le_word (le_bytes 8 (w :: u64)) = w"
  by (rule bit_eqI; simp add: le_word_le_bytes_take bit_simps)+

lemma take_append_exact: "length xs = n \<Longrightarrow> take n (xs @ ys) = xs"
  by simp

lemma drop_append_exact: "length xs = n \<Longrightarrow> drop n (xs @ ys) = ys"
  by simp

lemma unat_of_nat_u64: "n < 2 ^ 64 \<Longrightarrow> unat (of_nat n :: u64) = n"
  by (simp add: unat_of_nat take_bit_nat_eq_self)

end
