(* ===== verification/Packet.thy ===== *)
theory Packet
  imports Prelude
begin

unbundle bit_operations_syntax

text \<open>
  \<open>lafere/src/packet/packet.rs\<close> and the errors of \<open>lafere/src/packet/mod.rs\<close>: what kind a
  packet is, how the kind is kept in the upper half of the flags, and the traits \<open>Packet\<close>
  and \<open>PacketHeader\<close> as records of their operations.
\<close>

section \<open>Errors\<close>

text \<open>The payload of \<open>Json\<close> and \<open>Io\<close> is what their error displays.\<close>

datatype packet_error =
    PacketHeaderError string
  | PacketBodyError string
  | PacketJson string
  | PacketIo string
  | BodyLimitReached u32
  | MacNotEqual

section \<open>Kinds and flags\<close>

datatype packet_kind =
    KRequest | KResponse | KNoResponse | KStream | KRequestReceiver | KRequestSender
  | KStreamClosed | KClose | KPing | KMalformedRequest | KEnableServerRequests | KUnknown

definition KIND_OFFSET :: nat where "KIND_OFFSET = 4"

definition MAX_KIND :: byte where "MAX_KIND = drop_bit KIND_OFFSET 0xFF"

definition KIND_MASK :: byte where "KIND_MASK = push_bit KIND_OFFSET 0xF"

definition kind_from_num :: "byte \<Rightarrow> packet_kind" where
  "kind_from_num n =
     (if n = 1 then KRequest else if n = 2 then KResponse else if n = 3 then KNoResponse
      else if n = 4 then KStream else if n = 5 then KRequestReceiver else if n = 6 then KRequestSender
      else if n = 7 then KStreamClosed else if n = 8 then KClose else if n = 9 then KPing
      else if n = 10 then KMalformedRequest else if n = 11 then KEnableServerRequests
      else KUnknown)"

fun kind_as_num :: "packet_kind \<Rightarrow> byte" where
  "kind_as_num KRequest = 1"
| "kind_as_num KResponse = 2"
| "kind_as_num KNoResponse = 3"
| "kind_as_num KStream = 4"
| "kind_as_num KRequestReceiver = 5"
| "kind_as_num KRequestSender = 6"
| "kind_as_num KStreamClosed = 7"
| "kind_as_num KClose = 8"
| "kind_as_num KPing = 9"
| "kind_as_num KMalformedRequest = 10"
| "kind_as_num KEnableServerRequests = 11"
| "kind_as_num KUnknown = MAX_KIND"

fun kind_to_str :: "packet_kind \<Rightarrow> string" where
  "kind_to_str KRequest = ''Request''"
| "kind_to_str KResponse = ''Response''"
| "kind_to_str KNoResponse = ''NoResponse''"
| "kind_to_str KStream = ''Stream''"
| "kind_to_str KRequestReceiver = ''RequestReceiver''"
| "kind_to_str KRequestSender = ''RequestSender''"
| "kind_to_str KStreamClosed = ''StreamClosed''"
| "kind_to_str KClose = ''Close''"
| "kind_to_str KPing = ''Ping''"
| "kind_to_str KMalformedRequest = ''MalformedRequest''"
| "kind_to_str KEnableServerRequests = ''EnableServerRequests''"
| "kind_to_str KUnknown = ''Unknown''"

text \<open>\<open>Flags\<close> is its \<open>inner\<close> byte.\<close>

datatype flags = Flags (flags_inner: byte)

definition flags_empty :: flags where
  "flags_empty = Flags 0"

definition flags_from_u8 :: "byte \<Rightarrow> packet_error + flags" where
  "flags_from_u8 n = Inr (Flags n)"

definition flags_as_u8 :: "flags \<Rightarrow> byte" where
  "flags_as_u8 f = flags_inner f"

definition flags_kind :: "flags \<Rightarrow> packet_kind" where
  "flags_kind f = kind_from_num (drop_bit KIND_OFFSET (flags_inner f))"

definition set_kind :: "packet_kind \<Rightarrow> flags \<Rightarrow> flags" where
  "set_kind k f =
     (let n = kind_as_num k;
          inner = flags_inner f AND NOT KIND_MASK
      in Flags (inner OR push_bit KIND_OFFSET n))"

definition flags_new :: "packet_kind \<Rightarrow> flags" where
  "flags_new k = set_kind k (Flags 0)"

definition is_request :: "flags \<Rightarrow> bool" where
  "is_request f \<longleftrightarrow> flags_kind f = KRequest"

definition is_response :: "flags \<Rightarrow> bool" where
  "is_response f \<longleftrightarrow> flags_kind f = KResponse"

section \<open>What they satisfy\<close>

lemma MAX_KIND_eq: "MAX_KIND = 15"
  by (simp add: MAX_KIND_def KIND_OFFSET_def)

lemma kind_num_less: "kind_as_num k \<le> MAX_KIND"
  by (cases k) (simp_all add: MAX_KIND_eq)

lemma kind_from_as_num [simp]: "kind_from_num (kind_as_num k) = k"
  by (cases k) (simp_all add: kind_from_num_def MAX_KIND_eq)

lemma kind_as_num_inj [simp]: "kind_as_num k = kind_as_num k' \<longleftrightarrow> k = k'"
  by (metis kind_from_as_num)

lemma bit_KIND_MASK: "bit KIND_MASK i \<longleftrightarrow> 4 \<le> i \<and> i < 8"
proof -
  have mask: "KIND_MASK = push_bit 4 (mask 4)"
    by (simp add: KIND_MASK_def KIND_OFFSET_def mask_eq_exp_minus_1)
  show ?thesis
    unfolding mask bit_push_bit_iff bit_mask_iff by auto
qed

lemma kind_num_bits: "bit (kind_as_num k) i \<Longrightarrow> i < 4"
  by (cases k) (auto simp: MAX_KIND_eq bit_simps numeral_eq_Suc less_Suc_eq)

lemma drop_set_kind: "drop_bit KIND_OFFSET (flags_inner (set_kind k f)) = kind_as_num k"
  by (rule bit_word_eqI)
    (auto simp: set_kind_def Let_def KIND_OFFSET_def bit_drop_bit_eq bit_or_iff bit_and_iff
      bit_not_iff bit_push_bit_iff bit_KIND_MASK dest: kind_num_bits)

lemma take_set_kind: "take_bit KIND_OFFSET (flags_inner (set_kind k f)) = take_bit KIND_OFFSET (flags_inner f)"
  by (rule bit_word_eqI)
    (auto simp: set_kind_def Let_def KIND_OFFSET_def bit_take_bit_iff bit_or_iff bit_and_iff
      bit_not_iff bit_push_bit_iff bit_KIND_MASK)

lemma kind_set_kind [simp]: "flags_kind (set_kind k f) = k"
  by (simp only: flags_kind_def drop_set_kind kind_from_as_num)

lemma kind_flags_new [simp]: "flags_kind (flags_new k) = k"
  by (simp add: flags_new_def)

section \<open>The traits\<close>

text \<open>
  \<open>PacketHeader\<close> with \<open>LEN\<close>; \<open>PacketBytes\<close>, whose views of a part of the buffer are a read and
  a write of that part; and \<open>Packet\<close>.
\<close>

record 'h packet_header =
  ph_len :: nat
  ph_from_bytes :: "byte list \<Rightarrow> packet_error + 'h"
  ph_body_len :: "'h \<Rightarrow> u32"
  ph_flags :: "'h \<Rightarrow> flags"
  ph_set_flags :: "flags \<Rightarrow> 'h \<Rightarrow> 'h"
  ph_id :: "'h \<Rightarrow> u32"
  ph_set_id :: "u32 \<Rightarrow> 'h \<Rightarrow> 'h"

record 'b packet_bytes =
  pb_new :: "nat \<Rightarrow> 'b"
  pb_header :: "'b \<Rightarrow> byte list"
  pb_set_header :: "byte list \<Rightarrow> 'b \<Rightarrow> 'b"
  pb_full_header :: "'b \<Rightarrow> byte list"
  pb_set_full_header :: "byte list \<Rightarrow> 'b \<Rightarrow> 'b"
  pb_body :: "'b \<Rightarrow> byte list"
  pb_body_resize :: "nat \<Rightarrow> 'b \<Rightarrow> 'b"
  pb_set_body :: "byte list \<Rightarrow> 'b \<Rightarrow> 'b"
  pb_full_body :: "'b \<Rightarrow> byte list"
  pb_set_full_body :: "byte list \<Rightarrow> 'b \<Rightarrow> 'b"

record ('p, 'h, 'b) packet =
  pk_header :: "'p \<Rightarrow> 'h"
  pk_update_header :: "('h \<Rightarrow> 'h) \<Rightarrow> 'p \<Rightarrow> 'p"
  pk_empty :: 'p
  pk_from_bytes_and_header :: "'b \<Rightarrow> 'h \<Rightarrow> packet_error + 'p"
  pk_into_bytes :: "'p \<Rightarrow> 'b"

text \<open>What the background task relies on: the id and the flags of a packet are read back as set.\<close>

locale packet_laws =
  fixes H :: "'h packet_header" and P :: "('p, 'h, 'b) packet"
  assumes header_update: "pk_header P (pk_update_header P g p) = g (pk_header P p)"
    and id_set: "ph_id H (ph_set_id H i h) = i"
    and flags_set_id: "ph_flags H (ph_set_id H i h) = ph_flags H h"
    and flags_set: "ph_flags H (ph_set_flags H f h) = f"
    and id_set_flags: "ph_id H (ph_set_flags H f h) = ph_id H h"

end
