(* ===== verification/Packet_Bytes.thy ===== *)
theory Packet_Bytes
  imports Packet
begin

text \<open>
  \<open>lafere/src/packet/bytes.rs\<close> and \<open>encrypted_bytes.rs\<close>: the two buffers a packet can live
  in, and the promise of the trait \<open>PacketBytes\<close> that both keep. The cipher and \<open>Mac::LEN\<close>
  are not part of the repository: they are arguments.
\<close>

section \<open>The promise of \<open>PacketBytes\<close>\<close>

text \<open>
  \<open>wf n b\<close>: \<open>b\<close> is a buffer made for headers of length \<open>n\<close>. The full views begin with \<open>mac\<close>
  further bytes. Views of one part do not touch the other.
\<close>

locale packet_buffer =
  fixes B :: "'b packet_bytes" and wf :: "nat \<Rightarrow> 'b \<Rightarrow> bool" and mac :: nat
  assumes new_wf: "wf n (pb_new B n)"
    and new_header: "pb_header B (pb_new B n) = replicate n 0"
    and new_body: "pb_body B (pb_new B n) = []"
    and full_header_len: "wf n b \<Longrightarrow> length (pb_full_header B b) = mac + n"
    and full_body_len: "wf n b \<Longrightarrow> length (pb_full_body B b) = mac + length (pb_body B b)"
    and header_view: "wf n b \<Longrightarrow> pb_header B b = drop mac (pb_full_header B b)"
    and body_view: "wf n b \<Longrightarrow> pb_body B b = drop mac (pb_full_body B b)"
    and set_full_header: "wf n b \<Longrightarrow> length h = mac + n \<Longrightarrow>
      wf n (pb_set_full_header B h b) \<and> pb_full_header B (pb_set_full_header B h b) = h
      \<and> pb_full_body B (pb_set_full_header B h b) = pb_full_body B b"
    and set_full_body: "wf n b \<Longrightarrow> length c = length (pb_full_body B b) \<Longrightarrow>
      wf n (pb_set_full_body B c b) \<and> pb_full_body B (pb_set_full_body B c b) = c
      \<and> pb_full_header B (pb_set_full_body B c b) = pb_full_header B b"
    and set_header: "wf n b \<Longrightarrow> length h = n \<Longrightarrow>
      wf n (pb_set_header B h b) \<and> pb_header B (pb_set_header B h b) = h
      \<and> pb_full_body B (pb_set_header B h b) = pb_full_body B b"
    and body_resize: "wf n b \<Longrightarrow>
      wf n (pb_body_resize B m b)
      \<and> pb_body B (pb_body_resize B m b) = take m (pb_body B b) @ replicate (m - length (pb_body B b)) 0
      \<and> pb_full_header B (pb_body_resize B m b) = pb_full_header B b"
    and set_body: "wf n b \<Longrightarrow>
      wf n (pb_set_body B c b) \<and> pb_body B (pb_set_body B c b) = c
      \<and> pb_full_header B (pb_set_body B c b) = pb_full_header B b"
    and put_put_header: "wf n b \<Longrightarrow> length h = mac + n \<Longrightarrow> length h' = mac + n \<Longrightarrow>
      pb_set_full_header B h (pb_set_full_header B h' b) = pb_set_full_header B h b"
    and put_put_body: "wf n b \<Longrightarrow> length c' = length (pb_full_body B b) \<Longrightarrow>
      pb_set_full_body B c (pb_set_full_body B c' b) = pb_set_full_body B c b"
    and resize_same: "wf n b \<Longrightarrow> length (pb_body B b) = m \<Longrightarrow> pb_body_resize B m b = b"
begin

lemma header_len: "wf n b \<Longrightarrow> length (pb_header B b) = n"
  by (simp add: header_view full_header_len)

lemma body_resize_len: "wf n b \<Longrightarrow> length (pb_body B (pb_body_resize B m b)) = m"
  by (simp add: body_resize)

end

section \<open>\<open>PlainBytes\<close>\<close>

record plain_bytes =
  p_bytes :: "byte list"
  p_header_len :: nat

definition plain_new :: "nat \<Rightarrow> plain_bytes" where
  "plain_new n = \<lparr>p_bytes = replicate n 0, p_header_len = n\<rparr>"

definition plain_header :: "plain_bytes \<Rightarrow> byte list" where
  "plain_header b = take (p_header_len b) (p_bytes b)"

definition plain_set_header :: "byte list \<Rightarrow> plain_bytes \<Rightarrow> plain_bytes" where
  "plain_set_header h b = b\<lparr>p_bytes := h @ drop (p_header_len b) (p_bytes b)\<rparr>"

definition plain_body :: "plain_bytes \<Rightarrow> byte list" where
  "plain_body b = drop (p_header_len b) (p_bytes b)"

text \<open>
  \<open>BodyBytesMut\<close> keeps the bytes below its offset. \<open>resize\<close> is \<open>Vec::resize\<close> on the bytes
  behind the offset, writing from the start of the body replaces them.
\<close>

definition vec_resize :: "nat \<Rightarrow> byte list \<Rightarrow> byte list" where
  "vec_resize n v = take n v @ replicate (n - length v) 0"

definition body_bytes_mut_resize :: "nat \<Rightarrow> nat \<Rightarrow> byte list \<Rightarrow> byte list" where
  "body_bytes_mut_resize offset len buffer = vec_resize (offset + len) buffer"

definition body_bytes_mut_put :: "nat \<Rightarrow> byte list \<Rightarrow> byte list \<Rightarrow> byte list" where
  "body_bytes_mut_put offset c buffer = take offset buffer @ c"

definition plain_body_resize :: "nat \<Rightarrow> plain_bytes \<Rightarrow> plain_bytes" where
  "plain_body_resize len b = b\<lparr>p_bytes := body_bytes_mut_resize (p_header_len b) len (p_bytes b)\<rparr>"

definition plain_set_body :: "byte list \<Rightarrow> plain_bytes \<Rightarrow> plain_bytes" where
  "plain_set_body c b = b\<lparr>p_bytes := body_bytes_mut_put (p_header_len b) c (p_bytes b)\<rparr>"

definition plain_set_full_body :: "byte list \<Rightarrow> plain_bytes \<Rightarrow> plain_bytes" where
  "plain_set_full_body c b = b\<lparr>p_bytes := take (p_header_len b) (p_bytes b) @ c\<rparr>"

definition plain_as_slice :: "plain_bytes \<Rightarrow> byte list" where
  "plain_as_slice b = p_bytes b"

definition plain_packet_bytes :: "plain_bytes packet_bytes" where
  "plain_packet_bytes = \<lparr>
     pb_new = plain_new,
     pb_header = plain_header,
     pb_set_header = plain_set_header,
     pb_full_header = plain_header,
     pb_set_full_header = plain_set_header,
     pb_body = plain_body,
     pb_body_resize = plain_body_resize,
     pb_set_body = plain_set_body,
     pb_full_body = plain_body,
     pb_set_full_body = plain_set_full_body\<rparr>"

text \<open>The buffer always holds the header.\<close>

definition plain_wf :: "nat \<Rightarrow> plain_bytes \<Rightarrow> bool" where
  "plain_wf n b \<longleftrightarrow> p_header_len b = n \<and> n \<le> length (p_bytes b)"

lemma body_bytes_mut_simps [packet_simps]:
  assumes "n \<le> length v"
  shows "length v = n + m \<Longrightarrow> body_bytes_mut_resize n m v = v"
    and "drop n (body_bytes_mut_resize n m v) = take m (drop n v) @ replicate (m - (length v - n)) 0"
    and "take n (body_bytes_mut_resize n m v) = take n v"
    and "n \<le> length (body_bytes_mut_resize n m v)"
    and "drop n (body_bytes_mut_put n c v) = c"
    and "take n (body_bytes_mut_put n c v) = take n v"
    and "n \<le> length (body_bytes_mut_put n c v)"
  using assms by (auto simp: body_bytes_mut_resize_def body_bytes_mut_put_def vec_resize_def drop_take min_def)

interpretation plain: packet_buffer plain_packet_bytes plain_wf 0
  by unfold_locales
    (simp_all add: plain_packet_bytes_def plain_wf_def plain_new_def plain_header_def plain_body_def
      plain_set_header_def plain_body_resize_def plain_set_body_def plain_set_full_body_def
      packet_simps)

section \<open>\<open>EncryptedBytes\<close>\<close>

text \<open>
  A key of the \<open>crypto\<close> crate: \<open>encrypt\<close> turns a slice into one of the same length and gives
  its \<open>Mac\<close>, \<open>decrypt\<close> fails if the \<open>Mac\<close> does not belong to the slice; both move the key's
  nonce on.
\<close>

record 'k cipher_key =
  key_encrypt :: "'k \<Rightarrow> byte list \<Rightarrow> byte list \<times> byte list \<times> 'k"
  key_decrypt :: "'k \<Rightarrow> byte list \<Rightarrow> byte list \<Rightarrow> byte list option \<times> 'k"

locale cipher =
  fixes C :: "'k cipher_key" and mac_len :: nat
  assumes encrypt_len: "key_encrypt C k pt = (ct, m, k') \<Longrightarrow> length ct = length pt \<and> length m = mac_len"
    and decrypt_encrypt: "key_encrypt C k pt = (ct, m, k') \<Longrightarrow> key_decrypt C k ct m = (Some pt, k')"
    and decrypt_len: "key_decrypt C k ct m = (Some pt, k') \<Longrightarrow> length pt = length ct"

text \<open>The layout: Mac, header, Mac, body. \<open>OFFSET\<close> is \<open>Mac::LEN\<close>.\<close>

record encrypted_bytes =
  e_bytes :: "byte list"
  e_header_len :: nat

definition enc_new :: "nat \<Rightarrow> nat \<Rightarrow> encrypted_bytes" where
  "enc_new OFFSET n = \<lparr>e_bytes = replicate (OFFSET * 2 + n) 0, e_header_len = n\<rparr>"

definition enc_header :: "nat \<Rightarrow> encrypted_bytes \<Rightarrow> byte list" where
  "enc_header OFFSET b = take (e_header_len b) (drop OFFSET (e_bytes b))"

definition enc_set_header :: "nat \<Rightarrow> byte list \<Rightarrow> encrypted_bytes \<Rightarrow> encrypted_bytes" where
  "enc_set_header OFFSET h b =
     b\<lparr>e_bytes := take OFFSET (e_bytes b) @ h @ drop (OFFSET + e_header_len b) (e_bytes b)\<rparr>"

definition enc_full_header :: "nat \<Rightarrow> encrypted_bytes \<Rightarrow> byte list" where
  "enc_full_header OFFSET b = take (OFFSET + e_header_len b) (e_bytes b)"

definition enc_set_full_header :: "nat \<Rightarrow> byte list \<Rightarrow> encrypted_bytes \<Rightarrow> encrypted_bytes" where
  "enc_set_full_header OFFSET h b = b\<lparr>e_bytes := h @ drop (OFFSET + e_header_len b) (e_bytes b)\<rparr>"

definition enc_body :: "nat \<Rightarrow> encrypted_bytes \<Rightarrow> byte list" where
  "enc_body OFFSET b = drop (e_header_len b) (drop (OFFSET * 2) (e_bytes b))"

definition enc_body_resize :: "nat \<Rightarrow> nat \<Rightarrow> encrypted_bytes \<Rightarrow> encrypted_bytes" where
  "enc_body_resize OFFSET len b =
     b\<lparr>e_bytes := body_bytes_mut_resize (e_header_len b + OFFSET * 2) len (e_bytes b)\<rparr>"

definition enc_set_body :: "nat \<Rightarrow> byte list \<Rightarrow> encrypted_bytes \<Rightarrow> encrypted_bytes" where
  "enc_set_body OFFSET c b = b\<lparr>e_bytes := body_bytes_mut_put (e_header_len b + OFFSET * 2) c (e_bytes b)\<rparr>"

definition enc_full_body :: "nat \<Rightarrow> encrypted_bytes \<Rightarrow> byte list" where
  "enc_full_body OFFSET b = drop (OFFSET + e_header_len b) (e_bytes b)"

definition enc_set_full_body :: "nat \<Rightarrow> byte list \<Rightarrow> encrypted_bytes \<Rightarrow> encrypted_bytes" where
  "enc_set_full_body OFFSET c b = b\<lparr>e_bytes := take (OFFSET + e_header_len b) (e_bytes b) @ c\<rparr>"

definition enc_packet_bytes :: "nat \<Rightarrow> encrypted_bytes packet_bytes" where
  "enc_packet_bytes OFFSET = \<lparr>
     pb_new = enc_new OFFSET,
     pb_header = enc_header OFFSET,
     pb_set_header = enc_set_header OFFSET,
     pb_full_header = enc_full_header OFFSET,
     pb_set_full_header = enc_set_full_header OFFSET,
     pb_body = enc_body OFFSET,
     pb_body_resize = enc_body_resize OFFSET,
     pb_set_body = enc_set_body OFFSET,
     pb_full_body = enc_full_body OFFSET,
     pb_set_full_body = enc_set_full_body OFFSET\<rparr>"

definition enc_wf :: "nat \<Rightarrow> nat \<Rightarrow> encrypted_bytes \<Rightarrow> bool" where
  "enc_wf OFFSET n b \<longleftrightarrow> e_header_len b = n \<and> OFFSET * 2 + n \<le> length (e_bytes b)"

definition has_body :: "nat \<Rightarrow> encrypted_bytes \<Rightarrow> bool" where
  "has_body OFFSET b \<longleftrightarrow> length (e_bytes b) > OFFSET * 2 + e_header_len b"

definition enc_as_slice :: "nat \<Rightarrow> encrypted_bytes \<Rightarrow> byte list" where
  "enc_as_slice OFFSET b =
     (if has_body OFFSET b then e_bytes b else take (length (e_bytes b) - OFFSET) (e_bytes b))"

text \<open>The four parts of a buffer.\<close>

lemma enc_parts:
  assumes "enc_wf OFFSET n b"
  obtains hm h bm c where "b = \<lparr>e_bytes = hm @ h @ bm @ c, e_header_len = n\<rparr>"
    and "length hm = OFFSET" and "length h = n" and "length bm = OFFSET"
proof (rule that)
  let ?v = "e_bytes b"
  have "?v = take OFFSET ?v @ take n (drop OFFSET ?v) @ take OFFSET (drop n (drop OFFSET ?v))
      @ drop OFFSET (drop n (drop OFFSET ?v))"
    by (simp only: append_take_drop_id)
  then show "b = \<lparr>e_bytes = take OFFSET ?v @ take n (drop OFFSET ?v) @ take OFFSET (drop n (drop OFFSET ?v))
      @ drop OFFSET (drop n (drop OFFSET ?v)), e_header_len = n\<rparr>"
    using assms by (simp add: enc_wf_def)
qed (use assms in \<open>auto simp: enc_wf_def\<close>)

lemma enc_views [packet_simps]:
  fixes hm h bm c :: "byte list" and n :: nat
  defines "b \<equiv> \<lparr>e_bytes = hm @ h @ bm @ c, e_header_len = n\<rparr>"
  assumes "length hm = OFFSET" and "length bm = OFFSET" and "length h = n"
  shows "enc_header OFFSET b = h" and "enc_full_header OFFSET b = hm @ h"
    and "enc_body OFFSET b = c" and "enc_full_body OFFSET b = bm @ c"
    and "enc_set_header OFFSET h' b = \<lparr>e_bytes = hm @ h' @ bm @ c, e_header_len = n\<rparr>"
    and "enc_set_full_header OFFSET fh b = \<lparr>e_bytes = fh @ bm @ c, e_header_len = n\<rparr>"
    and "enc_set_full_body OFFSET fb b = \<lparr>e_bytes = hm @ h @ fb, e_header_len = n\<rparr>"
    and "enc_set_body OFFSET c' b = \<lparr>e_bytes = hm @ h @ bm @ c', e_header_len = n\<rparr>"
    and "enc_body_resize OFFSET m b
      = \<lparr>e_bytes = hm @ h @ bm @ take m c @ replicate (m - length c) 0, e_header_len = n\<rparr>"
    and "has_body OFFSET b \<longleftrightarrow> c \<noteq> []"
    and "enc_as_slice OFFSET b = (if c = [] then hm @ h else hm @ h @ bm @ c)"
  using assms
  by (simp_all add: enc_header_def enc_full_header_def enc_body_def enc_full_body_def enc_set_header_def
      enc_set_full_header_def enc_set_full_body_def enc_set_body_def enc_body_resize_def has_body_def
      enc_as_slice_def body_bytes_mut_resize_def body_bytes_mut_put_def vec_resize_def)

lemmas enc_views_empty [packet_simps] = enc_views [where c = "[]", simplified]

interpretation enc: packet_buffer "enc_packet_bytes OFFSET" "enc_wf OFFSET" OFFSET for OFFSET
proof
  fix n b h c m
  show "enc_wf OFFSET n (pb_new (enc_packet_bytes OFFSET) n)"
    "pb_header (enc_packet_bytes OFFSET) (pb_new (enc_packet_bytes OFFSET) n) = replicate n 0"
    "pb_body (enc_packet_bytes OFFSET) (pb_new (enc_packet_bytes OFFSET) n) = []"
    by (simp_all add: enc_packet_bytes_def enc_wf_def enc_new_def enc_header_def enc_body_def)
  assume "enc_wf OFFSET n b"
  then obtain hm h0 bm c0 where b: "b = \<lparr>e_bytes = hm @ h0 @ bm @ c0, e_header_len = n\<rparr>"
    and len: "length hm = OFFSET" "length bm = OFFSET" "length h0 = n"
    by (rule enc_parts) simp
  note views = enc_views [OF len]
  show "length (pb_full_header (enc_packet_bytes OFFSET) b) = OFFSET + n"
    "length (pb_full_body (enc_packet_bytes OFFSET) b) = OFFSET + length (pb_body (enc_packet_bytes OFFSET) b)"
    "pb_header (enc_packet_bytes OFFSET) b = drop OFFSET (pb_full_header (enc_packet_bytes OFFSET) b)"
    "pb_body (enc_packet_bytes OFFSET) b = drop OFFSET (pb_full_body (enc_packet_bytes OFFSET) b)"
    by (simp_all add: b enc_packet_bytes_def views len)
  show "enc_wf OFFSET n (pb_body_resize (enc_packet_bytes OFFSET) m b)
      \<and> pb_body (enc_packet_bytes OFFSET) (pb_body_resize (enc_packet_bytes OFFSET) m b)
        = take m (pb_body (enc_packet_bytes OFFSET) b)
          @ replicate (m - length (pb_body (enc_packet_bytes OFFSET) b)) 0
      \<and> pb_full_header (enc_packet_bytes OFFSET) (pb_body_resize (enc_packet_bytes OFFSET) m b)
        = pb_full_header (enc_packet_bytes OFFSET) b"
    "enc_wf OFFSET n (pb_set_body (enc_packet_bytes OFFSET) c b)
      \<and> pb_body (enc_packet_bytes OFFSET) (pb_set_body (enc_packet_bytes OFFSET) c b) = c
      \<and> pb_full_header (enc_packet_bytes OFFSET) (pb_set_body (enc_packet_bytes OFFSET) c b)
        = pb_full_header (enc_packet_bytes OFFSET) b"
    by (simp_all add: b enc_packet_bytes_def views enc_wf_def len)
  show "enc_wf OFFSET n (pb_set_full_header (enc_packet_bytes OFFSET) h b)
      \<and> pb_full_header (enc_packet_bytes OFFSET) (pb_set_full_header (enc_packet_bytes OFFSET) h b) = h
      \<and> pb_full_body (enc_packet_bytes OFFSET) (pb_set_full_header (enc_packet_bytes OFFSET) h b)
        = pb_full_body (enc_packet_bytes OFFSET) b"
    if "length h = OFFSET + n"
    using that by (simp add: b enc_packet_bytes_def views enc_wf_def len)
      (simp add: enc_full_header_def enc_full_body_def)
  show "enc_wf OFFSET n (pb_set_full_body (enc_packet_bytes OFFSET) c b)
      \<and> pb_full_body (enc_packet_bytes OFFSET) (pb_set_full_body (enc_packet_bytes OFFSET) c b) = c
      \<and> pb_full_header (enc_packet_bytes OFFSET) (pb_set_full_body (enc_packet_bytes OFFSET) c b)
        = pb_full_header (enc_packet_bytes OFFSET) b"
    if "length c = length (pb_full_body (enc_packet_bytes OFFSET) b)"
    using that by (simp add: b enc_packet_bytes_def views enc_wf_def len)
      (simp add: enc_full_header_def enc_full_body_def len)
  show "enc_wf OFFSET n (pb_set_header (enc_packet_bytes OFFSET) h b)
      \<and> pb_header (enc_packet_bytes OFFSET) (pb_set_header (enc_packet_bytes OFFSET) h b) = h
      \<and> pb_full_body (enc_packet_bytes OFFSET) (pb_set_header (enc_packet_bytes OFFSET) h b)
        = pb_full_body (enc_packet_bytes OFFSET) b"
    if "length h = n"
    using that by (simp add: b enc_packet_bytes_def views enc_wf_def len)
      (simp add: enc_header_def enc_full_body_def len)
  show "pb_set_full_header (enc_packet_bytes OFFSET) h (pb_set_full_header (enc_packet_bytes OFFSET) h' b)
      = pb_set_full_header (enc_packet_bytes OFFSET) h b"
    if "length h = OFFSET + n" "length h' = OFFSET + n" for h'
    using that by (simp add: b enc_packet_bytes_def views len) (simp add: enc_set_full_header_def len)
  show "pb_set_full_body (enc_packet_bytes OFFSET) c (pb_set_full_body (enc_packet_bytes OFFSET) c' b)
      = pb_set_full_body (enc_packet_bytes OFFSET) c b" for c'
    by (simp add: b enc_packet_bytes_def views len) (simp add: enc_set_full_body_def len)
  show "pb_body_resize (enc_packet_bytes OFFSET) m b = b"
    if "length (pb_body (enc_packet_bytes OFFSET) b) = m"
    using that by (simp add: b enc_packet_bytes_def views len) 
qed

subsection \<open>Encryption\<close>

definition encrypt :: "nat \<Rightarrow> 'k cipher_key \<Rightarrow> 'k \<Rightarrow> encrypted_bytes \<Rightarrow> encrypted_bytes \<times> 'k" where
  "encrypt OFFSET C key b =
     (let (ct, m, key) = key_encrypt C key (drop OFFSET (enc_full_header OFFSET b));
          b = enc_set_full_header OFFSET (m @ ct) b
      in if \<not> has_body OFFSET b then (b, key)
         else let (ct, m, key) = key_encrypt C key (drop OFFSET (enc_full_body OFFSET b))
              in (enc_set_full_body OFFSET (m @ ct) b, key))"

definition decrypt_header ::
    "nat \<Rightarrow> 'k cipher_key \<Rightarrow> 'k \<Rightarrow> encrypted_bytes \<Rightarrow> (packet_error + encrypted_bytes) \<times> 'k" where
  "decrypt_header OFFSET C key b =
     (let header = enc_full_header OFFSET b;
          m = take OFFSET header
      in case key_decrypt C key (drop OFFSET header) m of
           (Some pt, key) \<Rightarrow> (Inr (enc_set_full_header OFFSET (m @ pt) b), key)
         | (None, key) \<Rightarrow> (Inl MacNotEqual, key))"

definition decrypt_body ::
    "nat \<Rightarrow> 'k cipher_key \<Rightarrow> 'k \<Rightarrow> encrypted_bytes \<Rightarrow> (packet_error + encrypted_bytes) \<times> 'k" where
  "decrypt_body OFFSET C key b =
     (let body = enc_full_body OFFSET b;
          m = take OFFSET body
      in case key_decrypt C key (drop OFFSET body) m of
           (Some pt, key) \<Rightarrow> (Inr (enc_set_full_body OFFSET (m @ pt) b), key)
         | (None, key) \<Rightarrow> (Inl MacNotEqual, key))"

end
