(* ===== verification/Receiver.thy ===== *)
theory Receiver
  imports Packet_Bytes
begin

text \<open>
  \<open>lafere/src/packet/builder.rs\<close>: \<open>PacketReceiver\<close> reads one packet after the other from a
  stream. The future of a read may be dropped at any \<open>await\<close>; the receiver keeps what it has
  read so far, and the next call goes on from there.
\<close>

section \<open>The stream\<close>

text \<open>
  One \<open>reader.read(buf).await\<close>: bytes for the front of the buffer (none at the end of the
  stream), an error, or the future is dropped while it waits.
\<close>

datatype io_error = IoUnexpectedEof | IoTimedOut | IoOther string

datatype read_outcome = ReadBytes "byte list" | ReadErr io_error | Dropped

type_synonym 'r stream_reader = "nat \<Rightarrow> 'r \<Rightarrow> read_outcome \<times> 'r"

text \<open>What \<open>AsyncRead\<close> documents; \<open>pending r\<close> are the bytes that \<open>r\<close> is still to deliver.\<close>

locale byte_stream =
  fixes rd :: "'r stream_reader" and pending :: "'r \<Rightarrow> byte list"
  assumes read_bytes: "rd n r = (ReadBytes bs, r') \<Longrightarrow>
      length bs \<le> n \<and> pending r = bs @ pending r' \<and> (bs = [] \<longrightarrow> n = 0 \<or> pending r = [])"
    and read_dropped: "rd n r = (Dropped, r') \<Longrightarrow> pending r' = pending r"

section \<open>The code\<close>

text \<open>\<open>Panicked\<close> is a failed \<open>expect\<close>, \<open>unwrap\<close> or \<open>assert!\<close>.\<close>

datatype 'a polled = Ready 'a | Cancelled | Panicked

datatype 'h receiver_error = RIo io_error | RHard packet_error | RSoft 'h packet_error

record ('h, 'b) packet_receiver =
  pr_bytes :: 'b
  pr_header :: "'h option"
  pr_read :: nat
  pr_body_limit :: u32

definition receiver_new :: "'h packet_header \<Rightarrow> 'b packet_bytes \<Rightarrow> u32 \<Rightarrow> ('h, 'b) packet_receiver" where
  "receiver_new H B body_limit =
     \<lparr>pr_bytes = pb_new B (ph_len H), pr_header = None, pr_read = 0, pr_body_limit = body_limit\<rparr>"

definition set_body_limit :: "u32 \<Rightarrow> ('h, 'b) packet_receiver \<Rightarrow> ('h, 'b) packet_receiver" where
  "set_body_limit body_limit self = self\<lparr>pr_body_limit := body_limit\<rparr>"

text \<open>
  The loop of both readers: \<open>view\<close> is the full part that is filled, \<open>read\<close> how much of it is.
\<close>

function read_full ::
    "'r stream_reader \<Rightarrow> byte list \<Rightarrow> nat \<Rightarrow> 'r \<Rightarrow> (io_error + unit) polled \<times> byte list \<times> nat \<times> 'r" where
  "read_full rd view read r =
     (case rd (length view - read) r of
        (Dropped, r') \<Rightarrow> (Cancelled, view, read, r')
      | (ReadErr e, r') \<Rightarrow> (Ready (Inl e), view, read, r')
      | (ReadBytes bs, r') \<Rightarrow>
          let view' = take read view @ bs @ drop (read + length bs) view;
              read' = read + length bs
          in if length view \<le> read' then (Ready (Inr ()), view', read', r')
             else if bs = [] then (Ready (Inl IoUnexpectedEof), view', read', r')
             else read_full rd view' read' r')"
  by pat_completeness auto
termination
  by (relation "measure (\<lambda>(rd, view, read, r). length view - read)") (auto intro!: diff_less_mono2)

declare read_full.simps [simp del]

text \<open>\<open>mutate\<close> may change what it captures (the key), which is its argument and result \<open>m\<close>.\<close>

type_synonym ('m, 'b) mutator = "'m \<Rightarrow> 'b \<Rightarrow> (packet_error + 'b) \<times> 'm"

definition read_header ::
    "'h packet_header \<Rightarrow> 'b packet_bytes \<Rightarrow> 'r stream_reader \<Rightarrow> ('m, 'b) mutator \<Rightarrow> ('h, 'b) packet_receiver \<Rightarrow> 'm \<Rightarrow> 'r
      \<Rightarrow> ('h receiver_error + unit) polled \<times> ('h, 'b) packet_receiver \<times> 'm \<times> 'r" where
  "read_header H B rd mutate self m r =
     (if pr_header self \<noteq> None then (Ready (Inr ()), self, m, r)
      else case read_full rd (pb_full_header B (pr_bytes self)) (pr_read self) r of
        (res, view, read, r') \<Rightarrow>
          let self = self\<lparr>pr_bytes := pb_set_full_header B view (pr_bytes self), pr_read := read\<rparr>
          in case res of
               Cancelled \<Rightarrow> (Cancelled, self, m, r')
             | Panicked \<Rightarrow> (Panicked, self, m, r')
             | Ready (Inl e) \<Rightarrow> (Ready (Inl (RIo e)), self, m, r')
             | Ready (Inr _) \<Rightarrow> (case mutate m (pr_bytes self) of
                 (Inl e, m) \<Rightarrow> (Ready (Inl (RHard e)), self, m, r')
               | (Inr bytes, m) \<Rightarrow>
                   let self = self\<lparr>pr_bytes := bytes\<rparr>
                   in case ph_from_bytes H (pb_header B bytes) of
                        Inl e \<Rightarrow> (Ready (Inl (RHard e)), self, m, r')
                      | Inr header \<Rightarrow> (Ready (Inr ()), self\<lparr>pr_header := Some header, pr_read := 0\<rparr>, m, r')))"

definition take_message ::
    "'h packet_header \<Rightarrow> 'b packet_bytes \<Rightarrow> ('p, 'h, 'b) packet \<Rightarrow> ('h, 'b) packet_receiver
      \<Rightarrow> ('h receiver_error + 'p) polled \<times> ('h, 'b) packet_receiver" where
  "take_message H B P self =
     (let bytes = pr_bytes self;
          self = self\<lparr>pr_bytes := pb_new B (ph_len H)\<rparr>
      in case pr_header self of
           None \<Rightarrow> (Panicked, self)
         | Some header \<Rightarrow>
             let self = self\<lparr>pr_header := None, pr_read := 0\<rparr>
             in case pk_from_bytes_and_header P bytes header of
                  Inl e \<Rightarrow> (Ready (Inl (RSoft header e)), self)
                | Inr p \<Rightarrow> (Ready (Inr p), self))"

definition soft_error ::
    "'h packet_header \<Rightarrow> 'b packet_bytes \<Rightarrow> packet_error \<Rightarrow> ('h, 'b) packet_receiver
      \<Rightarrow> ('h receiver_error + 'p) polled \<times> ('h, 'b) packet_receiver" where
  "soft_error H B e self =
     (let self = self\<lparr>pr_bytes := pb_new B (ph_len H)\<rparr>
      in case pr_header self of
           None \<Rightarrow> (Panicked, self)
         | Some header \<Rightarrow> (Ready (Inl (RSoft header e)), self\<lparr>pr_header := None, pr_read := 0\<rparr>))"

definition read_body ::
    "'h packet_header \<Rightarrow> 'b packet_bytes \<Rightarrow> ('p, 'h, 'b) packet \<Rightarrow> 'r stream_reader \<Rightarrow> ('m, 'b) mutator
      \<Rightarrow> ('h, 'b) packet_receiver \<Rightarrow> 'm \<Rightarrow> 'r
      \<Rightarrow> ('h receiver_error + 'p) polled \<times> ('h, 'b) packet_receiver \<times> 'm \<times> 'r" where
  "read_body H B P rd mutate self m r =
     (case pr_header self of
        None \<Rightarrow> (Panicked, self, m, r)
      | Some header \<Rightarrow>
          let len = ph_body_len H header
          in if len = 0 then (case take_message H B P self of (res, self) \<Rightarrow> (res, self, m, r))
             else if pr_read self = 0 \<and> pr_body_limit self \<noteq> 0 \<and> len > pr_body_limit self
             then (Ready (Inl (RHard (BodyLimitReached len))), self, m, r)
             else
               let self = (if pr_read self = 0
                           then self\<lparr>pr_bytes := pb_body_resize B (unat len) (pr_bytes self)\<rparr> else self)
               in if length (pb_full_body B (pr_bytes self)) = 0 then (Panicked, self, m, r)
                  else case read_full rd (pb_full_body B (pr_bytes self)) (pr_read self) r of
                    (res, view, read, r') \<Rightarrow>
                      let self = self\<lparr>pr_bytes := pb_set_full_body B view (pr_bytes self), pr_read := read\<rparr>
                      in case res of
                           Cancelled \<Rightarrow> (Cancelled, self, m, r')
                         | Panicked \<Rightarrow> (Panicked, self, m, r')
                         | Ready (Inl e) \<Rightarrow> (Ready (Inl (RIo e)), self, m, r')
                         | Ready (Inr _) \<Rightarrow> (case mutate m (pr_bytes self) of
                             (Inl e, m) \<Rightarrow> (case soft_error H B e self of (res, self) \<Rightarrow> (res, self, m, r'))
                           | (Inr bytes, m) \<Rightarrow>
                               (case take_message H B P (self\<lparr>pr_bytes := bytes\<rparr>) of
                                  (res, self) \<Rightarrow> (res, self, m, r'))))"

text \<open>\<open>PacketStream::receive\<close> of both streams: the header, then the body.\<close>

definition receive_packet ::
    "'h packet_header \<Rightarrow> 'b packet_bytes \<Rightarrow> ('p, 'h, 'b) packet \<Rightarrow> 'r stream_reader
      \<Rightarrow> ('m, 'b) mutator \<Rightarrow> ('m, 'b) mutator \<Rightarrow> ('h, 'b) packet_receiver \<Rightarrow> 'm \<Rightarrow> 'r
      \<Rightarrow> ('h receiver_error + 'p) polled \<times> ('h, 'b) packet_receiver \<times> 'm \<times> 'r" where
  "receive_packet H B P rd mutate_header mutate_body self m r =
     (case read_header H B rd mutate_header self m r of
        (Ready (Inr _), self, m, r) \<Rightarrow> read_body H B P rd mutate_body self m r
      | (Ready (Inl e), self, m, r) \<Rightarrow> (Ready (Inl e), self, m, r)
      | (Cancelled, self, m, r) \<Rightarrow> (Cancelled, self, m, r)
      | (Panicked, self, m, r) \<Rightarrow> (Panicked, self, m, r))"

text \<open>
  The background task calls \<open>receive\<close> again after a call of it was cancelled by another
  branch of its \<open>select!\<close>; here at most \<open>n\<close> times.
\<close>

fun receive_calls where
  "receive_calls 0 H B P rd mutate_header mutate_body self m r =
     receive_packet H B P rd mutate_header mutate_body self m r"
| "receive_calls (Suc n) H B P rd mutate_header mutate_body self m r =
     (case receive_packet H B P rd mutate_header mutate_body self m r of
        (Cancelled, self, m, r) \<Rightarrow> receive_calls n H B P rd mutate_header mutate_body self m r
      | res \<Rightarrow> res)"

section \<open>Reading in pieces\<close>

context byte_stream
begin

lemma read_full_reads:
  assumes "read_full rd view read r = (res, view', read', r')" and "read \<le> length view"
    and "\<nexists>e. res = Ready (Inl e)"
  shows "\<exists>bs. pending r = bs @ pending r' \<and> read' = read + length bs \<and> read' \<le> length view
    \<and> view' = take read view @ bs @ drop read' view
    \<and> (res = Ready (Inr ()) \<and> read' = length view \<or> res = Cancelled)"
  using assms
proof (induction "length view - read" arbitrary: view read r rule: less_induct)
  case less
  obtain out r1 where out: "rd (length view - read) r = (out, r1)"
    by (cases "rd (length view - read) r")
  show ?case
  proof (cases out)
    case Dropped
    with out read_dropped less.prems show ?thesis
      by (intro exI [of _ "[]"]) (auto simp: read_full.simps [of rd view])
  next
    case (ReadErr e)
    with out less.prems show ?thesis by (auto simp: read_full.simps [of rd view])
  next
    case (ReadBytes bs)
    define view1 where "view1 = take read view @ bs @ drop (read + length bs) view"
    have got: "length bs \<le> length view - read" "pending r = bs @ pending r1"
      using read_bytes out ReadBytes by auto
    then have len: "length view1 = length view"
      using less.prems(2) by (simp add: view1_def)
    have step: "read_full rd view read r =
        (if length view \<le> read + length bs then (Ready (Inr ()), view1, read + length bs, r1)
         else if bs = [] then (Ready (Inl IoUnexpectedEof), view1, read + length bs, r1)
         else read_full rd view1 (read + length bs) r1)"
      using out ReadBytes by (simp add: read_full.simps [of rd view] Let_def view1_def)
    show ?thesis
    proof (cases "length view \<le> read + length bs \<or> bs = []")
      case True
      with step less.prems got show ?thesis
        by (intro exI [of _ bs]) (auto simp: view1_def split: if_splits)
    next
      case False
      with step less.prems(1) have rest: "read_full rd view1 (read + length bs) r1 = (res, view', read', r')"
        by simp
      have "length view1 - (read + length bs) < length view - read" "read + length bs \<le> length view1"
        using False len by (auto simp: not_le intro!: diff_less_mono2)
      from less.hyps [OF this(1) rest this(2) less.prems(3)] obtain bs' where
        bs': "pending r1 = bs' @ pending r'" "read' = read + length bs + length bs'" "read' \<le> length view"
          "view' = take (read + length bs) view1 @ bs' @ drop read' view1"
          "res = Ready (Inr ()) \<and> read' = length view \<or> res = Cancelled"
        using len by auto
      moreover have "take (read + length bs) view1 = take read view @ bs"
        using less.prems(2) by (simp add: view1_def)
      moreover have "drop read' view1 = drop read' view"
        using less.prems(2) bs'(2) by (simp add: view1_def add.commute add.left_commute)
      ultimately show ?thesis
        using got(2) by (intro exI [of _ "bs @ bs'"]) (simp add: ac_simps)
    qed
  qed
qed

end

section \<open>Reading at once\<close>

text \<open>
  The specification: what a receiver makes of the bytes \<open>bs\<close> when it gets them all at once;
  \<open>None\<close> if they are too few.
\<close>

definition header_at_once ::
    "'h packet_header \<Rightarrow> 'b packet_bytes \<Rightarrow> nat \<Rightarrow> ('m, 'b) mutator \<Rightarrow> ('h, 'b) packet_receiver \<Rightarrow> 'm \<Rightarrow> byte list
      \<Rightarrow> (('h receiver_error + unit) \<times> ('h, 'b) packet_receiver \<times> 'm \<times> byte list) option" where
  "header_at_once H B mac mutate self m bs =
     (let n = mac + ph_len H;
          self = self\<lparr>pr_bytes := pb_set_full_header B (take n bs) (pr_bytes self), pr_read := n\<rparr>
      in if length bs < n then None
         else Some (case mutate m (pr_bytes self) of
                (Inl e, m) \<Rightarrow> (Inl (RHard e), self, m, drop n bs)
              | (Inr buf, m) \<Rightarrow> (case ph_from_bytes H (pb_header B buf) of
                    Inl e \<Rightarrow> (Inl (RHard e), self\<lparr>pr_bytes := buf\<rparr>, m, drop n bs)
                  | Inr h \<Rightarrow> (Inr (), self\<lparr>pr_bytes := buf, pr_header := Some h, pr_read := 0\<rparr>, m, drop n bs))))"

definition body_at_once ::
    "'h packet_header \<Rightarrow> 'b packet_bytes \<Rightarrow> ('p, 'h, 'b) packet \<Rightarrow> nat \<Rightarrow> ('m, 'b) mutator \<Rightarrow> 'h
      \<Rightarrow> ('h, 'b) packet_receiver \<Rightarrow> 'm \<Rightarrow> byte list
      \<Rightarrow> (('h receiver_error + 'p) \<times> ('h, 'b) packet_receiver \<times> 'm \<times> byte list) option" where
  "body_at_once H B P mac mutate h self m bs =
     (let len = ph_body_len H h;
          fresh = self\<lparr>pr_bytes := pb_new B (ph_len H), pr_header := None, pr_read := 0\<rparr>;
          finish = (\<lambda>buf. case pk_from_bytes_and_header P buf h of Inl e \<Rightarrow> Inl (RSoft h e) | Inr p \<Rightarrow> Inr p)
      in if len = 0 then Some (finish (pr_bytes self), fresh, m, bs)
         else if pr_read self = 0 \<and> pr_body_limit self \<noteq> 0 \<and> len > pr_body_limit self
         then Some (Inl (RHard (BodyLimitReached len)), self, m, bs)
         else
           let n = mac + unat len;
               buf = pb_set_full_body B (take n bs) (pb_body_resize B (unat len) (pr_bytes self))
           in if length bs < n then None
              else Some (case mutate m buf of
                (Inl e, m) \<Rightarrow> (Inl (RSoft h e), fresh, m, drop n bs)
              | (Inr buf, m) \<Rightarrow> (finish buf, fresh, m, drop n bs)))"

definition packet_at_once where
  "packet_at_once H B P mac mutate_header mutate_body self m bs =
     (case pr_header self of
        Some h \<Rightarrow> body_at_once H B P mac mutate_body h self m bs
      | None \<Rightarrow> Option.bind (header_at_once H B mac mutate_header self m bs) (\<lambda>res.
          case res of
            (Inl e, self, m, bs) \<Rightarrow> Some (Inl e, self, m, bs)
          | (Inr _, self, m, bs) \<Rightarrow> body_at_once H B P mac mutate_body (the (pr_header self)) self m bs))"

text \<open>The bytes that a receiver holds of the part it is reading.\<close>

definition buffered :: "'b packet_bytes \<Rightarrow> ('h, 'b) packet_receiver \<Rightarrow> byte list" where
  "buffered B self =
     (if pr_read self = 0 then []
      else take (pr_read self) (case pr_header self of
        None \<Rightarrow> pb_full_header B (pr_bytes self) | Some _ \<Rightarrow> pb_full_body B (pr_bytes self)))"

locale framed_stream = packet_buffer B wf mac + byte_stream rd pending
  for B :: "'b packet_bytes" and wf mac and rd :: "'r stream_reader" and pending +
  fixes H :: "'h packet_header" and P :: "('p, 'h, 'b) packet"
    and mutate_header mutate_body :: "('m, 'b) mutator"
  assumes mutate_header_wf: "wf n b \<Longrightarrow> mutate_header m b = (Inr b', m') \<Longrightarrow> wf n b'"
begin

text \<open>The invariant of a receiver between two calls.\<close>

definition receiver_ok :: "('h, 'b) packet_receiver \<Rightarrow> bool" where
  "receiver_ok self \<longleftrightarrow> wf (ph_len H) (pr_bytes self)
     \<and> (case pr_header self of
          None \<Rightarrow> pr_read self \<le> mac + ph_len H
        | Some h \<Rightarrow> pr_read self = 0
            \<or> pr_read self \<le> mac + unat (ph_body_len H h)
              \<and> length (pb_body B (pr_bytes self)) = unat (ph_body_len H h)
              \<and> ph_body_len H h \<noteq> 0)"

lemma receiver_new_ok: "receiver_ok (receiver_new H B limit)"
  by (simp add: receiver_ok_def receiver_new_def new_wf)

text \<open>What the loop leaves behind, in terms of all the bytes of the part.\<close>

lemma read_full_view:
  assumes "read_full rd v (read :: nat) r = (res, v', read', r')" and "read \<le> length v"
    and "\<nexists>e. res = Ready (Inl e)"
  shows "take read' v' @ pending r' = take read v @ pending r \<and> length v' = length v \<and> read' \<le> length v
    \<and> (res = Cancelled \<or> res = Ready (Inr ()) \<and> v' = take (length v) (take read v @ pending r)
        \<and> pending r' = drop (length v) (take read v @ pending r) \<and> length v \<le> length (take read v @ pending r)
        \<and> read' = length v)"
  using read_full_reads [OF assms] assms(2) by fastforce

lemma header_cancelled:
  assumes ok: "receiver_ok self"
    and call: "read_header H B rd mutate_header self m r = (Cancelled, self', m', r')"
  shows "receiver_ok self' \<and> header_at_once H B mac mutate_header self' m' (buffered B self' @ pending r')
      = header_at_once H B mac mutate_header self m (buffered B self @ pending r)
    \<and> pr_header self = None \<and> pr_header self' = None"
proof -
  have none: "pr_header self = None"
    using call by (auto simp: read_header_def split: if_splits)
  let ?v = "pb_full_header B (pr_bytes self)"
  have len: "length ?v = mac + ph_len H" "pr_read self \<le> mac + ph_len H" and wf: "wf (ph_len H) (pr_bytes self)"
    using ok none by (auto simp: receiver_ok_def full_header_len)
  obtain res view read r1 where full: "read_full rd ?v (pr_read self) r = (res, view, read, r1)"
    by (cases "read_full rd ?v (pr_read self) r") auto
  have call': "res = Cancelled" "self' = self\<lparr>pr_bytes := pb_set_full_header B view (pr_bytes self), pr_read := read\<rparr>"
      "m' = m" "r' = r1"
    using call full none
    by (auto simp: read_header_def Let_def split: polled.splits sum.splits prod.splits)
  have view: "take read view @ pending r' = take (pr_read self) ?v @ pending r"
      "length view = mac + ph_len H" "read \<le> mac + ph_len H"
    using read_full_view [OF full] call' len by auto
  note put = set_full_header [OF wf view(2)]
  have "buffered B self' @ pending r' = buffered B self @ pending r"
    using view call' put none by (auto simp: buffered_def)
  moreover have "receiver_ok self'"
    using put view call' none by (simp add: receiver_ok_def)
  moreover have "header_at_once H B mac mutate_header self' m xs = header_at_once H B mac mutate_header self m xs" for xs
    using put_put_header [OF wf _ view(2), of "take (mac + ph_len H) xs"] call'
    by (cases "length xs < mac + ph_len H") (simp_all add: header_at_once_def Let_def split: sum.split prod.split)
  ultimately show ?thesis
    using none call' by simp
qed

lemma header_ready:
  assumes ok: "receiver_ok self" and none: "pr_header self = None"
    and call: "read_header H B rd mutate_header self m r = (out, self', m', r')"
    and out: "out \<noteq> Cancelled" "\<nexists>e. out = Ready (Inl (RIo e))"
  shows "\<exists>res. out = Ready res
    \<and> header_at_once H B mac mutate_header self m (buffered B self @ pending r) = Some (res, self', m', pending r')
    \<and> (res = Inr () \<longrightarrow> receiver_ok self' \<and> pr_header self' \<noteq> None \<and> pr_read self' = 0)"
proof -
  let ?v = "pb_full_header B (pr_bytes self)"
  have len: "length ?v = mac + ph_len H" "pr_read self \<le> mac + ph_len H" and wf: "wf (ph_len H) (pr_bytes self)"
    using ok none by (auto simp: receiver_ok_def full_header_len)
  obtain res view read r1 where full: "read_full rd ?v (pr_read self) r = (res, view, read, r1)"
    by (cases "read_full rd ?v (pr_read self) r") auto
  have no_err: "\<nexists>e. res = Ready (Inl e)" and r1: "r1 = r'"
    using call full none out
    by (auto simp: read_header_def Let_def split: polled.splits sum.splits prod.splits)
  have buf: "buffered B self = take (pr_read self) ?v"
    using none by (simp add: buffered_def)
  have res: "res = Ready (Inr ())"
    using read_full_view [OF full _ no_err] len call full none out
    by (auto simp: read_header_def Let_def split: polled.splits sum.splits prod.splits)
  define all where "all = buffered B self @ pending r"
  have view: "view = take (mac + ph_len H) all" "pending r' = drop (mac + ph_len H) all"
      "mac + ph_len H \<le> length all" "read = mac + ph_len H"
    using read_full_view [OF full _ no_err] len r1 buf res by (auto simp: all_def)
  then have "length view = mac + ph_len H"
    by simp
  note put = set_full_header [OF wf this]
  show ?thesis
    unfolding all_def [symmetric]
    using call full none res view(2-4) put mutate_header_wf
    by (auto simp: read_header_def header_at_once_def Let_def receiver_ok_def view(1) [symmetric]
        split: sum.splits prod.splits)
qed

text \<open>The body's part once it has its length.\<close>

definition sized :: "'h \<Rightarrow> ('h, 'b) packet_receiver \<Rightarrow> 'b" where
  "sized h self = (if pr_read self = 0 then pb_body_resize B (unat (ph_body_len H h)) (pr_bytes self)
    else pr_bytes self)"

lemma sized_facts:
  assumes ok: "receiver_ok self" and h: "pr_header self = Some h"
  shows "wf (ph_len H) (sized h self)"
    and "length (pb_body B (sized h self)) = unat (ph_body_len H h)"
    and "length (pb_full_body B (sized h self)) = mac + unat (ph_body_len H h)"
    and "pb_body_resize B (unat (ph_body_len H h)) (pr_bytes self) = sized h self"
    and "pr_read self \<le> mac + unat (ph_body_len H h)"
    and "buffered B self = take (pr_read self) (pb_full_body B (sized h self))"
proof -
  have wf: "wf (ph_len H) (pr_bytes self)"
    using ok by (simp add: receiver_ok_def)
  show s: "wf (ph_len H) (sized h self)" "length (pb_body B (sized h self)) = unat (ph_body_len H h)"
    using ok h body_resize [OF wf] by (auto simp: sized_def receiver_ok_def)
  show "length (pb_full_body B (sized h self)) = mac + unat (ph_body_len H h)"
    using s full_body_len by simp
  show "pb_body_resize B (unat (ph_body_len H h)) (pr_bytes self) = sized h self"
    using ok h resize_same [OF wf] by (auto simp: sized_def receiver_ok_def)
  show "pr_read self \<le> mac + unat (ph_body_len H h)"
    using ok h by (auto simp: receiver_ok_def)
  show "buffered B self = take (pr_read self) (pb_full_body B (sized h self))"
    using h by (simp add: buffered_def sized_def)
qed

lemma read_body_step:
  assumes ok: "receiver_ok self" and h: "pr_header self = Some h" and len: "ph_body_len H h \<noteq> 0"
    and limit: "\<not> (pr_read self = 0 \<and> pr_body_limit self \<noteq> 0 \<and> ph_body_len H h > pr_body_limit self)"
    and full: "read_full rd (pb_full_body B (sized h self)) (pr_read self) r = (res, view, read, r1)"
  shows "read_body H B P rd mutate_body self m r =
    (let self = self\<lparr>pr_bytes := pb_set_full_body B view (sized h self), pr_read := read\<rparr>
     in case res of
          Cancelled \<Rightarrow> (Cancelled, self, m, r1)
        | Panicked \<Rightarrow> (Panicked, self, m, r1)
        | Ready (Inl e) \<Rightarrow> (Ready (Inl (RIo e)), self, m, r1)
        | Ready (Inr _) \<Rightarrow> (case mutate_body m (pr_bytes self) of
            (Inl e, m) \<Rightarrow> (case soft_error H B e self of (res, self) \<Rightarrow> (res, self, m, r1))
          | (Inr bytes, m) \<Rightarrow>
              (case take_message H B P (self\<lparr>pr_bytes := bytes\<rparr>) of
                 (res, self) \<Rightarrow> (res, self, m, r1))))"
proof -
  have "0 < unat (ph_body_len H h)"
    using len by (simp add: unat_gt_0)
  then have "length (pb_full_body B (sized h self)) \<noteq> 0"
    using sized_facts(3) [OF ok h] by simp
  moreover have "pr_bytes (if pr_read self = 0
      then self\<lparr>pr_bytes := pb_body_resize B (unat (ph_body_len H h)) (pr_bytes self)\<rparr> else self) = sized h self"
    "pr_read (if pr_read self = 0
      then self\<lparr>pr_bytes := pb_body_resize B (unat (ph_body_len H h)) (pr_bytes self)\<rparr> else self) = pr_read self"
    by (simp_all add: sized_def)
  ultimately show ?thesis
    using full h len limit unfolding read_body_def Let_def
    by (auto simp: sized_def split: polled.split sum.split prod.split)
qed

lemma body_cancelled:
  assumes ok: "receiver_ok self" and h: "pr_header self = Some h"
    and call: "read_body H B P rd mutate_body self m r = (Cancelled, self', m', r')"
  shows "receiver_ok self' \<and> pr_header self' = Some h
    \<and> body_at_once H B P mac mutate_body h self' m' (buffered B self' @ pending r')
      = body_at_once H B P mac mutate_body h self m (buffered B self @ pending r)"
proof -
  note sized = sized_facts [OF ok h]
  have go: "ph_body_len H h \<noteq> 0"
      "\<not> (pr_read self = 0 \<and> pr_body_limit self \<noteq> 0 \<and> ph_body_len H h > pr_body_limit self)"
    using call h by (auto simp: read_body_def Let_def take_message_def split: if_splits sum.splits)
  obtain res view read r1 where full:
      "read_full rd (pb_full_body B (sized h self)) (pr_read self) r = (res, view, read, r1)"
    by (cases "read_full rd (pb_full_body B (sized h self)) (pr_read self) r") auto
  have call': "res = Cancelled" "self' = self\<lparr>pr_bytes := pb_set_full_body B view (sized h self), pr_read := read\<rparr>"
      "m' = m" "r' = r1"
    using call [unfolded read_body_step [OF ok h go full]]
    by (auto simp: Let_def soft_error_def take_message_def split: polled.splits sum.splits prod.splits option.splits)
  have view: "take read view @ pending r' = buffered B self @ pending r"
      "length view = length (pb_full_body B (sized h self))" "read \<le> mac + unat (ph_body_len H h)"
    using read_full_view [OF full] call' sized by auto
  note put = set_full_body [OF sized(1) view(2)]
  have body_len: "length (pb_body B (pb_set_full_body B view (sized h self))) = unat (ph_body_len H h)"
    using put full_body_len sized(3) view(2) by (metis add_left_cancel)
  have ok': "receiver_ok self'" and h': "pr_header self' = Some h"
    using put view call' h body_len go by (simp_all add: receiver_ok_def)
  moreover have "buffered B self' @ pending r' = buffered B self @ pending r"
    using view call' put h by (auto simp: buffered_def)
  moreover have "pr_read self \<le> read"
    using read_full_reads [OF full] call' sized by auto
  moreover have "body_at_once H B P mac mutate_body h self' m xs = body_at_once H B P mac mutate_body h self m xs" for xs
  proof -
    have "pb_body_resize B (unat (ph_body_len H h)) (pr_bytes self') = pb_set_full_body B view (sized h self)"
      using resize_same [OF conjunct1 [OF put] body_len] call' by simp
    then have "pb_set_full_body B c (pb_body_resize B (unat (ph_body_len H h)) (pr_bytes self'))
        = pb_set_full_body B c (sized h self)" for c
      using put_put_body [OF sized(1) view(2)] by simp
    moreover have "\<not> (pr_read self' = 0 \<and> pr_body_limit self' \<noteq> 0 \<and> ph_body_len H h > pr_body_limit self')"
      using go(2) call' \<open>pr_read self \<le> read\<close> by auto
    ultimately show ?thesis
      using go call' sized(4) unfolding body_at_once_def Let_def
      by (auto split: sum.split prod.split)
  qed
  ultimately show ?thesis
    using call' by simp
qed

lemma body_ready:
  assumes ok: "receiver_ok self" and h: "pr_header self = Some h"
    and call: "read_body H B P rd mutate_body self m r = (out, self', m', r')"
    and out: "out \<noteq> Cancelled" "\<nexists>e. out = Ready (Inl (RIo e))"
  shows "\<exists>res. out = Ready res
    \<and> body_at_once H B P mac mutate_body h self m (buffered B self @ pending r) = Some (res, self', m', pending r')"
proof (cases "ph_body_len H h = 0 \<or> pr_read self = 0 \<and> pr_body_limit self \<noteq> 0 \<and> ph_body_len H h > pr_body_limit self")
  case True
  have "pr_read self = 0"
    using True ok h by (auto simp: receiver_ok_def)
  with True call h show ?thesis
    by (auto simp: read_body_def body_at_once_def Let_def take_message_def buffered_def split: sum.splits)
next
  case False
  then have go: "ph_body_len H h \<noteq> 0"
      "\<not> (pr_read self = 0 \<and> pr_body_limit self \<noteq> 0 \<and> ph_body_len H h > pr_body_limit self)"
    by auto
  note sized = sized_facts [OF ok h]
  obtain res view read r1 where full:
      "read_full rd (pb_full_body B (sized h self)) (pr_read self) r = (res, view, read, r1)"
    by (cases "read_full rd (pb_full_body B (sized h self)) (pr_read self) r") auto
  note step = call [unfolded read_body_step [OF ok h go full]]
  have no_err: "\<nexists>e. res = Ready (Inl e)" and r1: "r1 = r'"
    using step out by (auto simp: Let_def split: polled.splits sum.splits prod.splits)
  have res: "res = Ready (Inr ())"
    using read_full_view [OF full _ no_err] sized step out
    by (auto simp: Let_def split: polled.splits sum.splits prod.splits)
  define all where "all = buffered B self @ pending r"
  have view: "view = take (mac + unat (ph_body_len H h)) all"
      "pending r' = drop (mac + unat (ph_body_len H h)) all"
      "mac + unat (ph_body_len H h) \<le> length all"
    using read_full_view [OF full _ no_err] sized r1 res by (auto simp: all_def)
  show ?thesis
    unfolding all_def [symmetric] body_at_once_def
    using step go res view(2,3) h r1
    by (auto simp: Let_def soft_error_def take_message_def view(1) [symmetric] sized(4)
        split: sum.splits prod.splits)
qed

text \<open>
  One call of \<open>receive\<close>: unless the stream fails, it either is cancelled without changing
  what the packet will be, or gives what reading all at once gives.
\<close>

lemma receive_cancelled:
  assumes ok: "receiver_ok self"
    and call: "receive_packet H B P rd mutate_header mutate_body self m r = (Cancelled, self', m', r')"
  shows "receiver_ok self'
    \<and> packet_at_once H B P mac mutate_header mutate_body self' m' (buffered B self' @ pending r')
      = packet_at_once H B P mac mutate_header mutate_body self m (buffered B self @ pending r)"
proof (cases "pr_header self")
  case (Some h)
  then have "read_body H B P rd mutate_body self m r = (Cancelled, self', m', r')"
    using call by (simp add: receive_packet_def read_header_def)
  from body_cancelled [OF ok Some this] Some show ?thesis
    by (simp add: packet_at_once_def)
next
  case None
  obtain out self1 m1 r1 where header: "read_header H B rd mutate_header self m r = (out, self1, m1, r1)"
    by (cases "read_header H B rd mutate_header self m r") auto
  show ?thesis
  proof (cases "out = Cancelled")
    case True
    with header_cancelled [OF ok] header call show ?thesis
      by (simp add: receive_packet_def packet_at_once_def)
  next
    case False
    then have out: "out = Ready (Inr ())" and body: "read_body H B P rd mutate_body self1 m1 r1 = (Cancelled, self', m', r')"
      using call header by (auto simp: receive_packet_def split: polled.splits sum.splits)
    from header_ready [OF ok None header] out have once:
        "header_at_once H B mac mutate_header self m (buffered B self @ pending r) = Some (Inr (), self1, m1, pending r1)"
      and ok1: "receiver_ok self1" "pr_header self1 \<noteq> None" "pr_read self1 = 0"
      by auto
    then obtain h where h: "pr_header self1 = Some h" by auto
    from body_cancelled [OF ok1(1) h body] once None ok1 h show ?thesis
      by (simp add: packet_at_once_def buffered_def)
  qed
qed

lemma receive_ready:
  assumes ok: "receiver_ok self"
    and call: "receive_packet H B P rd mutate_header mutate_body self m r = (out, self', m', r')"
    and out: "out \<noteq> Cancelled" "\<nexists>e. out = Ready (Inl (RIo e))"
  shows "\<exists>res. out = Ready res
    \<and> packet_at_once H B P mac mutate_header mutate_body self m (buffered B self @ pending r)
      = Some (res, self', m', pending r')"
proof (cases "pr_header self")
  case (Some h)
  then have "read_body H B P rd mutate_body self m r = (out, self', m', r')"
    using call by (simp add: receive_packet_def read_header_def)
  from body_ready [OF ok Some this out] Some show ?thesis
    by (simp add: packet_at_once_def)
next
  case None
  obtain out1 self1 m1 r1 where header: "read_header H B rd mutate_header self m r = (out1, self1, m1, r1)"
    by (cases "read_header H B rd mutate_header self m r") auto
  have "out1 \<noteq> Cancelled" "\<nexists>e. out1 = Ready (Inl (RIo e))"
    using call header out by (auto simp: receive_packet_def split: polled.splits sum.splits)
  from header_ready [OF ok None header this] obtain res1 where
      once: "out1 = Ready res1" "header_at_once H B mac mutate_header self m (buffered B self @ pending r)
        = Some (res1, self1, m1, pending r1)"
    and ok1: "res1 = Inr () \<longrightarrow> receiver_ok self1 \<and> pr_header self1 \<noteq> None \<and> pr_read self1 = 0"
    by auto
  show ?thesis
  proof (cases res1)
    case (Inl e)
    with call header once None show ?thesis
      by (simp add: receive_packet_def packet_at_once_def)
  next
    case (Inr u)
    then obtain h where h: "receiver_ok self1" "pr_header self1 = Some h" "pr_read self1 = 0"
      using ok1 by auto
    have "read_body H B P rd mutate_body self1 m1 r1 = (out, self', m', r')"
      using call header once Inr by (simp add: receive_packet_def)
    from body_ready [OF h(1,2) this out] h once Inr None show ?thesis
      by (simp add: packet_at_once_def buffered_def)
  qed
qed

lemma receive_calls_at_once:
  assumes "receiver_ok self"
    and "receive_calls n H B P rd mutate_header mutate_body self m r = (out, self', m', r')"
    and "out \<noteq> Cancelled" and "\<nexists>e. out = Ready (Inl (RIo e))"
  shows "\<exists>res. out = Ready res
    \<and> packet_at_once H B P mac mutate_header mutate_body self m (buffered B self @ pending r)
      = Some (res, self', m', pending r')"
  using assms
proof (induction n arbitrary: self m r)
  case 0
  then show ?case by (simp add: receive_ready)
next
  case (Suc n)
  obtain out1 self1 m1 r1 where step: "receive_packet H B P rd mutate_header mutate_body self m r = (out1, self1, m1, r1)"
    by (cases "receive_packet H B P rd mutate_header mutate_body self m r") auto
  show ?case
  proof (cases "out1 = Cancelled")
    case True
    with step have "receive_packet H B P rd mutate_header mutate_body self m r = (Cancelled, self1, m1, r1)"
      by simp
    from receive_cancelled [OF Suc.prems(1) this] Suc.IH [of self1 m1 r1] Suc.prems this show ?thesis
      by simp
  next
    case False
    with Suc.prems step have "out1 = out" "self1 = self'" "m1 = m'" "r1 = r'"
      by (cases out1; simp)+
    with receive_ready [OF Suc.prems(1) step] Suc.prems show ?thesis by simp
  qed
qed

end

end
