(* ===== verification/Handler.thy ===== *)
theory Handler
  imports Receiver
begin

text \<open>
  \<open>Handler\<close> of \<open>lafere/src/handler/handler.rs\<close>: which packets belong to which request, what
  is answered to the peer and what is sent to it. The channels of \<open>tokio\<close> are an argument: a
  record of the operations the handler performs on them, over a state \<open>'st\<close> of the runtime.
  A channel is named by a number, which both of its ends share.
\<close>

section \<open>Errors\<close>

datatype task_error =
    TaskJoin
  | TaskIo io_error
  | TaskPacket packet_error
  | UnknownId u32
  | ExistingId u32
  | WrongPacketKind string
  | IncorrectSignature

datatype request_error =
    ConnectionAlreadyClosed
  | TaskFailed
  | NoResponse
  | MalformedRequest
  | ResponsePacket packet_error

text \<open>A panic ends the background task.\<close>

datatype 'a outcome = Returned 'a | Panic string

section \<open>Requests and channels\<close>

type_synonym chan = nat

datatype 'p internal_request =
    IEnableServerRequests
  | IRequest 'p chan
  | IRequestSender 'p chan
  | IRequestReceiver 'p chan

datatype 'p user_request =
    EnableServerRequests
  | Request 'p chan
  | RequestSender 'p chan
  | RequestReceiver 'p chan

datatype user_response = UserRequest chan | UserReceiver chan

datatype stream_response = StreamRequest chan | StreamReceiver chan

text \<open>Polling the receiver of a channel.\<close>

datatype 'a poll_result = PollPending | PollSome 'a | PollClosed

text \<open>
  \<open>send\<close> tells whether the other end still receives. \<open>tk_response_send\<close> and \<open>tk_oneshot_*\<close>
  are the two kinds of oneshot channels, \<open>tk_stream_*\<close> the mpsc channels of streams,
  \<open>tk_requests_*\<close> the two mpsc channels between the handler and its user.
\<close>

record ('st, 'p) tokio =
  tk_oneshot :: "'st \<Rightarrow> chan \<times> 'st"
  tk_oneshot_poll :: "chan \<Rightarrow> 'st \<Rightarrow> 'p poll_result \<times> 'st"
  tk_oneshot_close :: "chan \<Rightarrow> 'st \<Rightarrow> 'st"
  tk_response_send :: "chan \<Rightarrow> request_error + 'p \<Rightarrow> 'st \<Rightarrow> bool \<times> 'st"
  tk_mpsc :: "nat \<Rightarrow> 'st \<Rightarrow> chan \<times> 'st"
  tk_stream_send :: "chan \<Rightarrow> 'p \<Rightarrow> 'st \<Rightarrow> bool \<times> 'st"
  tk_stream_poll :: "chan \<Rightarrow> 'st \<Rightarrow> 'p poll_result \<times> 'st"
  tk_stream_close :: "chan \<Rightarrow> 'st \<Rightarrow> 'st"
  tk_drop_sender :: "chan \<Rightarrow> 'st \<Rightarrow> 'st"
  tk_requests_send :: "'p user_request \<Rightarrow> 'st \<Rightarrow> bool \<times> 'st"
  tk_requests_poll :: "'st \<Rightarrow> 'p internal_request poll_result \<times> 'st"
  tk_requests_close :: "'st \<Rightarrow> 'st"

section \<open>Ids\<close>

definition U32_MID :: u32 where
  "U32_MID = 0xFFFFFFFF div 2"

definition checked_add_1 :: "u32 \<Rightarrow> u32 option" where
  "checked_add_1 c = (if c = 0xFFFFFFFF then None else Some (c + 1))"

datatype handler_state =
    UniServer
  | UniClient "u32 option"
  | BiServer "u32 option"
  | BiClient "u32 option"

fun state_next_id :: "handler_state \<Rightarrow> (u32 option \<times> handler_state) outcome" where
  "state_next_id UniServer = Panic ''cannot create id on uni Server''"
| "state_next_id (UniClient counter) =
     Returned (counter, UniClient (Option.bind counter checked_add_1))"
| "state_next_id (BiServer counter) =
     Returned (counter, BiServer (Option.bind counter checked_add_1))"
| "state_next_id (BiClient counter) =
     Returned (counter, BiClient (case counter of
       Some c \<Rightarrow> if c < U32_MID then Some (c + 1) else None
     | None \<Rightarrow> None))"

fun can_receive_requests :: "handler_state \<Rightarrow> bool" where
  "can_receive_requests (UniClient _) = False"
| "can_receive_requests _ = True"

fun can_send_requests :: "handler_state \<Rightarrow> bool" where
  "can_send_requests UniServer = False"
| "can_send_requests _ = True"

fun state_reset :: "handler_state \<Rightarrow> handler_state" where
  "state_reset UniServer = UniServer"
| "state_reset (UniClient _) = UniClient (Some 0)"
| "state_reset (BiServer _) = BiServer (Some (U32_MID + 1))"
| "state_reset (BiClient _) = BiClient (Some 0)"

text \<open>Whether the state was changed, and the state.\<close>

fun enable_server_requests :: "handler_state \<Rightarrow> bool \<times> handler_state" where
  "enable_server_requests UniServer = (True, BiServer (Some (U32_MID + 1)))"
| "enable_server_requests (UniClient (Some pid)) =
     (True, if pid \<le> U32_MID then BiClient (Some pid) else BiClient None)"
| "enable_server_requests (UniClient None) = (True, BiClient None)"
| "enable_server_requests s = (False, s)"

section \<open>The handler\<close>

text \<open>The two ends of the requests' channels belong to the runtime's state.\<close>

record handler =
  waiting_on_stream :: "u32 \<rightharpoonup> stream_response"
  waiting_on_user :: "u32 \<rightharpoonup> user_response"
  h_state :: handler_state

definition handler_new :: "bool \<Rightarrow> handler" where
  "handler_new is_server = \<lparr>
     waiting_on_stream = Map.empty,
     waiting_on_user = Map.empty,
     h_state = (if is_server then UniServer else UniClient (Some 0))\<rparr>"

definition user_insert :: "u32 \<Rightarrow> user_response \<Rightarrow> handler \<Rightarrow> task_error + handler" where
  "user_insert pid receiver h =
     (case waiting_on_user h pid of
        Some _ \<Rightarrow> Inl (ExistingId pid)
      | None \<Rightarrow> Inr (h\<lparr>waiting_on_user := (waiting_on_user h)(pid \<mapsto> receiver)\<rparr>))"

definition user_close :: "('st, 'p) tokio \<Rightarrow> user_response \<Rightarrow> 'st \<Rightarrow> 'st" where
  "user_close T resp st =
     (case resp of UserRequest c \<Rightarrow> tk_oneshot_close T c st | UserReceiver c \<Rightarrow> tk_stream_close T c st)"

definition user_close_id :: "('st, 'p) tokio \<Rightarrow> u32 \<Rightarrow> handler \<Rightarrow> 'st \<Rightarrow> 'st" where
  "user_close_id T pid h st =
     (case waiting_on_user h pid of Some resp \<Rightarrow> user_close T resp st | None \<Rightarrow> st)"

text \<open>\<open>order\<close> is the order in which the hash map is iterated over.\<close>

definition user_close_all :: "('st, 'p) tokio \<Rightarrow> u32 list \<Rightarrow> handler \<Rightarrow> 'st \<Rightarrow> 'st" where
  "user_close_all T order h = fold (\<lambda>pid st. user_close_id T pid h st) order"

definition stream_chan :: "stream_response \<Rightarrow> chan" where
  "stream_chan s = (case s of StreamRequest c \<Rightarrow> c | StreamReceiver c \<Rightarrow> c)"

definition stream_clear :: "('st, 'p) tokio \<Rightarrow> u32 list \<Rightarrow> handler \<Rightarrow> 'st \<Rightarrow> handler \<times> 'st" where
  "stream_clear T order h st =
     (h\<lparr>waiting_on_stream := Map.empty\<rparr>,
      fold (\<lambda>pid st. case waiting_on_stream h pid of
              Some s \<Rightarrow> tk_drop_sender T (stream_chan s) st | None \<Rightarrow> st) order st)"

text \<open>Packets made by the handler.\<close>

definition with_flags :: "'h packet_header \<Rightarrow> ('p, 'h, 'b) packet \<Rightarrow> packet_kind \<Rightarrow> 'p \<Rightarrow> 'p" where
  "with_flags H P k p = pk_update_header P (ph_set_flags H (flags_new k)) p"

definition with_id :: "'h packet_header \<Rightarrow> ('p, 'h, 'b) packet \<Rightarrow> u32 \<Rightarrow> 'p \<Rightarrow> 'p" where
  "with_id H P pid p = pk_update_header P (ph_set_id H pid) p"

definition stamped :: "'h packet_header \<Rightarrow> ('p, 'h, 'b) packet \<Rightarrow> packet_kind \<Rightarrow> u32 \<Rightarrow> 'p \<Rightarrow> 'p" where
  "stamped H P k pid p = with_id H P pid (with_flags H P k p)"

definition ping_packet where
  "ping_packet H P = with_flags H P KPing (pk_empty P)"

definition stream_close_packet where
  "stream_close_packet H P pid = stamped H P KStreamClosed pid (pk_empty P)"

definition malformed_request where
  "malformed_request H P pid = stamped H P KMalformedRequest pid (pk_empty P)"

subsection \<open>A packet from the other side\<close>

datatype 'p send_back = SendNone | SendPacket 'p | SendClose | SendCloseWithPacket

text \<open>\<open>tx_requests.send(..).await\<close> and what follows it.\<close>

definition to_user ::
    "('st, 'p) tokio \<Rightarrow> 'p user_request \<Rightarrow> handler \<Rightarrow> 'st \<Rightarrow> (task_error + 'p send_back) \<times> handler \<times> 'st" where
  "to_user T req h st =
     (case tk_requests_send T req st of
        (True, st) \<Rightarrow> (Inr SendNone, h, st)
      | (False, st) \<Rightarrow> (Inr SendCloseWithPacket, h, st))"

definition stream_remove :: "u32 \<Rightarrow> handler \<Rightarrow> handler" where
  "stream_remove pid h = h\<lparr>waiting_on_stream := (waiting_on_stream h)(pid := None)\<rparr>"

text \<open>
  \<open>waiting_on_stream.remove(&id)\<close> for an answer to a request: the entry is removed whatever it
  is; a stream's sender is dropped.
\<close>

definition answer ::
    "('st, 'p) tokio \<Rightarrow> u32 \<Rightarrow> request_error + 'p \<Rightarrow> handler \<Rightarrow> 'st
      \<Rightarrow> (task_error + 'p send_back) \<times> handler \<times> 'st" where
  "answer T pid res h st =
     (case waiting_on_stream h pid of
        Some (StreamRequest c) \<Rightarrow> (Inr SendNone, stream_remove pid h, snd (tk_response_send T c res st))
      | Some (StreamReceiver c) \<Rightarrow> (Inl (UnknownId pid), stream_remove pid h, tk_drop_sender T c st)
      | None \<Rightarrow> (Inl (UnknownId pid), h, st))"

definition handler_send ::
    "'h packet_header \<Rightarrow> ('p, 'h, 'b) packet \<Rightarrow> ('st, 'p) tokio \<Rightarrow> 'p \<Rightarrow> handler \<Rightarrow> 'st
      \<Rightarrow> (task_error + 'p send_back) \<times> handler \<times> 'st" where
  "handler_send H P T pkt h st =
     (let pid = ph_id H (pk_header P pkt);
          k = flags_kind (ph_flags H (pk_header P pkt));
          can_recv_req = can_receive_requests (h_state h)
      in if k = KEnableServerRequests then
           (let (newly_enabled, s) = enable_server_requests (h_state h);
                h = h\<lparr>h_state := s\<rparr>
            in if newly_enabled then to_user T EnableServerRequests h st else (Inr SendNone, h, st))
         else if k = KRequest \<and> can_recv_req then
           (let (c, st) = tk_oneshot T st
            in case user_insert pid (UserRequest c) h of
                 Inl e \<Rightarrow> (Inl e, h, st)
               | Inr h \<Rightarrow> to_user T (Request pkt c) h st)
         else if k = KRequestReceiver \<and> can_recv_req then
           (let (c, st) = tk_mpsc T 10 st
            in case user_insert pid (UserReceiver c) h of
                 Inl e \<Rightarrow> (Inl e, h, st)
               | Inr h \<Rightarrow> to_user T (RequestReceiver pkt c) h st)
         else if k = KRequestSender \<and> can_recv_req then
           (let (c, st) = tk_mpsc T 10 st
            in case waiting_on_stream h pid of
                 Some _ \<Rightarrow> (Inl (ExistingId pid), h, st)
               | None \<Rightarrow> to_user T (RequestSender pkt c)
                   (h\<lparr>waiting_on_stream := (waiting_on_stream h)(pid \<mapsto> StreamReceiver c)\<rparr>) st)
         else if k = KResponse then answer T pid (Inr pkt) h st
         else if k = KNoResponse then answer T pid (Inl NoResponse) h st
         else if k = KMalformedRequest then answer T pid (Inl MalformedRequest) h st
         else if k = KStream then
           (case waiting_on_stream h pid of
              Some (StreamReceiver c) \<Rightarrow>
                (case tk_stream_send T c pkt st of
                   (True, st) \<Rightarrow> (Inr SendNone, h, st)
                 | (False, st) \<Rightarrow> (Inr (SendPacket (stream_close_packet H P pid)), h, st))
            | Some (StreamRequest _) \<Rightarrow> (Inl (UnknownId pid), h, st)
            | None \<Rightarrow> (Inr (SendPacket (stream_close_packet H P pid)), h, st))
         else if k = KStreamClosed then
           (let st = (case waiting_on_stream h pid of
                        Some s \<Rightarrow> tk_drop_sender T (stream_chan s) st | None \<Rightarrow> st);
                h = stream_remove pid h
            in (Inr SendNone, h, user_close_id T pid h st))
         else if k = KClose then (Inr SendClose, h, st)
         else if k = KPing then (Inr SendNone, h, st)
         else (Inl (WrongPacketKind (kind_to_str k)), h, st))"

subsection \<open>A packet whose body is malformed\<close>

definition packet_error ::
    "'h packet_header \<Rightarrow> ('p, 'h, 'b) packet \<Rightarrow> ('st, 'p) tokio \<Rightarrow> 'h \<Rightarrow> packet_error \<Rightarrow> handler \<Rightarrow> 'st
      \<Rightarrow> (task_error + 'p send_back) \<times> handler \<times> 'st" where
  "packet_error H P T header e h st =
     (let pid = ph_id H header;
          k = flags_kind (ph_flags H header)
      in if k = KRequest then (Inr (SendPacket (malformed_request H P pid)), h, st)
         else if k = KRequestSender \<or> k = KRequestReceiver
         then (Inr (SendPacket (stream_close_packet H P pid)), h, st)
         else if k = KResponse then answer T pid (Inl (ResponsePacket e)) h st
         else if k \<in> {KNoResponse, KMalformedRequest, KClose, KPing, KStreamClosed}
         then (Inl (TaskPacket e), h, st)
         else if k = KStream then (Inr SendNone, h, st)
         else (Inl (WrongPacketKind (kind_to_str k)), h, st))"

subsection \<open>A packet for the other side\<close>

text \<open>
  A branch of the \<open>select!\<close> of \<open>to_send\<close>: its pattern did not match, so it is disabled; it is
  pending; or its body gave the result of \<open>to_send\<close>.
\<close>

datatype 'a branch = Disabled | Waiting | Taken 'a

fun poll_users ::
    "'h packet_header \<Rightarrow> ('p, 'h, 'b) packet \<Rightarrow> ('st, 'p) tokio \<Rightarrow> u32 list \<Rightarrow> handler \<Rightarrow> 'st
      \<Rightarrow> ('p \<times> u32 option) option \<times> 'st" where
  "poll_users H P T [] h st = (None, st)"
| "poll_users H P T (pid # ids) h st =
     (case waiting_on_user h pid of
        None \<Rightarrow> poll_users H P T ids h st
      | Some (UserRequest c) \<Rightarrow>
          (case tk_oneshot_poll T c st of
             (PollPending, st) \<Rightarrow> poll_users H P T ids h st
           | (PollSome pkt, st) \<Rightarrow> (Some (stamped H P KResponse pid pkt, Some pid), st)
           | (PollClosed, st) \<Rightarrow> (Some (stamped H P KNoResponse pid (pk_empty P), Some pid), st))
      | Some (UserReceiver c) \<Rightarrow>
          (case tk_stream_poll T c st of
             (PollPending, st) \<Rightarrow> poll_users H P T ids h st
           | (PollSome pkt, st) \<Rightarrow> (Some (stamped H P KStream pid pkt, None), st)
           | (PollClosed, st) \<Rightarrow> (Some (stamped H P KStreamClosed pid (pk_empty P), Some pid), st)))"

text \<open>\<open>WaitingOnUser::to_send\<close>, as a branch.\<close>

definition user_branch ::
    "'h packet_header \<Rightarrow> ('p, 'h, 'b) packet \<Rightarrow> ('st, 'p) tokio \<Rightarrow> u32 list \<Rightarrow> handler \<Rightarrow> 'st
      \<Rightarrow> 'p branch \<times> handler \<times> 'st" where
  "user_branch H P T order h st =
     (if waiting_on_user h = Map.empty then (Disabled, h, st)
      else case poll_users H P T order h st of
        (None, st) \<Rightarrow> (Waiting, h, st)
      | (Some (pkt, None), st) \<Rightarrow> (Taken pkt, h, st)
      | (Some (pkt, Some rem), st) \<Rightarrow> (Taken pkt, h\<lparr>waiting_on_user := (waiting_on_user h)(rem := None)\<rparr>, st))"

text \<open>A request that is dropped drops its end of the channel.\<close>

definition drop_request :: "('st, 'p) tokio \<Rightarrow> 'p internal_request \<Rightarrow> 'st \<Rightarrow> 'st" where
  "drop_request T req st =
     (case req of
        IEnableServerRequests \<Rightarrow> st
      | IRequest _ c \<Rightarrow> tk_drop_sender T c st
      | IRequestSender _ c \<Rightarrow> tk_stream_close T c st
      | IRequestReceiver _ c \<Rightarrow> tk_drop_sender T c st)"

text \<open>The body of the second branch: \<open>None\<close> if there is no id left.\<close>

definition start_request ::
    "'h packet_header \<Rightarrow> ('p, 'h, 'b) packet \<Rightarrow> ('st, 'p) tokio \<Rightarrow> 'p internal_request \<Rightarrow> handler \<Rightarrow> 'st
      \<Rightarrow> ('p option \<times> handler \<times> 'st) outcome" where
  "start_request H P T req h st =
     (case state_next_id (h_state h) of
        Panic msg \<Rightarrow> Panic msg
      | Returned (None, s) \<Rightarrow> Returned (None, h\<lparr>h_state := s\<rparr>, drop_request T req st)
      | Returned (Some pid, s) \<Rightarrow>
          let h = h\<lparr>h_state := s\<rparr>
          in case req of
               IEnableServerRequests \<Rightarrow>
                 Returned (Some (stamped H P KEnableServerRequests pid (pk_empty P)),
                   h\<lparr>h_state := snd (enable_server_requests (h_state h))\<rparr>, st)
             | IRequest pkt c \<Rightarrow>
                 if waiting_on_stream h pid \<noteq> None then Panic ''generated a duplicate id''
                 else Returned (Some (stamped H P KRequest pid pkt),
                   h\<lparr>waiting_on_stream := (waiting_on_stream h)(pid \<mapsto> StreamRequest c)\<rparr>, st)
             | IRequestSender pkt c \<Rightarrow>
                 (case user_insert pid (UserReceiver c) h of
                    Inl _ \<Rightarrow> Panic ''generated a duplicate id''
                  | Inr h \<Rightarrow> Returned (Some (stamped H P KRequestSender pid pkt), h, st))
             | IRequestReceiver pkt c \<Rightarrow>
                 if waiting_on_stream h pid \<noteq> None then Panic ''generated a duplicate id''
                 else Returned (Some (stamped H P KRequestReceiver pid pkt),
                   h\<lparr>waiting_on_stream := (waiting_on_stream h)(pid \<mapsto> StreamReceiver c)\<rparr>, st))"

definition request_branch ::
    "'h packet_header \<Rightarrow> ('p, 'h, 'b) packet \<Rightarrow> ('st, 'p) tokio \<Rightarrow> bool \<Rightarrow> handler \<Rightarrow> 'st
      \<Rightarrow> ('p option branch \<times> handler \<times> 'st) outcome" where
  "request_branch H P T can_send_req h st =
     (if \<not> can_send_req then Returned (Disabled, h, st)
      else case tk_requests_poll T st of
        (PollPending, st) \<Rightarrow> Returned (Waiting, h, st)
      | (PollClosed, st) \<Rightarrow> Returned (Disabled, h, st)
      | (PollSome req, st) \<Rightarrow>
          (case start_request H P T req h st of
             Panic msg \<Rightarrow> Panic msg
           | Returned (res, h, st) \<Rightarrow> Returned (Taken res, h, st)))"

text \<open>
  One poll of \<open>to_send\<close>. \<open>select!\<close> polls its branches in a random order, \<open>user_first\<close>; \<open>else\<close>
  is taken when both are disabled.
\<close>

datatype 'p to_send_result = SendWaiting | SendNothing | SendThis 'p

fun sent_packet :: "'p option \<Rightarrow> 'p to_send_result" where
  "sent_packet (Some p) = SendThis p"
| "sent_packet None = SendNothing"

definition handler_to_send ::
    "'h packet_header \<Rightarrow> ('p, 'h, 'b) packet \<Rightarrow> ('st, 'p) tokio \<Rightarrow> bool \<Rightarrow> u32 list \<Rightarrow> handler \<Rightarrow> 'st
      \<Rightarrow> ('p to_send_result \<times> handler \<times> 'st) outcome" where
  "handler_to_send H P T user_first order h st =
     (let can_send_req = can_send_requests (h_state h)
      in if user_first then
           (case user_branch H P T order h st of
              (Taken pkt, h, st) \<Rightarrow> Returned (SendThis pkt, h, st)
            | (u, h, st) \<Rightarrow>
                (case request_branch H P T can_send_req h st of
                   Panic msg \<Rightarrow> Panic msg
                 | Returned (Taken res, h, st) \<Rightarrow> Returned (sent_packet res, h, st)
                 | Returned (r, h, st) \<Rightarrow>
                     Returned (if u = Disabled \<and> r = Disabled then SendNothing else SendWaiting, h, st)))
         else
           (case request_branch H P T can_send_req h st of
              Panic msg \<Rightarrow> Panic msg
            | Returned (Taken res, h, st) \<Rightarrow> Returned (sent_packet res, h, st)
            | Returned (r, h, st) \<Rightarrow>
                (case user_branch H P T order h st of
                   (Taken pkt, h, st) \<Rightarrow> Returned (SendThis pkt, h, st)
                 | (u, h, st) \<Rightarrow>
                     Returned (if u = Disabled \<and> r = Disabled then SendNothing else SendWaiting, h, st))))"

subsection \<open>The end of a connection\<close>

text \<open>\<open>orders\<close> are the orders in which the two maps are walked through.\<close>

definition handler_close ::
    "'h packet_header \<Rightarrow> ('p, 'h, 'b) packet \<Rightarrow> ('st, 'p) tokio \<Rightarrow> u32 list \<times> u32 list \<Rightarrow> handler \<Rightarrow> 'st
      \<Rightarrow> 'p \<times> handler \<times> 'st" where
  "handler_close H P T orders h st =
     (let (h, st) = stream_clear T (fst orders) h st;
          st = user_close_all T (snd orders) h st;
          st = tk_requests_close T st
      in (with_flags H P KClose (pk_empty P), h, st))"

definition close_all_started ::
    "('st, 'p) tokio \<Rightarrow> u32 list \<times> u32 list \<Rightarrow> handler \<Rightarrow> 'st \<Rightarrow> handler \<times> 'st" where
  "close_all_started T orders h st =
     (let (h, st) = stream_clear T (fst orders) h st;
          st = user_close_all T (snd orders) h st
      in (h\<lparr>h_state := state_reset (h_state h)\<rparr>, st))"

end
