(* ===== verification/Message.thy ===== *)
theory Message
  imports Packet_Bytes
begin

unbundle bit_operations_syntax

text \<open>
  \<open>lafere-api/src/message.rs\<close>: the header of an API message and the message itself, which
  implement \<open>PacketHeader\<close> and \<open>Packet\<close>. How the \<open>bytes\<close> crate writes integers is an
  argument, with what the code relies on in the locale \<open>int_codec\<close>.
\<close>

section \<open>Integers in a header\<close>

record int_bytes =
  ib_put_u16 :: "u16 \<Rightarrow> byte list"
  ib_get_u16 :: "byte list \<Rightarrow> u16"
  ib_put_u32 :: "u32 \<Rightarrow> byte list"
  ib_get_u32 :: "byte list \<Rightarrow> u32"

locale int_codec =
  fixes N :: int_bytes
  assumes put_u16_len [simp]: "length (ib_put_u16 N a) = 2"
    and put_u32_len [simp]: "length (ib_put_u32 N b) = 4"
    and get_put_u16 [simp]: "ib_get_u16 N (ib_put_u16 N a) = a"
    and get_put_u32 [simp]: "ib_get_u32 N (ib_put_u32 N b) = b"

text \<open>Big-endian integers, as the crate documents for \<open>write_u32\<close> and \<open>read_u32\<close>.\<close>

definition be_ints :: int_bytes where
  "be_ints = \<lparr>
     ib_put_u16 = (\<lambda>v. rev (le_bytes 2 v)),
     ib_get_u16 = (\<lambda>bs. le_word (rev bs)),
     ib_put_u32 = (\<lambda>v. rev (le_bytes 4 v)),
     ib_get_u32 = (\<lambda>bs. le_word (rev bs))\<rparr>"

lemma le_word_le_bytes_2: "le_word (le_bytes 2 (v :: u16)) = v"
  by (rule bit_eqI) (simp add: le_word_le_bytes_take bit_simps)

interpretation be: int_codec be_ints
  by unfold_locales (simp_all add: be_ints_def le_word_le_bytes_2)

section \<open>The code\<close>

text \<open>\<open>MessageFlags\<close> is its \<open>inner\<close> byte.\<close>

datatype message_flags = MessageFlags (msg_inner: byte)

definition SUCCESS_BIT :: byte where "SUCCESS_BIT = 1"

definition set_success :: "bool \<Rightarrow> message_flags \<Rightarrow> message_flags" where
  "set_success success f =
     (if success then MessageFlags (msg_inner f OR SUCCESS_BIT)
      else MessageFlags (msg_inner f AND NOT SUCCESS_BIT))"

definition message_flags_new :: "bool \<Rightarrow> message_flags" where
  "message_flags_new success = set_success success (MessageFlags 0)"

definition is_success :: "message_flags \<Rightarrow> bool" where
  "is_success f \<longleftrightarrow> msg_inner f AND SUCCESS_BIT \<noteq> 0"

datatype 'a maybe_action = Action 'a | Unknown u16 | NoAction

record 'a header =
  hd_body_len :: u32
  hd_flags :: flags
  hd_msg_flags :: message_flags
  hd_id :: u32
  hd_action :: "'a maybe_action"

text \<open>The trait \<open>Action\<close>; \<open>max_body_size\<close> sees the header.\<close>

record 'a action =
  ac_from_u16 :: "u16 \<Rightarrow> 'a option"
  ac_as_u16 :: "'a \<Rightarrow> u16"
  ac_max_body_size :: "'a header \<Rightarrow> u32 option"

fun action_as_u16 :: "'a action \<Rightarrow> 'a maybe_action \<Rightarrow> u16" where
  "action_as_u16 A (Action a) = ac_as_u16 A a"
| "action_as_u16 A (Unknown u) = u"
| "action_as_u16 A NoAction = 0"

definition maybe_action_from :: "'a action \<Rightarrow> u16 \<Rightarrow> 'a maybe_action" where
  "maybe_action_from A action_num =
     (if action_num = 0 then NoAction
      else case ac_from_u16 A action_num of
        Some action \<Rightarrow> Action action
      | None \<Rightarrow> Unknown action_num)"

definition header_empty :: "'a header" where
  "header_empty = \<lparr>hd_body_len = 0, hd_flags = flags_empty, hd_msg_flags = message_flags_new True,
     hd_id = 0, hd_action = NoAction\<rparr>"

definition header_to_bytes :: "int_bytes \<Rightarrow> 'a action \<Rightarrow> 'a header \<Rightarrow> byte list" where
  "header_to_bytes N A h =
     ib_put_u32 N (hd_body_len h) @ [flags_as_u8 (hd_flags h)] @ [msg_inner (hd_msg_flags h)]
       @ ib_put_u32 N (hd_id h) @ ib_put_u16 N (action_as_u16 A (hd_action h))"

definition set_action :: "'a \<Rightarrow> 'a header \<Rightarrow> 'a header" where
  "set_action a h = h\<lparr>hd_action := Action a\<rparr>"

definition HEADER_LEN :: nat where
  "HEADER_LEN = 4 + 1 + 1 + 4 + 2"

text \<open>\<open>bytes\<close> has \<open>HEADER_LEN\<close> bytes, and they are read from the front.\<close>

definition header_from_bytes :: "int_bytes \<Rightarrow> 'a action \<Rightarrow> byte list \<Rightarrow> packet_error + 'a header" where
  "header_from_bytes N A bs =
     (let body_len = ib_get_u32 N (take 4 bs) in
      rbind (flags_from_u8 (bs ! 4)) (\<lambda>flags.
        let msg_flags = MessageFlags (bs ! 5);
            id = ib_get_u32 N (take 4 (drop 6 bs));
            action = maybe_action_from A (ib_get_u16 N (take 2 (drop 10 bs)));
            me = \<lparr>hd_body_len = body_len, hd_flags = flags, hd_msg_flags = msg_flags, hd_id = id,
                  hd_action = action\<rparr>
        in case ac_max_body_size A me of
             Some limit \<Rightarrow> if hd_body_len me > limit then Inl (BodyLimitReached limit) else Inr me
           | None \<Rightarrow> Inr me))"

definition api_header :: "int_bytes \<Rightarrow> 'a action \<Rightarrow> 'a header packet_header" where
  "api_header N A = \<lparr>
     ph_len = HEADER_LEN,
     ph_from_bytes = header_from_bytes N A,
     ph_body_len = hd_body_len,
     ph_flags = hd_flags,
     ph_set_flags = (\<lambda>f h. h\<lparr>hd_flags := f\<rparr>),
     ph_id = hd_id,
     ph_set_id = (\<lambda>id h. h\<lparr>hd_id := id\<rparr>)\<rparr>"

record ('a, 'b) message =
  ms_header :: "'a header"
  ms_bytes :: 'b

definition message_empty :: "'b packet_bytes \<Rightarrow> ('a, 'b) message" where
  "message_empty B = \<lparr>ms_header = header_empty, ms_bytes = pb_new B HEADER_LEN\<rparr>"

definition message_set_success :: "bool \<Rightarrow> ('a, 'b) message \<Rightarrow> ('a, 'b) message" where
  "message_set_success success msg =
     msg\<lparr>ms_header := (ms_header msg)\<lparr>hd_msg_flags := set_success success (hd_msg_flags (ms_header msg))\<rparr>\<rparr>"

definition message_is_success :: "('a, 'b) message \<Rightarrow> bool" where
  "message_is_success msg \<longleftrightarrow> is_success (hd_msg_flags (ms_header msg))"

definition message_action :: "('a, 'b) message \<Rightarrow> 'a option" where
  "message_action msg = (case hd_action (ms_header msg) of Action a \<Rightarrow> Some a | _ \<Rightarrow> None)"

definition message_from_bytes_and_header :: "'b \<Rightarrow> 'a header \<Rightarrow> packet_error + ('a, 'b) message" where
  "message_from_bytes_and_header bs h = Inr \<lparr>ms_header = h, ms_bytes = bs\<rparr>"

text \<open>\<open>body_len as u32\<close> keeps the low 32 bits.\<close>

definition message_into_bytes ::
    "int_bytes \<Rightarrow> 'a action \<Rightarrow> 'b packet_bytes \<Rightarrow> ('a, 'b) message \<Rightarrow> 'b" where
  "message_into_bytes N A B msg =
     (let body_len = length (pb_body B (ms_bytes msg));
          h = (ms_header msg)\<lparr>hd_body_len := of_nat body_len\<rparr>
      in pb_set_header B (header_to_bytes N A h) (ms_bytes msg))"

definition api_packet ::
    "int_bytes \<Rightarrow> 'a action \<Rightarrow> 'b packet_bytes \<Rightarrow> (('a, 'b) message, 'a header, 'b) packet" where
  "api_packet N A B = \<lparr>
     pk_header = ms_header,
     pk_update_header = (\<lambda>f msg. msg\<lparr>ms_header := f (ms_header msg)\<rparr>),
     pk_empty = message_empty B,
     pk_from_bytes_and_header = message_from_bytes_and_header,
     pk_into_bytes = message_into_bytes N A B\<rparr>"

interpretation api: packet_laws "api_header N A" "api_packet N A B" for N A B
  by unfold_locales (simp_all add: api_header_def api_packet_def)

section \<open>Header round trips\<close>

lemma and_one_zero: "w AND 1 = 0 \<longleftrightarrow> \<not> bit (w :: byte) 0"
  by (simp add: and_one_eq mod_2_eq_odd bit_0)

lemma is_success_set [simp]: "is_success (set_success b f) = b"
  unfolding is_success_def set_success_def SUCCESS_BIT_def and_one_zero by (simp add: bit_simps)

text \<open>What the trait asks of an action: 0 is not used, and the number names the action.\<close>

definition action_law :: "'a action \<Rightarrow> bool" where
  "action_law A \<longleftrightarrow> (\<forall>a. ac_as_u16 A a \<noteq> 0 \<and> ac_from_u16 A (ac_as_u16 A a) = Some a)"

text \<open>\<open>zero will never be here\<close>, and a known number is not unknown.\<close>

fun maybe_action_ok :: "'a action \<Rightarrow> 'a maybe_action \<Rightarrow> bool" where
  "maybe_action_ok A (Unknown u) \<longleftrightarrow> u \<noteq> 0 \<and> ac_from_u16 A u = None"
| "maybe_action_ok A _ \<longleftrightarrow> True"

definition header_fits :: "'a action \<Rightarrow> 'a header \<Rightarrow> bool" where
  "header_fits A h \<longleftrightarrow> (case ac_max_body_size A h of Some limit \<Rightarrow> hd_body_len h \<le> limit | None \<Rightarrow> True)"

context int_codec
begin

lemma header_to_bytes_len [simp]: "length (header_to_bytes N A h) = HEADER_LEN"
  by (simp add: header_to_bytes_def HEADER_LEN_def)

lemma nth_4_append: "length xs = 4 \<Longrightarrow> (xs @ y # z # ys) ! 4 = y" "length xs = 4 \<Longrightarrow> (xs @ y # z # ys) ! 5 = z"
  by (simp_all add: nth_append)

lemma header_back:
  assumes "action_law A" and "maybe_action_ok A (hd_action h)"
  shows "header_from_bytes N A (header_to_bytes N A h)
    = (if header_fits A h then Inr h else Inl (BodyLimitReached (the (ac_max_body_size A h))))"
proof -
  have "maybe_action_from A (action_as_u16 A (hd_action h)) = hd_action h"
    using assms by (cases "hd_action h") (auto simp: action_law_def maybe_action_from_def)
  then show ?thesis
    by (cases h) (auto simp: header_from_bytes_def header_to_bytes_def nth_4_append flags_from_u8_def
        flags_as_u8_def header_fits_def Let_def not_less split: option.split dest: leD)
qed

text \<open>Any header read from bytes satisfies the invariant of \<open>MaybeAction\<close>.\<close>

lemma header_from_bytes_ok:
  "header_from_bytes N A bs = Inr h \<Longrightarrow> maybe_action_ok A (hd_action h) \<and> header_fits A h"
  by (auto simp: header_from_bytes_def Let_def flags_from_u8_def header_fits_def maybe_action_from_def
      split: option.splits if_splits)

end

end
