(* ===== verification/Handler_Ids.thy ===== *)
theory Handler_Ids
  imports Handler Message
begin

text \<open>
  Ids of a connection: how the counters of the two sides divide the numbers, and that a
  handler whose peer keeps to its half never generates an id that is in use.
\<close>

section \<open>Counters\<close>

fun state_counter :: "handler_state \<Rightarrow> u32 option" where
  "state_counter UniServer = None"
| "state_counter (UniClient c) = c"
| "state_counter (BiServer c) = c"
| "state_counter (BiClient c) = c"

text \<open>All ids below this bound have been given out or belong to the other side.\<close>

definition id_bound :: "handler_state \<Rightarrow> nat" where
  "id_bound s = (case state_counter s of Some c \<Rightarrow> unat c | None \<Rightarrow> 2 ^ 32)"

text \<open>Ids that the other side may use in a state.\<close>

fun foreign :: "handler_state \<Rightarrow> u32 \<Rightarrow> bool" where
  "foreign UniServer i \<longleftrightarrow> True"
| "foreign (UniClient _) i \<longleftrightarrow> False"
| "foreign (BiServer _) i \<longleftrightarrow> i \<le> U32_MID"
| "foreign (BiClient _) i \<longleftrightarrow> U32_MID < i"

fun counter_ok :: "handler_state \<Rightarrow> bool" where
  "counter_ok (BiServer (Some c)) \<longleftrightarrow> U32_MID < c"
| "counter_ok (BiClient (Some c)) \<longleftrightarrow> c \<le> U32_MID"
| "counter_ok _ \<longleftrightarrow> True"

lemma U32_MID_eq: "U32_MID = 0x7FFFFFFF"
  by (simp add: U32_MID_def)

lemma unat_u32_less: "unat (i :: u32) < 2 ^ 32"
  using unsigned_less [of i] by simp

lemma unat_u32_bound [simp]: "unat (i :: u32) < 4294967296"
  using unat_u32_less [of i] by simp

lemma checked_add_1_Some: "checked_add_1 c = Some d \<Longrightarrow> unat d = Suc (unat c) \<and> c < d"
proof -
  assume "checked_add_1 c = Some d"
  then have "c \<noteq> - 1" and d: "d = 1 + c"
    by (auto simp: checked_add_1_def split: if_splits)
  then have "1 + c \<noteq> 0"
    by (simp add: eq_neg_iff_add_eq_0 add.commute)
  then have "unat d = Suc (unat c)"
    by (simp add: d unatSuc)
  then show ?thesis by (simp add: word_less_nat_alt)
qed

text \<open>A new id is the bound, belongs to this side, and moves the bound past it.\<close>

lemma next_id_facts:
  assumes nid: "state_next_id s = Returned (Some i, s')" and ok: "counter_ok s"
  shows "unat i = id_bound s \<and> id_bound s < id_bound s' \<and> \<not> foreign s i \<and> counter_ok s'
    \<and> foreign s' = foreign s \<and> can_send_requests s' \<and> can_receive_requests s' = can_receive_requests s"
proof (cases s)
  case (UniClient counter)
  with nid have "counter = Some i" "s' = UniClient (checked_add_1 i)" by auto
  with UniClient show ?thesis
    using checked_add_1_Some [of i] unat_u32_less [of i]
    by (cases "checked_add_1 i") (auto simp: id_bound_def fun_eq_iff)
next
  case (BiServer counter)
  with nid have c: "counter = Some i" "s' = BiServer (checked_add_1 i)" by auto
  with BiServer ok have "U32_MID < i" by simp
  with BiServer c show ?thesis
    using checked_add_1_Some [of i] unat_u32_less [of i]
    by (cases "checked_add_1 i") (auto simp: id_bound_def fun_eq_iff not_le dest: less_trans)
next
  case (BiClient counter)
  with nid have c: "counter = Some i" "s' = BiClient (if i < U32_MID then Some (i + 1) else None)"
    by auto
  with BiClient ok have i: "i \<le> U32_MID" by simp
  have "unat (i + 1) = Suc (unat i)" if "i < U32_MID"
  proof -
    have "1 + i \<noteq> 0"
      using that by (auto simp: U32_MID_eq add_eq_0_iff)
    then show ?thesis by (simp add: unatSuc add.commute)
  qed
  then show ?thesis
    using BiClient c i unat_u32_less [of i]
    by (auto simp: id_bound_def fun_eq_iff not_less word_less_nat_alt word_le_nat_alt)
qed (use nid in simp)

lemma next_id_None:
  "state_next_id s = Returned (None, s') \<Longrightarrow> s' = s \<and> id_bound s = 2 ^ 32"
  by (cases s) (auto simp: id_bound_def)

lemma next_id_Panic: "state_next_id s = Panic msg \<longleftrightarrow> s = UniServer \<and> msg = ''cannot create id on uni Server''"
  by (cases s) auto

section \<open>The ids of a connection\<close>

text \<open>The next \<open>n\<close> ids that a state gives out.\<close>

fun take_ids :: "nat \<Rightarrow> handler_state \<Rightarrow> u32 list" where
  "take_ids 0 s = []"
| "take_ids (Suc n) s =
     (case state_next_id s of
        Returned (Some i, s') \<Rightarrow> i # take_ids n s'
      | _ \<Rightarrow> [])"

lemma take_ids_bound:
  assumes "counter_ok s"
  shows "distinct (take_ids n s) \<and> (\<forall>i \<in> set (take_ids n s). id_bound s \<le> unat i \<and> \<not> foreign s i)"
  using assms
proof (induction n arbitrary: s)
  case (Suc n)
  show ?case
  proof (cases "\<exists>i s'. state_next_id s = Returned (Some i, s')")
    case True
    then obtain i s' where i: "state_next_id s = Returned (Some i, s')" by auto
    note facts = next_id_facts [OF i Suc.prems]
    with Suc.IH [of s'] i show ?thesis by fastforce
  qed (auto split: outcome.split option.split)
qed simp

section \<open>No id is generated twice\<close>

definition in_use :: "handler \<Rightarrow> u32 \<Rightarrow> bool" where
  "in_use h i \<longleftrightarrow> waiting_on_stream h i \<noteq> None \<or> waiting_on_user h i \<noteq> None"

text \<open>Every id in use belongs to the other side or was given out before.\<close>

definition ids_ok :: "handler \<Rightarrow> bool" where
  "ids_ok h \<longleftrightarrow> counter_ok (h_state h)
     \<and> (\<forall>i. in_use h i \<longrightarrow> foreign (h_state h) i \<or> unat i < id_bound (h_state h))"

text \<open>
  A peer keeps to its half of the numbers, and enables server requests only while the ids of
  its requests are in the client's half.
\<close>

definition peer_keeps_half :: "'h packet_header \<Rightarrow> ('p, 'h, 'b) packet \<Rightarrow> handler \<Rightarrow> 'p \<Rightarrow> bool" where
  "peer_keeps_half H P h pkt \<longleftrightarrow>
     (let pid = ph_id H (pk_header P pkt);
          k = flags_kind (ph_flags H (pk_header P pkt))
      in (k \<in> {KRequest, KRequestReceiver, KRequestSender} \<longrightarrow> can_receive_requests (h_state h)
            \<longrightarrow> foreign (h_state h) pid)
       \<and> (k = KEnableServerRequests \<longrightarrow> h_state h = UniServer \<longrightarrow> (\<forall>i. in_use h i \<longrightarrow> i \<le> U32_MID)))"

text \<open>What can happen to a handler on one connection; \<open>user\<close> is anything the users of its channels do.\<close>

inductive handler_step ::
    "'h packet_header \<Rightarrow> ('p, 'h, 'b) packet \<Rightarrow> ('st, 'p) tokio \<Rightarrow> handler \<times> 'st \<Rightarrow> handler \<times> 'st \<Rightarrow> bool"
  for H P T where
  receive: "peer_keeps_half H P h pkt \<Longrightarrow> handler_send H P T pkt h st = (res, h', st') \<Longrightarrow>
      handler_step H P T (h, st) (h', st')"
| malformed: "packet_error H P T header e h st = (res, h', st') \<Longrightarrow> handler_step H P T (h, st) (h', st')"
| transmit: "handler_to_send H P T user_first order h st = Returned (res, h', st') \<Longrightarrow>
      handler_step H P T (h, st) (h', st')"
| shut: "handler_close H P T orders h st = (pkt, h', st') \<Longrightarrow> handler_step H P T (h, st) (h', st')"
| user: "handler_step H P T (h, st) (h, st')"

inductive_cases handler_stepE: "handler_step H P T (h, st) s'"

lemma ids_ok_new: "ids_ok (handler_new b)"
  by (simp add: ids_ok_def handler_new_def in_use_def)

lemma ids_ok_mono:
  assumes "ids_ok h" and "h_state h' = h_state h" and "\<And>i. in_use h' i \<Longrightarrow> in_use h i \<or> foreign (h_state h) i"
  shows "ids_ok h'"
  using assms by (auto simp: ids_ok_def)

lemma in_use_simps [handler_simps]:
  "in_use (h\<lparr>h_state := s\<rparr>) i = in_use h i"
  "in_use (stream_remove j h) i \<longleftrightarrow> (i \<noteq> j \<and> waiting_on_stream h i \<noteq> None) \<or> waiting_on_user h i \<noteq> None"
  "in_use (h\<lparr>waiting_on_stream := (waiting_on_stream h)(j \<mapsto> x)\<rparr>) i \<longleftrightarrow> i = j \<or> in_use h i"
  "in_use (h\<lparr>waiting_on_user := (waiting_on_user h)(j \<mapsto> y)\<rparr>) i \<longleftrightarrow> i = j \<or> in_use h i"
  by (auto simp: in_use_def stream_remove_def)

lemma ids_ok_enable:
  assumes "ids_ok h" and "h_state h = UniServer \<Longrightarrow> \<forall>i. in_use h i \<longrightarrow> i \<le> U32_MID"
  shows "ids_ok (h\<lparr>h_state := snd (enable_server_requests (h_state h))\<rparr>)"
proof -
  have "unat (U32_MID + 1 :: u32) = 2147483648"
    by (simp add: U32_MID_eq)
  with assms show ?thesis
    by (cases "h_state h" rule: enable_server_requests.cases)
      (auto simp: ids_ok_def handler_simps id_bound_def U32_MID_eq not_le word_less_nat_alt word_le_nat_alt
          dest!: spec)
qed

lemma to_user_handler [handler_simps]: "fst (snd (to_user T req h st)) = h"
  by (simp add: to_user_def split: prod.split bool.split)

lemma ids_ok_answer:
  assumes "ids_ok h"
  shows "ids_ok (fst (snd (answer T pid res h st)))"
proof (rule ids_ok_mono [OF assms])
  show "h_state (fst (snd (answer T pid res h st))) = h_state h"
    by (simp add: answer_def stream_remove_def split: option.split stream_response.split)
  show "in_use (fst (snd (answer T pid res h st))) i \<Longrightarrow> in_use h i \<or> foreign (h_state h) i" for i
    by (auto simp: answer_def stream_remove_def in_use_def split: option.splits stream_response.splits if_splits)
qed

lemma ids_ok_send:
  assumes ok: "ids_ok h" and peer: "peer_keeps_half H P h pkt"
  shows "ids_ok (fst (snd (handler_send H P T pkt h st)))"
proof -
  let ?k = "flags_kind (ph_flags H (pk_header P pkt))" and ?i = "ph_id H (pk_header P pkt)"
  have put_user: "ids_ok (h\<lparr>waiting_on_user := (waiting_on_user h)(?i \<mapsto> r)\<rparr>)"
    and put_stream: "ids_ok (h\<lparr>waiting_on_stream := (waiting_on_stream h)(?i \<mapsto> s)\<rparr>)"
    if "foreign (h_state h) ?i" for r s
    using that by (auto intro!: ids_ok_mono [OF ok] simp: handler_simps)
  have removed: "ids_ok (stream_remove ?i h)"
    by (rule ids_ok_mono [OF ok]) (auto simp: handler_simps stream_remove_def in_use_def split: if_splits)
  show ?thesis
  proof (cases "?k = KEnableServerRequests")
    case True
    then have "ids_ok (h\<lparr>h_state := snd (enable_server_requests (h_state h))\<rparr>)"
      using peer by (intro ids_ok_enable [OF ok]) (auto simp: peer_keeps_half_def Let_def)
    with True show ?thesis
      by (auto simp: handler_send_def Let_def handler_simps split: prod.split)
  next
    case False
    with peer have "?k \<in> {KRequest, KRequestReceiver, KRequestSender} \<Longrightarrow> can_receive_requests (h_state h)
        \<Longrightarrow> foreign (h_state h) ?i"
      by (auto simp: peer_keeps_half_def Let_def)
    with False ok put_user put_stream removed ids_ok_answer [OF ok] show ?thesis
      by (auto simp: handler_send_def Let_def user_insert_def handler_simps
          split: prod.split option.split stream_response.split sum.split bool.split)
  qed
qed

lemma ids_ok_packet_error:
  assumes "ids_ok h"
  shows "ids_ok (fst (snd (packet_error H P T header e h st)))"
  using assms ids_ok_answer [OF assms] by (auto simp: packet_error_def Let_def)

lemma ids_ok_user_branch:
  assumes "ids_ok h"
  shows "ids_ok (fst (snd (user_branch H P T order h st)))
    \<and> h_state (fst (snd (user_branch H P T order h st))) = h_state h"
proof -
  have "ids_ok (h\<lparr>waiting_on_user := (waiting_on_user h)(i := None)\<rparr>)" for i
    by (rule ids_ok_mono [OF assms]) (auto simp: in_use_def split: if_splits)
  with assms show ?thesis
    by (auto simp: user_branch_def split: prod.split option.split)
qed

text \<open>A handler that may send requests: no panic, and the invariant holds afterwards.\<close>

lemma start_request_ok:
  assumes ok: "ids_ok h" and can: "can_send_requests (h_state h)"
  shows "\<exists>res h' st'. start_request H P T req h st = Returned (res, h', st') \<and> ids_ok h'"
proof (cases "state_next_id (h_state h)")
  case (Panic msg)
  with can show ?thesis by (simp add: next_id_Panic)
next
  case (Returned a)
  obtain i s where a: "a = (i, s)" by (cases a)
  show ?thesis
  proof (cases i)
    case None
    with Returned a have "s = h_state h"
      by (simp add: next_id_None)
    with Returned a None ok show ?thesis by (simp add: start_request_def)
  next
    case (Some pid)
    have cnt: "counter_ok (h_state h)" using ok by (simp add: ids_ok_def)
    note f = next_id_facts [OF Returned [unfolded a Some] cnt]
    have fresh: "\<not> in_use h pid" using ok f by (auto simp: ids_ok_def)
    have s: "ids_ok (h\<lparr>h_state := s\<rparr>)"
      using ok f by (fastforce simp: ids_ok_def handler_simps)
    have put: "ids_ok h'"
      if "h_state h' = s" and "\<And>j. in_use h' j \<Longrightarrow> j = pid \<or> in_use h j" for h'
      using ok f that by (fastforce simp: ids_ok_def)
    have en: "ids_ok (h\<lparr>h_state := snd (enable_server_requests s)\<rparr>)"
      using ids_ok_enable [OF s] f by (cases s) auto
    from fresh have none: "waiting_on_stream h pid = None" "waiting_on_user h pid = None"
      by (auto simp: in_use_def)
    note start = start_request_def Returned a Some none user_insert_def Let_def
    show ?thesis
    proof (cases req)
      case IEnableServerRequests
      with en show ?thesis by (simp add: start)
    qed (auto simp: start in_use_def intro!: put split: if_splits)
  qed
qed

lemma request_branch_ok:
  assumes ok: "ids_ok h" and can: "c \<Longrightarrow> can_send_requests (h_state h)"
  shows "\<exists>res h' st'. request_branch H P T c h st = Returned (res, h', st') \<and> ids_ok h'"
proof (cases c)
  case True
  obtain p st1 where p: "tk_requests_poll T st = (p, st1)" by (cases "tk_requests_poll T st")
  show ?thesis
  proof (cases p)
    case (PollSome req)
    from start_request_ok [OF ok can [OF True], of H P T req st1] obtain res h' st'
      where "start_request H P T req h st1 = Returned (res, h', st')" "ids_ok h'" by blast
    with True p PollSome show ?thesis by (simp add: request_branch_def)
  qed (use True p ok in \<open>simp_all add: request_branch_def\<close>)
qed (use ok in \<open>simp add: request_branch_def\<close>)

lemma to_send_ok:
  assumes ok: "ids_ok h"
  shows "\<exists>res h' st'. handler_to_send H P T user_first order h st = Returned (res, h', st') \<and> ids_ok h'"
proof -
  let ?c = "can_send_requests (h_state h)"
  obtain u h1 st1 where u: "user_branch H P T order h st = (u, h1, st1)" by (metis prod_cases3)
  with ids_ok_user_branch [OF ok, of H P T order st] have h1: "ids_ok h1" "h_state h1 = h_state h" by auto
  obtain r h2 st2 where r: "request_branch H P T ?c h st = Returned (r, h2, st2)" "ids_ok h2"
    using request_branch_ok [OF ok, of ?c H P T st] by blast
  obtain r' h3 st3 where r': "request_branch H P T ?c h1 st1 = Returned (r', h3, st3)" "ids_ok h3"
    using request_branch_ok [OF h1(1), of ?c H P T st1] h1(2) by auto
  obtain u' h4 st4 where u': "user_branch H P T order h2 st2 = (u', h4, st4)" by (metis prod_cases3)
  with ids_ok_user_branch [OF r(2), of H P T order st2] have h4: "ids_ok h4" by auto
  show ?thesis
    using u r(1) r'(1) u' h1 r(2) r'(2) h4
    by (cases u; cases r; cases r'; cases u') (auto simp: handler_to_send_def Let_def)
qed

lemma ids_ok_close:
  assumes "ids_ok h"
  shows "ids_ok (fst (snd (handler_close H P T orders h st)))"
  by (rule ids_ok_mono [OF assms])
    (auto simp: handler_close_def stream_clear_def in_use_def Let_def split: prod.split)

lemma ids_ok_step:
  "handler_step H P T s s' \<Longrightarrow> ids_ok (fst s) \<Longrightarrow> ids_ok (fst s')"
proof (induction rule: handler_step.induct)
  case (receive h pkt st res h' st')
  with ids_ok_send [of h H P pkt T st] show ?case by simp
next
  case (malformed header e h st res h' st')
  with ids_ok_packet_error [of h H P T header e st] show ?case by simp
next
  case (transmit user_first order h st res h' st')
  with to_send_ok [of h H P T user_first order st] show ?case by simp
next
  case (shut orders h st pkt h' st')
  with ids_ok_close [of h H P T orders st] show ?case by simp
qed simp

lemma ids_ok_reachable:
  "(handler_step H P T)\<^sup>*\<^sup>* (handler_new b, st) (h, st') \<Longrightarrow> ids_ok h"
proof -
  have "ids_ok (fst s)" if "(handler_step H P T)\<^sup>*\<^sup>* (handler_new b, st) s" for s
    using that by (induction rule: rtranclp_induct) (auto simp: ids_ok_new dest: ids_ok_step)
  then show "(handler_step H P T)\<^sup>*\<^sup>* (handler_new b, st) (h, st') \<Longrightarrow> ids_ok h" by force
qed

end
