(* ===== verification/Connection.thy ===== *)
theory Connection
  imports Handler_Ids
begin

text \<open>
  \<open>bg_stream\<close> and \<open>bg_stream_reconnect\<close> of \<open>lafere/src/handler/handler.rs\<close>: the loop that runs a
  connection. The packet stream is an argument. Which branch of the \<open>select!\<close> is taken is the
  event of a step; a branch that is not taken may have been polled before and dropped, which
  an event of its own with the result \<open>Cancelled\<close> or \<open>SendWaiting\<close> shows.
\<close>

section \<open>The code: one stream\<close>

text \<open>The trait \<open>PacketStream\<close>; \<open>timeout\<close> in nanoseconds.\<close>

record ('ps, 'p, 'h) packet_stream =
  ps_timeout :: "'ps \<Rightarrow> nat"
  ps_send :: "'p \<Rightarrow> 'ps \<Rightarrow> (io_error + unit) \<times> 'ps"
  ps_receive :: "'ps \<Rightarrow> ('h receiver_error + 'p) polled \<times> 'ps"
  ps_shutdown :: "'ps \<Rightarrow> (io_error + unit) \<times> 'ps"

definition secs :: "nat \<Rightarrow> nat" where
  "secs n = n * 1000000000"

text \<open>The period of the pings; \<open>interval\<close> panics on a period of zero.\<close>

definition ping_period :: "nat \<Rightarrow> nat" where
  "ping_period timeout =
     (let as_secs = timeout div secs 1;
          diff = (if as_secs \<le> 1 then 0 else if as_secs \<le> 10 then 1 else 5)
      in timeout - secs diff)"

record ('ps, 'p, 'st) bg =
  bg_stream :: 'ps
  bg_handler :: handler
  bg_runtime :: 'st
  bg_should_close :: bool
  bg_close_packet :: "'p option"

text \<open>
  The loop goes on, the function has returned, or the task has panicked. The orders are those
  in which the handler's maps are walked through.
\<close>

datatype 'b looped = Looping 'b | Done "task_error + unit" 'b | Crashed string

datatype ('c, 'st) bg_event =
    Received "u32 list \<times> u32 list"
  | ToSend bool "u32 list"
  | PingTick
  | CloseSignal "u32 list \<times> u32 list"
  | NewConfig "'c option"

text \<open>\<open>stream.send(p).await.map_err(TaskError::Io)?\<close>, the last statement of a branch.\<close>

definition bg_send :: "('ps, 'p, 'h) packet_stream \<Rightarrow> 'p \<Rightarrow> ('ps, 'p, 'st) bg \<Rightarrow> ('ps, 'p, 'st) bg looped" where
  "bg_send S pkt b =
     (case ps_send S pkt (bg_stream b) of
        (Inl e, ps) \<Rightarrow> Done (Inl (TaskIo e)) (b\<lparr>bg_stream := ps\<rparr>)
      | (Inr _, ps) \<Rightarrow> Looping (b\<lparr>bg_stream := ps\<rparr>))"

text \<open>\<open>handler.close()\<close>; the packet is kept for the end if it is to be sent.\<close>

definition bg_close ::
    "'h packet_header \<Rightarrow> ('p, 'h, 'b) packet \<Rightarrow> ('st, 'p) tokio \<Rightarrow> u32 list \<times> u32 list \<Rightarrow> bool
      \<Rightarrow> ('ps, 'p, 'st) bg \<Rightarrow> ('ps, 'p, 'st) bg" where
  "bg_close H P T orders with_packet b =
     (let (pkt, h, st) = handler_close H P T orders (bg_handler b) (bg_runtime b)
      in b\<lparr>bg_handler := h, bg_runtime := st, bg_should_close := True,
           bg_close_packet := (if with_packet then Some pkt else bg_close_packet b)\<rparr>)"

text \<open>The handler's reaction to what was received.\<close>

definition bg_react ::
    "('ps, 'p, 'h) packet_stream \<Rightarrow> 'h packet_header \<Rightarrow> ('p, 'h, 'b) packet \<Rightarrow> ('st, 'p) tokio \<Rightarrow> u32 list \<times> u32 list
      \<Rightarrow> (task_error + 'p send_back) \<times> handler \<times> 'st \<Rightarrow> ('ps, 'p, 'st) bg \<Rightarrow> ('ps, 'p, 'st) bg looped" where
  "bg_react S H P T orders reaction b =
     (let (res, h, st) = reaction;
          b = b\<lparr>bg_handler := h, bg_runtime := st\<rparr>
      in case res of
           Inl e \<Rightarrow> Done (Inl e) b
         | Inr SendNone \<Rightarrow> Looping b
         | Inr (SendPacket p) \<Rightarrow> bg_send S p b
         | Inr SendClose \<Rightarrow> Looping (bg_close H P T orders False b)
         | Inr SendCloseWithPacket \<Rightarrow> Looping (bg_close H P T orders True b))"

definition bg_received ::
    "('ps, 'p, 'h) packet_stream \<Rightarrow> 'h packet_header \<Rightarrow> ('p, 'h, 'b) packet \<Rightarrow> ('st, 'p) tokio \<Rightarrow> u32 list \<times> u32 list
      \<Rightarrow> ('ps, 'p, 'st) bg \<Rightarrow> ('ps, 'p, 'st) bg looped" where
  "bg_received S H P T orders b =
     (let (packet, ps) = ps_receive S (bg_stream b);
          b = b\<lparr>bg_stream := ps\<rparr>
      in case packet of
           Cancelled \<Rightarrow> Looping b
         | Panicked \<Rightarrow> Crashed ''receiver''
         | Ready (Inr p) \<Rightarrow> bg_react S H P T orders (handler_send H P T p (bg_handler b) (bg_runtime b)) b
         | Ready (Inl (RIo e)) \<Rightarrow> Done (Inl (TaskIo e)) b
         | Ready (Inl (RHard e)) \<Rightarrow> Done (Inl (TaskPacket e)) b
         | Ready (Inl (RSoft h e)) \<Rightarrow>
             bg_react S H P T orders (packet_error H P T h e (bg_handler b) (bg_runtime b)) b)"

text \<open>
  The branch \<open>else\<close>: errors of the last two operations are only logged.
\<close>

definition bg_finish :: "('ps, 'p, 'h) packet_stream \<Rightarrow> ('ps, 'p, 'st) bg \<Rightarrow> ('ps, 'p, 'st) bg looped" where
  "bg_finish S b =
     (let ps = (case bg_close_packet b of
                  Some packet \<Rightarrow> snd (ps_send S packet (bg_stream b)) | None \<Rightarrow> bg_stream b);
          ps = snd (ps_shutdown S ps)
      in Done (Inr ()) (b\<lparr>bg_stream := ps, bg_close_packet := None\<rparr>))"

text \<open>
  \<open>to_send\<close> giving \<open>None\<close> disables its branch; once the others are disabled too, \<open>else\<close> is
  taken.
\<close>

definition bg_to_send ::
    "('ps, 'p, 'h) packet_stream \<Rightarrow> 'h packet_header \<Rightarrow> ('p, 'h, 'b) packet \<Rightarrow> ('st, 'p) tokio \<Rightarrow> bool \<Rightarrow> u32 list
      \<Rightarrow> ('ps, 'p, 'st) bg \<Rightarrow> ('ps, 'p, 'st) bg looped" where
  "bg_to_send S H P T user_first order b =
     (case handler_to_send H P T user_first order (bg_handler b) (bg_runtime b) of
        Panic msg \<Rightarrow> Crashed msg
      | Returned (res, h, st) \<Rightarrow>
          let b = b\<lparr>bg_handler := h, bg_runtime := st\<rparr>
          in case res of
               SendWaiting \<Rightarrow> Looping b
             | SendThis pkt \<Rightarrow> bg_send S pkt b
             | SendNothing \<Rightarrow> if bg_should_close b then bg_finish S b else Looping b)"

definition bg_step ::
    "('ps, 'p, 'h) packet_stream \<Rightarrow> 'h packet_header \<Rightarrow> ('p, 'h, 'b) packet \<Rightarrow> ('st, 'p) tokio
      \<Rightarrow> ('c \<Rightarrow> 'ps \<Rightarrow> 'ps) \<Rightarrow> ('c, 'st) bg_event \<Rightarrow> ('ps, 'p, 'st) bg \<Rightarrow> ('ps, 'p, 'st) bg looped" where
  "bg_step S H P T update_config event b =
     (case event of
        Received orders \<Rightarrow> if bg_should_close b then Looping b else bg_received S H P T orders b
      | ToSend user_first order \<Rightarrow> bg_to_send S H P T user_first order b
      | PingTick \<Rightarrow> if bg_should_close b then Looping b else bg_send S (ping_packet H P) b
      | CloseSignal orders \<Rightarrow> if bg_should_close b then Looping b else Looping (bg_close H P T orders True b)
      | NewConfig None \<Rightarrow> Looping b
      | NewConfig (Some cfg) \<Rightarrow> if bg_should_close b then Looping b
          else Looping (b\<lparr>bg_stream := update_config cfg (bg_stream b)\<rparr>))"

definition bg_start ::
    "('ps, 'p, 'h) packet_stream \<Rightarrow> 'ps \<Rightarrow> handler \<Rightarrow> 'st \<Rightarrow> ('ps, 'p, 'st) bg looped" where
  "bg_start S ps h st =
     (if ping_period (ps_timeout S ps) = 0 then Crashed ''period must be non-zero''
      else Looping \<lparr>bg_stream = ps, bg_handler = h, bg_runtime = st, bg_should_close = False,
        bg_close_packet = None\<rparr>)"

text \<open>
  The steps of a connection. Between two of them the users of the channels may do anything to
  them, which only the state of the runtime shows.
\<close>

datatype ('c, 'st) bg_input = Event "('c, 'st) bg_event" | Users "'st \<Rightarrow> 'st"

fun bg_next where
  "bg_next S H P T update_config (Event e) b = bg_step S H P T update_config e b"
| "bg_next S H P T update_config (Users f) b = Looping (b\<lparr>bg_runtime := f (bg_runtime b)\<rparr>)"

fun bg_run where
  "bg_run S H P T update_config [] r = r"
| "bg_run S H P T update_config (i # is) (Looping b) =
     bg_run S H P T update_config is (bg_next S H P T update_config i b)"
| "bg_run S H P T update_config (i # is) r = r"

lemma bg_run_Cons:
  "bg_run S H P T upd (i # is) r = (case r of Looping b \<Rightarrow> bg_run S H P T upd is (bg_next S H P T upd i b) | _ \<Rightarrow> r)"
  by (cases r) simp_all

section \<open>The code: reconnecting\<close>

text \<open>
  The world \<open>'w\<close> is what the strategy, \<open>new_stream\<close> and the running stream act on; \<open>rc_bg\<close> runs
  \<open>bg_stream\<close>, which may not return or panic, and tells whether the close signal was received
  (\<open>close.is_terminated()\<close>).
\<close>

record ('s, 'ps, 'c, 'w) reconnect =
  rc_strat :: "(nat \<Rightarrow> 'w \<Rightarrow> (io_error + 's) \<times> 'w) option"
  rc_newest :: "'w \<Rightarrow> 'c"
  rc_new_stream :: "'s \<Rightarrow> 'c \<Rightarrow> 'w \<Rightarrow> (task_error + 'ps) outcome \<times> 'w"
  rc_bg :: "'ps \<Rightarrow> handler \<Rightarrow> 'w \<Rightarrow> ((task_error + unit) \<times> bool \<times> handler \<times> 'w) outcome option"
  rc_close_all_started :: "handler \<Rightarrow> 'w \<Rightarrow> handler \<times> 'w"

partial_function (option) reconnect_attempts ::
    "(nat \<Rightarrow> 'w \<Rightarrow> (io_error + 's) \<times> 'w) \<Rightarrow> nat \<Rightarrow> 'w \<Rightarrow> ('s \<times> 'w) option" where
  "reconnect_attempts recon err_counter w =
     (case recon err_counter w of
        (Inr s, w) \<Rightarrow> Some (s, w)
      | (Inl e, w) \<Rightarrow> reconnect_attempts recon (err_counter + 1) w)"

text \<open>\<open>(stream.take(), &mut recon_strat)\<close>; the outer option is whether the attempts end.\<close>

definition reconnect_stream ::
    "('s, 'ps, 'c, 'w) reconnect \<Rightarrow> 's option \<Rightarrow> 'w \<Rightarrow> ('s \<times> 'w) outcome option" where
  "reconnect_stream C stream w =
     (case (stream, rc_strat C) of
        (Some s, _) \<Rightarrow> Some (Returned (s, w))
      | (None, None) \<Rightarrow> Some (Panic ''unreachable'')
      | (None, Some recon) \<Rightarrow> map_option Returned (reconnect_attempts recon 0 w))"

partial_function (option) bg_stream_reconnect ::
    "('s, 'ps, 'c, 'w) reconnect \<Rightarrow> 's option \<Rightarrow> handler \<Rightarrow> 'w \<Rightarrow> ((task_error + unit) \<times> handler \<times> 'w) outcome option" where
  "bg_stream_reconnect C stream h w =
     Option.bind (reconnect_stream C stream w) (\<lambda>got. case got of
       Panic msg \<Rightarrow> Some (Panic msg)
     | Returned (s, w) \<Rightarrow>
         (case rc_new_stream C s (rc_newest C w) w of
            (Panic msg, w) \<Rightarrow> Some (Panic msg)
          | (Returned (Inl e), w) \<Rightarrow>
              if rc_strat C = None then Some (Returned (Inl e, h, w)) else bg_stream_reconnect C None h w
          | (Returned (Inr ps), w) \<Rightarrow>
              Option.bind (rc_bg C ps h w) (\<lambda>ran. case ran of
                Panic msg \<Rightarrow> Some (Panic msg)
              | Returned (r, terminated, h, w) \<Rightarrow>
                  if rc_strat C = None then Some (Returned (r, h, w))
                  else if terminated then Some (Returned (Inr (), h, w))
                  else case r of
                    Inr u \<Rightarrow> Some (Returned (Inr u, h, w))
                  | Inl e \<Rightarrow> (case rc_close_all_started C h w of (h, w) \<Rightarrow> bg_stream_reconnect C None h w))))"

text \<open>What a task returns that runs only one stream.\<close>

fun task_result :: "((task_error + unit) \<times> bool \<times> handler \<times> 'w) outcome \<Rightarrow> ((task_error + unit) \<times> handler \<times> 'w) outcome" where
  "task_result (Panic msg) = Panic msg"
| "task_result (Returned (r, terminated, h, w)) = Returned (r, h, w)"

end
