(* ===== verification/Handshake.thy ===== *)
theory Handshake
  imports Handler
begin

text \<open>
  \<open>lafere/src/encrypted/handshake.rs\<close>: how the two sides of an encrypted stream agree on their
  keys. The crates \<open>crypto\<close> and \<open>bytes\<close> are arguments: a record of the operations on keys, and
  one of the operations on a cursor over an array.
\<close>

section \<open>What the code calls\<close>

text \<open>Public keys, nonces and signatures are their bytes; \<open>'w\<close> is where randomness comes from.\<close>

record ('kp, 'ss, 'k, 'sk, 'vk, 'w) crypto =
  cr_pk_len :: nat
  cr_nonce_len :: nat
  cr_sign_len :: nat
  cr_keypair :: "'w \<Rightarrow> 'kp \<times> 'w"
  cr_public :: "'kp \<Rightarrow> byte list"
  cr_nonce :: "'w \<Rightarrow> byte list \<times> 'w"
  cr_sign :: "'sk \<Rightarrow> byte list \<Rightarrow> byte list"
  cr_verify :: "'vk \<Rightarrow> byte list \<Rightarrow> byte list \<Rightarrow> bool"
  cr_dh :: "'kp \<Rightarrow> byte list \<Rightarrow> 'ss"
  cr_to_key :: "'ss \<Rightarrow> byte list \<Rightarrow> 'k"

locale key_exchange =
  fixes CR :: "('kp, 'ss, 'k, 'sk, 'vk, 'w) crypto"
  assumes public_len: "length (cr_public CR kp) = cr_pk_len CR"
    and nonce_len: "length (fst (cr_nonce CR w)) = cr_nonce_len CR"
    and sign_len: "length (cr_sign CR sk m) = cr_sign_len CR"
    and dh_agree: "cr_dh CR a (cr_public CR b) = cr_dh CR b (cr_public CR a)"

definition key_pair :: "('kp, 'ss, 'k, 'sk, 'vk, 'w) crypto \<Rightarrow> 'sk \<Rightarrow> 'vk \<Rightarrow> bool" where
  "key_pair CR sk vk \<longleftrightarrow> (\<forall>m. cr_verify CR vk m (cr_sign CR sk m))"

text \<open>\<open>Cursor<[u8; N]>\<close>; \<open>cs_fill\<close> is reading into the front of \<open>as_mut()\<close>.\<close>

record 'c cursor =
  cs_new :: "byte list \<Rightarrow> 'c"
  cs_write :: "byte list \<Rightarrow> 'c \<Rightarrow> 'c"
  cs_seek :: "nat \<Rightarrow> 'c \<Rightarrow> 'c"
  cs_read :: "nat \<Rightarrow> 'c \<Rightarrow> byte list \<times> 'c"
  cs_fill :: "byte list \<Rightarrow> 'c \<Rightarrow> 'c"

text \<open>\<open>data\<close> and \<open>pos\<close> are the array and the position; outside the array nothing is promised.\<close>

locale array_cursor =
  fixes CS :: "'c cursor" and data :: "'c \<Rightarrow> byte list" and pos :: "'c \<Rightarrow> nat"
  assumes cursor_new: "data (cs_new CS bs) = bs" "pos (cs_new CS bs) = 0"
    and cursor_write: "pos c + length bs \<le> length (data c) \<Longrightarrow>
      data (cs_write CS bs c) = take (pos c) (data c) @ bs @ drop (pos c + length bs) (data c)
      \<and> pos (cs_write CS bs c) = pos c + length bs"
    and cursor_seek: "n \<le> length (data c) \<Longrightarrow> data (cs_seek CS n c) = data c \<and> pos (cs_seek CS n c) = n"
    and cursor_read: "pos c + n \<le> length (data c) \<Longrightarrow>
      fst (cs_read CS n c) = take n (drop (pos c) (data c))
      \<and> data (snd (cs_read CS n c)) = data c \<and> pos (snd (cs_read CS n c)) = pos c + n"
    and cursor_fill: "length bs \<le> length (data c) \<Longrightarrow>
      data (cs_fill CS bs c) = bs @ drop (length bs) (data c) \<and> pos (cs_fill CS bs c) = pos c"

text \<open>\<open>AsyncRead + AsyncWrite\<close>.\<close>

record 'io duplex =
  dx_read_exact :: "nat \<Rightarrow> 'io \<Rightarrow> (io_error + byte list) \<times> 'io"
  dx_write_all :: "byte list \<Rightarrow> 'io \<Rightarrow> (io_error + unit) \<times> 'io"

section \<open>The code\<close>

definition BASE_LEN :: "('kp, 'ss, 'k, 'sk, 'vk, 'w) crypto \<Rightarrow> nat" where
  "BASE_LEN CR = cr_pk_len CR + cr_nonce_len CR * 2"

definition TO_SIGN_LEN :: "('kp, 'ss, 'k, 'sk, 'vk, 'w) crypto \<Rightarrow> nat" where
  "TO_SIGN_LEN CR = BASE_LEN CR + cr_pk_len CR"

definition TO_SEND_LEN :: "('kp, 'ss, 'k, 'sk, 'vk, 'w) crypto \<Rightarrow> nat" where
  "TO_SEND_LEN CR = BASE_LEN CR + cr_sign_len CR"

definition const_max :: "nat \<Rightarrow> nat \<Rightarrow> nat" where
  "const_max a b = (if a > b then a else b)"

definition MAX_LEN :: "('kp, 'ss, 'k, 'sk, 'vk, 'w) crypto \<Rightarrow> nat" where
  "MAX_LEN CR = const_max (TO_SIGN_LEN CR) (TO_SEND_LEN CR)"

record 'k handshake =
  hs_send_key :: 'k
  hs_recv_key :: 'k
  hs_public_key :: "byte list"

text \<open>The block of the server that fills the buffer: what is sent.\<close>

definition server_message ::
    "'c cursor \<Rightarrow> ('kp, 'ss, 'k, 'sk, 'vk, 'w) crypto \<Rightarrow> 'sk \<Rightarrow> byte list \<Rightarrow> byte list \<Rightarrow> byte list \<Rightarrow> byte list \<Rightarrow> byte list" where
  "server_message CS CR sign_key server_pk send_nonce recv_nonce client_pk =
     (let buffer = cs_new CS (replicate (MAX_LEN CR) 0);
          buffer = cs_write CS server_pk buffer;
          buffer = cs_write CS send_nonce buffer;
          buffer = cs_write CS recv_nonce buffer;
          buffer = cs_write CS client_pk buffer;
          buffer = cs_seek CS 0 buffer;
          (to_sign, buffer) = cs_read CS (TO_SIGN_LEN CR) buffer;
          sign = cr_sign CR sign_key to_sign;
          buffer = cs_seek CS (BASE_LEN CR) buffer;
          buffer = cs_write CS sign buffer;
          buffer = cs_seek CS 0 buffer
      in fst (cs_read CS (TO_SEND_LEN CR) buffer))"

text \<open>\<open>debug\<close>: whether \<open>debug_assert_ne!\<close> is compiled.\<close>

definition server_handshake ::
    "'c cursor \<Rightarrow> ('kp, 'ss, 'k, 'sk, 'vk, 'w) crypto \<Rightarrow> 'io duplex \<Rightarrow> bool \<Rightarrow> 'sk \<Rightarrow> 'w \<Rightarrow> 'io
      \<Rightarrow> (task_error + 'k handshake) outcome \<times> 'w \<times> 'io" where
  "server_handshake CS CR D debug sign_key w io =
     (case dx_read_exact D (cr_pk_len CR) io of
        (Inl e, io) \<Rightarrow> (Returned (Inl (TaskIo e)), w, io)
      | (Inr client_pk, io) \<Rightarrow>
          let (server_kp, w) = cr_keypair CR w;
              (send_nonce, w) = cr_nonce CR w;
              (recv_nonce, w) = cr_nonce CR w
          in if debug \<and> send_nonce = recv_nonce then (Panic ''assertion failed'', w, io)
             else case dx_write_all D (server_message CS CR sign_key (cr_public CR server_kp) send_nonce recv_nonce client_pk) io of
               (Inl e, io) \<Rightarrow> (Returned (Inl (TaskIo e)), w, io)
             | (Inr _, io) \<Rightarrow>
                 let shared_secret = cr_dh CR server_kp client_pk
                 in (Returned (Inr \<lparr>hs_send_key = cr_to_key CR shared_secret send_nonce,
                       hs_recv_key = cr_to_key CR shared_secret recv_nonce,
                       hs_public_key = client_pk\<rparr>), w, io))"

text \<open>The block of the client that reads the buffer: the server's key, and the two nonces in order.\<close>

definition client_parse ::
    "'c cursor \<Rightarrow> ('kp, 'ss, 'k, 'sk, 'vk, 'w) crypto \<Rightarrow> 'vk \<Rightarrow> byte list \<Rightarrow> byte list
      \<Rightarrow> task_error + byte list \<times> byte list \<times> byte list" where
  "client_parse CS CR sign_pk client_pk received =
     (let buffer = cs_fill CS received (cs_new CS (replicate (MAX_LEN CR) 0));
          buffer = cs_seek CS (BASE_LEN CR) buffer;
          (sign, buffer) = cs_read CS (cr_sign_len CR) buffer;
          buffer = cs_seek CS (BASE_LEN CR) buffer;
          buffer = cs_write CS client_pk buffer;
          buffer = cs_seek CS 0 buffer;
          (to_sign, buffer) = cs_read CS (TO_SIGN_LEN CR) buffer
      in if \<not> cr_verify CR sign_pk to_sign sign then Inl IncorrectSignature
         else
           let buffer = cs_seek CS 0 buffer;
               (server_pk, buffer) = cs_read CS (cr_pk_len CR) buffer;
               (recv_nonce, buffer) = cs_read CS (cr_nonce_len CR) buffer;
               (send_nonce, buffer) = cs_read CS (cr_nonce_len CR) buffer
           in Inr (server_pk, recv_nonce, send_nonce))"

definition client_handshake ::
    "'c cursor \<Rightarrow> ('kp, 'ss, 'k, 'sk, 'vk, 'w) crypto \<Rightarrow> 'io duplex \<Rightarrow> bool \<Rightarrow> 'vk \<Rightarrow> 'w \<Rightarrow> 'io
      \<Rightarrow> (task_error + 'k handshake) outcome \<times> 'w \<times> 'io" where
  "client_handshake CS CR D debug sign_pk w io =
     (let (client_kp, w) = cr_keypair CR w
      in case dx_write_all D (cr_public CR client_kp) io of
        (Inl e, io) \<Rightarrow> (Returned (Inl (TaskIo e)), w, io)
      | (Inr _, io) \<Rightarrow>
          (case dx_read_exact D (TO_SEND_LEN CR) io of
             (Inl e, io) \<Rightarrow> (Returned (Inl (TaskIo e)), w, io)
           | (Inr received, io) \<Rightarrow>
               (case client_parse CS CR sign_pk (cr_public CR client_kp) received of
                  Inl e \<Rightarrow> (Returned (Inl e), w, io)
                | Inr (server_pk, recv_nonce, send_nonce) \<Rightarrow>
                    if debug \<and> recv_nonce = send_nonce then (Panic ''assertion failed'', w, io)
                    else
                      let shared_secret = cr_dh CR client_kp server_pk
                      in (Returned (Inr \<lparr>hs_send_key = cr_to_key CR shared_secret send_nonce,
                            hs_recv_key = cr_to_key CR shared_secret recv_nonce,
                            hs_public_key = server_pk\<rparr>), w, io))))"

section \<open>The messages\<close>

lemma MAX_LEN_le: "TO_SIGN_LEN CR \<le> MAX_LEN CR" "TO_SEND_LEN CR \<le> MAX_LEN CR"
  by (simp_all add: MAX_LEN_def const_max_def)

context array_cursor
begin

lemma server_message_bytes:
  assumes "length spk = cr_pk_len CR" and "length cpk = cr_pk_len CR"
    and "length n1 = cr_nonce_len CR" and "length n2 = cr_nonce_len CR"
    and "\<And>m. length (cr_sign CR sk m) = cr_sign_len CR"
  shows "server_message CS CR sk spk n1 n2 cpk = spk @ n1 @ n2 @ cr_sign CR sk (spk @ n1 @ n2 @ cpk)"
proof -
  let ?z = "\<lambda>n. replicate (MAX_LEN CR - n) (0 :: byte)"
  note lens = assms BASE_LEN_def [of CR] TO_SIGN_LEN_def [of CR] TO_SEND_LEN_def [of CR] MAX_LEN_le [of CR]
  define b1 where "b1 = cs_write CS spk (cs_new CS (replicate (MAX_LEN CR) 0))"
  define b2 where "b2 = cs_write CS n1 b1"
  define b3 where "b3 = cs_write CS n2 b2"
  define b4 where "b4 = cs_seek CS 0 (cs_write CS cpk b3)"
  have b1: "data b1 = spk @ ?z (length spk)" "pos b1 = length spk"
    using cursor_write [of "cs_new CS (replicate (MAX_LEN CR) 0)" spk] lens
    by (simp_all add: b1_def cursor_new)
  have b2: "data b2 = spk @ n1 @ ?z (length spk + length n1)" "pos b2 = length spk + length n1"
    using cursor_write [of b1 n1] lens by (simp_all add: b2_def b1)
  have b3: "data b3 = spk @ n1 @ n2 @ ?z (BASE_LEN CR)" "pos b3 = BASE_LEN CR"
    using cursor_write [of b2 n2] lens by (simp_all add: b3_def b2 add.assoc mult_2_right)
  have b4: "data b4 = spk @ n1 @ n2 @ cpk @ ?z (TO_SIGN_LEN CR)" "pos b4 = 0"
    using cursor_write [of b3 cpk] cursor_seek [of 0 "cs_write CS cpk b3"] lens
    by (simp_all add: b4_def b3 add.assoc)
  obtain to_sign b5 where r: "cs_read CS (TO_SIGN_LEN CR) b4 = (to_sign, b5)" by fastforce
  with cursor_read [of b4 "TO_SIGN_LEN CR"] lens have b5: "to_sign = spk @ n1 @ n2 @ cpk" "data b5 = data b4"
    by (simp_all add: b4)
  define b6 where "b6 = cs_seek CS 0 (cs_write CS (cr_sign CR sk to_sign) (cs_seek CS (BASE_LEN CR) b5))"
  have "take (TO_SEND_LEN CR) (data b6) = spk @ n1 @ n2 @ cr_sign CR sk to_sign" "pos b6 = 0"
      "TO_SEND_LEN CR \<le> length (data b6)"
    using cursor_seek [of "BASE_LEN CR" b5] cursor_write [of "cs_seek CS (BASE_LEN CR) b5" "cr_sign CR sk to_sign"]
      cursor_seek [of 0 "cs_write CS (cr_sign CR sk to_sign) (cs_seek CS (BASE_LEN CR) b5)"] lens
    by (simp_all add: b6_def b5 b4 add.assoc)
  with cursor_read [of b6 "TO_SEND_LEN CR"] show ?thesis
    by (simp add: server_message_def Let_def r b1_def [symmetric] b2_def [symmetric] b3_def [symmetric]
        b4_def [symmetric] b6_def [unfolded b5(1), symmetric] b5)
qed

lemma client_parse_bytes:
  assumes "length spk = cr_pk_len CR" and "length cpk = cr_pk_len CR"
    and "length n1 = cr_nonce_len CR" and "length n2 = cr_nonce_len CR" and "length sig = cr_sign_len CR"
  shows "client_parse CS CR vk cpk (spk @ n1 @ n2 @ sig) =
    (if cr_verify CR vk (spk @ n1 @ n2 @ cpk) sig then Inr (spk, n1, n2) else Inl IncorrectSignature)"
proof -
  note lens = assms BASE_LEN_def [of CR] TO_SIGN_LEN_def [of CR] TO_SEND_LEN_def [of CR] MAX_LEN_le [of CR]
  define b1 where "b1 = cs_seek CS (BASE_LEN CR) (cs_fill CS (spk @ n1 @ n2 @ sig) (cs_new CS (replicate (MAX_LEN CR) 0)))"
  have b1: "data b1 = spk @ n1 @ n2 @ sig @ replicate (MAX_LEN CR - TO_SEND_LEN CR) 0" "pos b1 = BASE_LEN CR"
    using cursor_fill [of "spk @ n1 @ n2 @ sig" "cs_new CS (replicate (MAX_LEN CR) 0)"]
      cursor_seek [of "BASE_LEN CR" "cs_fill CS (spk @ n1 @ n2 @ sig) (cs_new CS (replicate (MAX_LEN CR) 0))"] lens
    by (simp_all add: b1_def cursor_new add.assoc mult_2_right)
  obtain s b2 where r1: "cs_read CS (cr_sign_len CR) b1 = (s, b2)" by fastforce
  with cursor_read [of b1 "cr_sign_len CR"] lens have b2: "s = sig" "data b2 = data b1"
    by (simp_all add: b1)
  define b3 where "b3 = cs_seek CS 0 (cs_write CS cpk (cs_seek CS (BASE_LEN CR) b2))"
  have b3: "take (TO_SIGN_LEN CR) (data b3) = spk @ n1 @ n2 @ cpk" "pos b3 = 0" "length (data b3) = MAX_LEN CR"
    using cursor_seek [of "BASE_LEN CR" b2] cursor_write [of "cs_seek CS (BASE_LEN CR) b2" cpk]
      cursor_seek [of 0 "cs_write CS cpk (cs_seek CS (BASE_LEN CR) b2)"] lens
    by (simp_all add: b3_def b2 b1 add.assoc)
  then obtain t where d3: "data b3 = spk @ n1 @ n2 @ cpk @ t"
    by (metis append_assoc append_take_drop_id)
  obtain m b4 where r2: "cs_read CS (TO_SIGN_LEN CR) b3 = (m, b4)" by fastforce
  with cursor_read [of b3 "TO_SIGN_LEN CR"] b3 lens have b4: "m = spk @ n1 @ n2 @ cpk" "data b4 = data b3"
    by simp_all
  obtain p b5 where r3: "cs_read CS (cr_pk_len CR) (cs_seek CS 0 b4) = (p, b5)" by fastforce
  with cursor_seek [of 0 b4] cursor_read [of "cs_seek CS 0 b4" "cr_pk_len CR"] b4 d3 lens
  have b5: "p = spk" "data b5 = data b3" "pos b5 = cr_pk_len CR" by simp_all
  obtain q b6 where r4: "cs_read CS (cr_nonce_len CR) b5 = (q, b6)" by fastforce
  with cursor_read [of b5 "cr_nonce_len CR"] b5 d3 lens
  have b6: "q = n1" "data b6 = data b3" "pos b6 = cr_pk_len CR + cr_nonce_len CR" by simp_all
  obtain r b7 where r5: "cs_read CS (cr_nonce_len CR) b6 = (r, b7)" by fastforce
  with cursor_read [of b6 "cr_nonce_len CR"] b6 d3 lens have b7: "r = n2" by simp
  show ?thesis
    by (simp add: client_parse_def Let_def b1_def [symmetric] r1 b2(1) b3_def [symmetric] r2 b4(1) r3 b5(1)
        r4 b6(1) r5 b7)
qed

end

section \<open>A pipe and an array\<close>

text \<open>What is still to be read, and what was written.\<close>

definition pipe :: "(byte list \<times> byte list) duplex" where
  "pipe = \<lparr>
     dx_read_exact = (\<lambda>n (inbox, outbox). if length inbox < n then (Inl IoUnexpectedEof, ([], outbox))
       else (Inr (take n inbox), (drop n inbox, outbox))),
     dx_write_all = (\<lambda>bs (inbox, outbox). (Inr (), (inbox, outbox @ bs)))\<rparr>"

definition pair_cursor :: "(byte list \<times> nat) cursor" where
  "pair_cursor = \<lparr>
     cs_new = (\<lambda>bs. (bs, 0)),
     cs_write = (\<lambda>bs (d, p). (take p d @ bs @ drop (p + length bs) d, p + length bs)),
     cs_seek = (\<lambda>n (d, p). (d, n)),
     cs_read = (\<lambda>n (d, p). (take n (drop p d), (d, p + n))),
     cs_fill = (\<lambda>bs (d, p). (bs @ drop (length bs) d, p))\<rparr>"

interpretation pair: array_cursor pair_cursor fst snd
  by unfold_locales (auto simp: pair_cursor_def)

end
