(* ===== verification/Streams.thy ===== *)
theory Streams
  imports Receiver Message
begin

text \<open>
  \<open>PlainPacketStream\<close> of \<open>lafere/src/plain/mod.rs\<close> and \<open>EncryptedPacketStream\<close> of
  \<open>lafere/src/encrypted/stream.rs\<close>: sending a packet and receiving it, and what one side
  sends the other receives.
\<close>

section \<open>The code\<close>

text \<open>\<open>write_all\<close> and \<open>flush\<close> of the stream that is written to.\<close>

record 'w stream_writer =
  sw_write_all :: "byte list \<Rightarrow> 'w \<Rightarrow> (io_error + unit) \<times> 'w"
  sw_flush :: "'w \<Rightarrow> (io_error + unit) \<times> 'w"

definition plain_send ::
    "('p, 'h, plain_bytes) packet \<Rightarrow> 'w stream_writer \<Rightarrow> 'p \<Rightarrow> 'w \<Rightarrow> (io_error + unit) \<times> 'w" where
  "plain_send P S pkt w =
     (let buf = pk_into_bytes P pkt;
          slice = plain_as_slice buf
      in case sw_write_all S slice w of
           (Inl e, w) \<Rightarrow> (Inl e, w)
         | (Inr _, w) \<Rightarrow> sw_flush S w)"

definition plain_receive ::
    "'h packet_header \<Rightarrow> ('p, 'h, plain_bytes) packet \<Rightarrow> 'r stream_reader \<Rightarrow> ('h, plain_bytes) packet_receiver \<Rightarrow> 'r
      \<Rightarrow> ('h receiver_error + 'p) polled \<times> ('h, plain_bytes) packet_receiver \<times> unit \<times> 'r" where
  "plain_receive H P rd self r =
     receive_packet H plain_packet_bytes P rd (\<lambda>m b. (Inr b, m)) (\<lambda>m b. (Inr b, m)) self () r"

definition encrypted_send ::
    "nat \<Rightarrow> 'k cipher_key \<Rightarrow> ('p, 'h, encrypted_bytes) packet \<Rightarrow> 'w stream_writer \<Rightarrow> 'p \<Rightarrow> 'k \<Rightarrow> 'w
      \<Rightarrow> (io_error + unit) \<times> 'k \<times> 'w" where
  "encrypted_send OFFSET C P S pkt send_key w =
     (let (buf, send_key) = encrypt OFFSET C send_key (pk_into_bytes P pkt);
          slice = enc_as_slice OFFSET buf
      in case sw_write_all S slice w of
           (Inl e, w) \<Rightarrow> (Inl e, send_key, w)
         | (Inr _, w) \<Rightarrow> (case sw_flush S w of (r, w) \<Rightarrow> (r, send_key, w)))"

definition encrypted_receive ::
    "nat \<Rightarrow> 'k cipher_key \<Rightarrow> 'h packet_header \<Rightarrow> ('p, 'h, encrypted_bytes) packet \<Rightarrow> 'r stream_reader
      \<Rightarrow> ('h, encrypted_bytes) packet_receiver \<Rightarrow> 'k \<Rightarrow> 'r
      \<Rightarrow> ('h receiver_error + 'p) polled \<times> ('h, encrypted_bytes) packet_receiver \<times> 'k \<times> 'r" where
  "encrypted_receive OFFSET C H P rd self recv_key r =
     receive_packet H (enc_packet_bytes OFFSET) P rd (decrypt_header OFFSET C) (decrypt_body OFFSET C) self recv_key r"

section \<open>A stream to test with\<close>

text \<open>
  A stream that delivers its bytes in the given portions; a portion of 0 is a read whose
  future is dropped.
\<close>

fun scripted_read :: "(nat list \<times> byte list) stream_reader" where
  "scripted_read n ([], bs) = (ReadBytes (take n bs), ([], drop n bs))"
| "scripted_read n (0 # ks, bs) = (Dropped, (ks, bs))"
| "scripted_read n (Suc k # ks, bs) = (ReadBytes (take (min n (Suc k)) bs), (ks, drop (min n (Suc k)) bs))"

interpretation scripted: byte_stream scripted_read snd
proof
  fix n :: nat and r r' :: "nat list \<times> byte list" and bs :: "byte list"
  show "scripted_read n r = (ReadBytes bs, r') \<Longrightarrow>
      length bs \<le> n \<and> snd r = bs @ snd r' \<and> (bs = [] \<longrightarrow> n = 0 \<or> snd r = [])"
    by (cases "(n, r)" rule: scripted_read.cases) (auto simp: min_def split: if_splits)
  show "scripted_read n r = (Dropped, r') \<Longrightarrow> snd r' = snd r"
    by (cases "(n, r)" rule: scripted_read.cases) auto
qed

section \<open>Both streams are framed streams\<close>

lemma plain_framed: "byte_stream rd pending \<Longrightarrow>
    framed_stream plain_packet_bytes plain_wf 0 rd pending (\<lambda>m b. (Inr b, m))"
  by (intro framed_stream.intro framed_stream_axioms.intro plain.packet_buffer_axioms) auto

lemma decrypt_header_wf:
  assumes "cipher C OFFSET" and "enc_wf OFFSET n b" and "decrypt_header OFFSET C m b = (Inr b', m')"
  shows "enc_wf OFFSET n b'"
proof -
  have len: "length (enc_full_header OFFSET b) = OFFSET + n"
    using enc.full_header_len [OF assms(2)] by (simp add: enc_packet_bytes_def)
  obtain pt where pt: "b' = enc_set_full_header OFFSET (take OFFSET (enc_full_header OFFSET b) @ pt) b"
      "length pt = n"
    using assms(3) cipher.decrypt_len [OF assms(1)] len
    by (fastforce simp: decrypt_header_def Let_def split: prod.splits option.splits)
  then show ?thesis
    using enc.set_full_header [OF assms(2), of "take OFFSET (enc_full_header OFFSET b) @ pt"] len
    by (simp add: enc_packet_bytes_def)
qed

lemma encrypted_framed: "cipher C OFFSET \<Longrightarrow> byte_stream rd pending \<Longrightarrow>
    framed_stream (enc_packet_bytes OFFSET) (enc_wf OFFSET) OFFSET rd pending (decrypt_header OFFSET C)"
proof (rule framed_stream.intro)
  assume c: "cipher C OFFSET"
  show "framed_stream_axioms (enc_wf OFFSET) (decrypt_header OFFSET C)"
    by (rule framed_stream_axioms.intro) (rule decrypt_header_wf [OF c])
qed (auto intro: enc.packet_buffer_axioms)

interpretation plain_scripted: framed_stream plain_packet_bytes plain_wf 0 scripted_read snd H P
    "\<lambda>m b. (Inr b, m)" "\<lambda>m b. (Inr b, m)" for H P
  by (rule plain_framed) (rule scripted.byte_stream_axioms)

section \<open>What is sent is received\<close>

text \<open>A packet in its buffer, as both ends agree on it.\<close>

definition announces :: "'h packet_header \<Rightarrow> u32 \<Rightarrow> byte list \<Rightarrow> byte list \<Rightarrow> 'h \<Rightarrow> bool" where
  "announces H limit header body h \<longleftrightarrow>
     ph_from_bytes H header = Inr h \<and> unat (ph_body_len H h) = length body
     \<and> (limit = 0 \<or> ph_body_len H h \<le> limit)"

definition deliver :: "('p, 'h, 'b) packet \<Rightarrow> 'b \<Rightarrow> 'h \<Rightarrow> 'h receiver_error + 'p" where
  "deliver P buf h = (case pk_from_bytes_and_header P buf h of Inl e \<Rightarrow> Inl (RSoft h e) | Inr p \<Rightarrow> Inr p)"

lemma plain_at_once:
  assumes wf: "plain_wf (ph_len H) b" and ann: "announces H limit (plain_header b) (plain_body b) h"
  shows "packet_at_once H plain_packet_bytes P 0 (\<lambda>m b. (Inr b, m)) (\<lambda>m b. (Inr b, m))
      (receiver_new H plain_packet_bytes limit) m (plain_as_slice b @ rest)
    = Some (deliver P b h, receiver_new H plain_packet_bytes limit, m, rest)"
proof -
  obtain hd bd where b: "b = \<lparr>p_bytes = hd @ bd, p_header_len = length hd\<rparr>" "length hd = ph_len H"
  proof (rule that)
    show "b = \<lparr>p_bytes = plain_header b @ plain_body b, p_header_len = length (plain_header b)\<rparr>"
      using wf by (simp add: plain_header_def plain_body_def plain_wf_def min_def)
    show "length (plain_header b) = ph_len H"
      using wf by (simp add: plain_header_def plain_wf_def)
  qed
  have "ph_body_len H h = 0 \<longleftrightarrow> bd = []"
    using ann b by (auto simp: announces_def plain_body_def unat_eq_0 [symmetric])
  then show ?thesis
    using ann b by (auto simp: packet_at_once_def header_at_once_def body_at_once_def receiver_new_def Let_def
        plain_packet_bytes_def plain_new_def plain_header_def plain_body_def plain_set_header_def
        plain_as_slice_def plain_body_resize_def plain_set_full_body_def announces_def deliver_def
        body_bytes_mut_resize_def vec_resize_def linorder_not_less)
qed

text \<open>What encryption and decryption do to the four parts of a buffer.\<close>

lemma encrypt_parts:
  fixes hm h bm c :: "byte list"
  assumes C: "cipher C OFFSET" and len: "length hm = OFFSET" "length bm = OFFSET" "length h = n"
    and enc1: "key_encrypt C k h = (ct, m, k1)"
    and enc2: "key_encrypt C k1 c = (ct2, m2, k2)"
  shows "encrypt OFFSET C k \<lparr>e_bytes = hm @ h @ bm @ c, e_header_len = n\<rparr>
    = (if c = [] then (\<lparr>e_bytes = m @ ct @ bm, e_header_len = n\<rparr>, k1)
       else (\<lparr>e_bytes = m @ ct @ m2 @ ct2, e_header_len = n\<rparr>, k2))"
  using len enc1 enc2 cipher.encrypt_len [OF C enc1] by (simp add: encrypt_def packet_simps Let_def)

lemma decrypt_header_parts:
  fixes hm h bm c :: "byte list"
  assumes "length hm = OFFSET" and "length bm = OFFSET" and "length h = n"
    and "key_decrypt C k h hm = (Some pt, k')"
  shows "decrypt_header OFFSET C k \<lparr>e_bytes = hm @ h @ bm @ c, e_header_len = n\<rparr>
    = (Inr \<lparr>e_bytes = hm @ pt @ bm @ c, e_header_len = n\<rparr>, k')"
  using assms by (simp add: decrypt_header_def packet_simps)

lemma decrypt_body_parts:
  fixes hm h bm c :: "byte list"
  assumes "length hm = OFFSET" and "length bm = OFFSET" and "length h = n"
    and "key_decrypt C k c bm = (Some pt, k')"
  shows "decrypt_body OFFSET C k \<lparr>e_bytes = hm @ h @ bm @ c, e_header_len = n\<rparr>
    = (Inr \<lparr>e_bytes = hm @ h @ bm @ pt, e_header_len = n\<rparr>, k')"
  using assms by (simp add: decrypt_body_def packet_simps)

lemma enc_new_parts:
  "enc_new OFFSET n = \<lparr>e_bytes = replicate OFFSET 0 @ replicate n 0 @ replicate OFFSET 0 @ [], e_header_len = n\<rparr>"
  by (simp add: enc_new_def replicate_add [symmetric] mult_2_right add.assoc add.left_commute)

lemma encrypted_at_once:
  assumes C: "cipher C OFFSET" and wf: "enc_wf OFFSET (ph_len H) b"
    and ann: "announces H limit (enc_header OFFSET b) (enc_body OFFSET b) h"
    and enc: "encrypt OFFSET C k b = (b', k')"
  shows "\<exists>b''. enc_wf OFFSET (ph_len H) b'' \<and> enc_header OFFSET b'' = enc_header OFFSET b
    \<and> enc_body OFFSET b'' = enc_body OFFSET b
    \<and> packet_at_once H (enc_packet_bytes OFFSET) P OFFSET (decrypt_header OFFSET C) (decrypt_body OFFSET C)
        (receiver_new H (enc_packet_bytes OFFSET) limit) k (enc_as_slice OFFSET b' @ rest)
      = Some (deliver P b'' h, receiver_new H (enc_packet_bytes OFFSET) limit, k', rest)"
proof -
  let ?n = "ph_len H"
  obtain hm hd bm c where b: "b = \<lparr>e_bytes = hm @ hd @ bm @ c, e_header_len = ?n\<rparr>"
    and len: "length hm = OFFSET" "length bm = OFFSET" "length hd = ?n"
    using wf by (auto elim: enc_parts)
  obtain ct m k1 where e1: "key_encrypt C k hd = (ct, m, k1)" by (cases "key_encrypt C k hd")
  obtain ct2 m2 k2 where e2: "key_encrypt C k1 c = (ct2, m2, k2)" by (cases "key_encrypt C k1 c")
  note l1 = cipher.encrypt_len [OF C e1] and l2 = cipher.encrypt_len [OF C e2]
  have d1: "key_decrypt C k ct m = (Some hd, k1)" and d2: "key_decrypt C k1 ct2 m2 = (Some c, k2)"
    using cipher.decrypt_encrypt [OF C e1] cipher.decrypt_encrypt [OF C e2] by auto
  have ann': "ph_from_bytes H hd = Inr h" "unat (ph_body_len H h) = length c"
      "limit = 0 \<or> ph_body_len H h \<le> limit"
    using ann len by (simp_all add: announces_def b packet_simps)
  define z where "z = replicate OFFSET (0 :: byte)"
  have z: "length z = OFFSET" by (simp add: z_def)
  let ?self = "receiver_new H (enc_packet_bytes OFFSET) limit"
  let ?h = "\<lparr>e_bytes = m @ hd @ z @ [], e_header_len = ?n\<rparr>"
  have header: "header_at_once H (enc_packet_bytes OFFSET) OFFSET (decrypt_header OFFSET C) ?self k (m @ ct @ xs)
      = Some (Inr (), ?self\<lparr>pr_bytes := ?h, pr_header := Some h, pr_read := 0\<rparr>, k1, xs)" for xs
  proof -
    have "decrypt_header OFFSET C k \<lparr>e_bytes = m @ ct @ z @ [], e_header_len = ?n\<rparr> = (Inr ?h, k1)"
      using d1 l1 z len by (intro decrypt_header_parts) simp_all
    then show ?thesis
      using ann' l1 len z by (simp add: header_at_once_def receiver_new_def enc_packet_bytes_def Let_def
          enc_new_parts packet_simps z_def [symmetric])
  qed
  note sent = enc [unfolded b encrypt_parts [OF C len e1 e2]]
  show ?thesis
  proof (cases "c = []")
    case True
    with sent l1 len have slice: "enc_as_slice OFFSET b' = m @ ct" "k' = k1"
      by (auto simp: packet_simps)
    from True ann'(2) have "ph_body_len H h = 0" by (simp add: unat_eq_0)
    with True show ?thesis
      using slice header [of rest] l1 len z
      by (intro exI [of _ ?h]) (simp add: b packet_simps packet_at_once_def
          body_at_once_def receiver_new_def enc_packet_bytes_def enc_wf_def deliver_def)
  next
    case False
    with sent l1 l2 len have slice: "enc_as_slice OFFSET b' = m @ ct @ m2 @ ct2" "k' = k2"
      by (auto simp: packet_simps)
    have "ph_body_len H h \<noteq> 0" using False ann'(2) by auto
    moreover have "decrypt_body OFFSET C k1 \<lparr>e_bytes = m @ hd @ m2 @ ct2, e_header_len = ?n\<rparr>
        = (Inr \<lparr>e_bytes = m @ hd @ m2 @ c, e_header_len = ?n\<rparr>, k2)"
      using d2 l1 l2 len by (intro decrypt_body_parts) simp_all
    ultimately show ?thesis
      using slice header [of "m2 @ ct2 @ rest"] l1 l2 len z ann'
      by (intro exI [of _ "\<lparr>e_bytes = m @ hd @ m2 @ c, e_header_len = ?n\<rparr>"])
        (auto simp: b packet_simps packet_at_once_def
          body_at_once_def receiver_new_def enc_packet_bytes_def enc_wf_def deliver_def Let_def)
  qed
qed

section \<open>API messages\<close>

definition sent_header :: "'b packet_bytes \<Rightarrow> ('a, 'b) message \<Rightarrow> 'a header" where
  "sent_header B msg = (ms_header msg)\<lparr>hd_body_len := of_nat (length (pb_body B (ms_bytes msg)))\<rparr>"

text \<open>A message that can be sent to a peer with the body limit \<open>limit\<close>.\<close>

definition sendable :: "'a action \<Rightarrow> 'b packet_bytes \<Rightarrow> u32 \<Rightarrow> ('a, 'b) message \<Rightarrow> bool" where
  "sendable A B limit msg \<longleftrightarrow>
     maybe_action_ok A (hd_action (ms_header msg)) \<and> length (pb_body B (ms_bytes msg)) < 2 ^ 32
     \<and> header_fits A (sent_header B msg)
     \<and> (limit = 0 \<or> length (pb_body B (ms_bytes msg)) \<le> unat limit)"

lemma unat_of_nat_u32: "n < 2 ^ 32 \<Longrightarrow> unat (of_nat n :: u32) = n"
  by (simp add: unat_of_nat take_bit_nat_eq_self)

lemma message_announces:
  assumes N: "int_codec N" and A: "action_law A" and B: "packet_buffer B wfb mac"
    and wf: "wfb HEADER_LEN (ms_bytes msg)" and ok: "sendable A B limit msg"
  defines "b \<equiv> message_into_bytes N A B msg"
  shows "wfb HEADER_LEN b \<and> announces (api_header N A) limit (pb_header B b) (pb_body B b) (sent_header B msg)
    \<and> pb_body B b = pb_body B (ms_bytes msg)"
proof -
  let ?bytes = "header_to_bytes N A (sent_header B msg)"
  have len: "length ?bytes = HEADER_LEN"
    by (rule int_codec.header_to_bytes_len [OF N])
  have b: "b = pb_set_header B ?bytes (ms_bytes msg)"
    by (simp add: b_def message_into_bytes_def sent_header_def Let_def)
  note put = packet_buffer.set_header [OF B wf len, folded b]
  have body: "pb_body B b = pb_body B (ms_bytes msg)"
    using put packet_buffer.body_view [OF B wf] packet_buffer.body_view [OF B, of HEADER_LEN b] by simp
  have "header_from_bytes N A ?bytes = Inr (sent_header B msg)"
    using int_codec.header_back [OF N A, of "sent_header B msg"] ok by (simp add: sendable_def sent_header_def)
  moreover have "limit = 0 \<or> (of_nat (length (pb_body B (ms_bytes msg))) :: u32) \<le> limit"
    using ok by (auto simp: sendable_def word_le_nat_alt unat_of_nat_u32)
  ultimately show ?thesis
    using put body ok by (simp add: announces_def api_header_def sendable_def sent_header_def unat_of_nat_u32)
qed

end
