(* ===== verification/Timeout.thy ===== *)
theory Timeout
  imports Streams
begin

text \<open>
  \<open>TimeoutReader\<close> of \<open>lafere/src/util/timeout.rs\<close>: a stream whose reads fail when nothing has come
  for a while. Time is a number; when a \<open>Sleep\<close> of \<open>tokio\<close> is complete is an argument.
\<close>

section \<open>The code\<close>

text \<open>\<open>elapsed deadline now\<close>: documented to be false before the deadline, true some time after it.\<close>

locale timer =
  fixes elapsed :: "nat \<Rightarrow> nat \<Rightarrow> bool" and slack :: nat
  assumes not_early: "elapsed deadline now \<Longrightarrow> deadline \<le> now"
    and not_late: "deadline + slack \<le> now \<Longrightarrow> elapsed deadline now"

text \<open>One poll of a read.\<close>

datatype poll_read = PReady "byte list" | PErr io_error | PPending

record 's timeout_reader =
  tr_stream :: 's
  tr_timeout :: nat
  tr_timer :: nat
  tr_active :: bool

definition timeout_new :: "'s \<Rightarrow> nat \<Rightarrow> nat \<Rightarrow> 's timeout_reader" where
  "timeout_new stream timeout now =
     \<lparr>tr_stream = stream, tr_timeout = timeout, tr_timer = now, tr_active = False\<rparr>"

definition set_timeout :: "nat \<Rightarrow> nat \<Rightarrow> 's timeout_reader \<Rightarrow> 's timeout_reader" where
  "set_timeout timeout now self = self\<lparr>tr_timeout := timeout, tr_timer := now, tr_active := False\<rparr>"

definition poll_timeout ::
    "(nat \<Rightarrow> nat \<Rightarrow> bool) \<Rightarrow> nat \<Rightarrow> 's timeout_reader \<Rightarrow> (io_error + unit) \<times> 's timeout_reader" where
  "poll_timeout elapsed now self =
     (let self = (if \<not> tr_active self then self\<lparr>tr_timer := now + tr_timeout self, tr_active := True\<rparr> else self)
      in (if elapsed (tr_timer self) now then Inl IoTimedOut else Inr (), self))"

definition timeout_poll_read ::
    "(nat \<Rightarrow> nat \<Rightarrow> bool) \<Rightarrow> (nat \<Rightarrow> 's \<Rightarrow> poll_read \<times> 's) \<Rightarrow> nat \<Rightarrow> nat \<Rightarrow> 's timeout_reader
      \<Rightarrow> poll_read \<times> 's timeout_reader" where
  "timeout_poll_read elapsed poll n now self =
     (let (r, s) = poll n (tr_stream self);
          self = self\<lparr>tr_stream := s\<rparr>
      in case r of
           PPending \<Rightarrow> (case poll_timeout elapsed now self of
               (Inl e, self) \<Rightarrow> (PErr e, self)
             | (Inr _, self) \<Rightarrow> (PPending, self))
         | _ \<Rightarrow> (r, self\<lparr>tr_active := False\<rparr>))"

section \<open>Polling at given times\<close>

text \<open>What the polls at the given times give.\<close>

fun poll_results ::
    "(nat \<Rightarrow> nat \<Rightarrow> bool) \<Rightarrow> (nat \<Rightarrow> 's \<Rightarrow> poll_read \<times> 's) \<Rightarrow> nat \<Rightarrow> nat list \<Rightarrow> 's timeout_reader
      \<Rightarrow> poll_read list \<times> 's timeout_reader" where
  "poll_results elapsed poll n [] self = ([], self)"
| "poll_results elapsed poll n (t # ts) self =
     (let (r, self) = timeout_poll_read elapsed poll n t self;
          (rs, self) = poll_results elapsed poll n ts self
      in (r # rs, self))"

text \<open>The stream has nothing to give for as many polls.\<close>

fun silent :: "(nat \<Rightarrow> 's \<Rightarrow> poll_read \<times> 's) \<Rightarrow> nat \<Rightarrow> nat \<Rightarrow> 's \<Rightarrow> bool" where
  "silent poll n 0 s \<longleftrightarrow> True"
| "silent poll n (Suc k) s \<longleftrightarrow> fst (poll n s) = PPending \<and> silent poll n k (snd (poll n s))"

lemma silent_active:
  assumes "tr_active self" and "silent poll n (length ts) (tr_stream self)"
  shows "fst (poll_results elapsed poll n ts self)
      = map (\<lambda>t. if elapsed (tr_timer self) t then PErr IoTimedOut else PPending) ts
    \<and> tr_active (snd (poll_results elapsed poll n ts self))
    \<and> tr_timer (snd (poll_results elapsed poll n ts self)) = tr_timer self"
  using assms
proof (induction ts arbitrary: self)
  case (Cons t ts)
  obtain s where s: "poll n (tr_stream self) = (PPending, s)"
    using Cons.prems(2) by (cases "poll n (tr_stream self)") simp
  with Cons.prems have "timeout_poll_read elapsed poll n t self
      = (if elapsed (tr_timer self) t then PErr IoTimedOut else PPending, self\<lparr>tr_stream := s\<rparr>)"
    by (simp add: timeout_poll_read_def poll_timeout_def)
  with Cons.IH [of "self\<lparr>tr_stream := s\<rparr>"] Cons.prems s show ?case
    by (auto split: prod.split)
qed simp

text \<open>The clock starts with the first poll that has to wait.\<close>

lemma silent_polls:
  assumes "\<not> tr_active self" and "silent poll n (length (t # ts)) (tr_stream self)"
  shows "fst (poll_results elapsed poll n (t # ts) self)
    = map (\<lambda>u. if elapsed (t + tr_timeout self) u then PErr IoTimedOut else PPending) (t # ts)"
proof -
  obtain s where s: "poll n (tr_stream self) = (PPending, s)"
    using assms(2) by (cases "poll n (tr_stream self)") simp
  let ?self = "self\<lparr>tr_stream := s, tr_timer := t + tr_timeout self, tr_active := True\<rparr>"
  from s assms(1) have "timeout_poll_read elapsed poll n t self
      = (if elapsed (t + tr_timeout self) t then PErr IoTimedOut else PPending, ?self)"
    by (simp add: timeout_poll_read_def poll_timeout_def)
  with silent_active [of ?self poll n ts elapsed] assms(2) s show ?thesis
    by (auto split: prod.split)
qed

section \<open>As a stream\<close>

text \<open>
  \<open>read(buf).await\<close> is polled at the times of a schedule, until it is ready or, at a \<open>None\<close>, is
  dropped.
\<close>

fun timeout_read ::
    "(nat \<Rightarrow> nat \<Rightarrow> bool) \<Rightarrow> (nat \<Rightarrow> 's \<Rightarrow> poll_read \<times> 's) \<Rightarrow> nat \<Rightarrow> nat option list \<Rightarrow> 's timeout_reader
      \<Rightarrow> read_outcome \<times> nat option list \<times> 's timeout_reader" where
  "timeout_read elapsed poll n [] self = (Dropped, [], self)"
| "timeout_read elapsed poll n (None # sched) self = (Dropped, sched, self)"
| "timeout_read elapsed poll n (Some now # sched) self =
     (case timeout_poll_read elapsed poll n now self of
        (PReady bs, self) \<Rightarrow> (ReadBytes bs, sched, self)
      | (PErr e, self) \<Rightarrow> (ReadErr e, sched, self)
      | (PPending, self) \<Rightarrow> timeout_read elapsed poll n sched self)"

definition timeout_reader_rd where
  "timeout_reader_rd elapsed poll n r = (case r of (sched, self) \<Rightarrow> timeout_read elapsed poll n sched self)"

text \<open>What \<open>AsyncRead\<close> documents of \<open>poll_read\<close>.\<close>

locale polled_stream =
  fixes poll :: "nat \<Rightarrow> 's \<Rightarrow> poll_read \<times> 's" and inner :: "'s \<Rightarrow> byte list"
  assumes poll_ready: "poll n s = (PReady bs, s') \<Longrightarrow>
      length bs \<le> n \<and> inner s = bs @ inner s' \<and> (bs = [] \<longrightarrow> n = 0 \<or> inner s = [])"
    and poll_pending: "poll n s = (PPending, s') \<Longrightarrow> inner s' = inner s"
begin

lemma timeout_read_outcome:
  "timeout_read elapsed poll n sched self = (out, sched', self') \<Longrightarrow>
    (\<forall>bs. out = ReadBytes bs \<longrightarrow> length bs \<le> n \<and> inner (tr_stream self) = bs @ inner (tr_stream self')
        \<and> (bs = [] \<longrightarrow> n = 0 \<or> inner (tr_stream self) = []))
    \<and> (out = Dropped \<longrightarrow> inner (tr_stream self') = inner (tr_stream self))"
proof (induction sched arbitrary: self)
  case (Cons t sched)
  show ?case
  proof (cases t)
    case (Some now)
    obtain r s where r: "poll n (tr_stream self) = (r, s)" by fastforce
    show ?thesis
    proof (cases r)
      case PPending
      let ?self = "snd (timeout_poll_read elapsed poll n now self)"
      have "inner (tr_stream ?self) = inner (tr_stream self)"
        using r PPending poll_pending [of n "tr_stream self" s]
        by (auto simp: timeout_poll_read_def poll_timeout_def Let_def)
      moreover have "timeout_read elapsed poll n (t # sched) self = (ReadErr IoTimedOut, sched, ?self)
          \<or> timeout_read elapsed poll n (t # sched) self = timeout_read elapsed poll n sched ?self"
        using r PPending Some by (auto simp: timeout_poll_read_def poll_timeout_def Let_def)
      ultimately show ?thesis
        using Cons.IH [of ?self] Cons.prems by auto
    qed (use Cons.prems Some r poll_ready [of n "tr_stream self"] in
        \<open>auto simp: timeout_poll_read_def\<close>)
  qed (use Cons.prems in simp)
qed simp

end

lemma timeout_byte_stream:
  assumes "polled_stream poll inner"
  shows "byte_stream (timeout_reader_rd elapsed poll) (\<lambda>(sched, self). inner (tr_stream self))"
proof
  fix n :: nat and r r' and bs :: "byte list"
  show "timeout_reader_rd elapsed poll n r = (ReadBytes bs, r') \<Longrightarrow>
      length bs \<le> n \<and> (case r of (sched, self) \<Rightarrow> inner (tr_stream self)) = bs @ (case r' of (sched, self) \<Rightarrow> inner (tr_stream self))
      \<and> (bs = [] \<longrightarrow> n = 0 \<or> (case r of (sched, self) \<Rightarrow> inner (tr_stream self)) = [])"
    using polled_stream.timeout_read_outcome [OF assms, of elapsed n "fst r" "snd r"]
    by (cases r; cases r') (auto simp: timeout_reader_rd_def)
  show "timeout_reader_rd elapsed poll n r = (Dropped, r') \<Longrightarrow>
      (case r' of (sched, self) \<Rightarrow> inner (tr_stream self)) = (case r of (sched, self) \<Rightarrow> inner (tr_stream self))"
    using polled_stream.timeout_read_outcome [OF assms, of elapsed n "fst r" "snd r"]
    by (cases r; cases r') (auto simp: timeout_reader_rd_def)
qed

section \<open>A stream to test with\<close>

text \<open>A timer that is exact, and a stream that waits for the given numbers of polls between its bytes.\<close>

interpretation exact: timer "(\<le>)" 0
  by unfold_locales simp_all

fun slow_poll :: "nat \<Rightarrow> nat list \<times> byte list \<Rightarrow> poll_read \<times> nat list \<times> byte list" where
  "slow_poll n ([], bs) = (PReady (take n bs), ([], drop n bs))"
| "slow_poll n (Suc k # ks, bs) = (PPending, (k # ks, bs))"
| "slow_poll n (0 # ks, bs) = (PReady (take (min n 1) bs), (ks, drop (min n 1) bs))"

interpretation slow: polled_stream slow_poll snd
proof
  fix n :: nat and s s' :: "nat list \<times> byte list" and bs :: "byte list"
  show "slow_poll n s = (PReady bs, s') \<Longrightarrow>
      length bs \<le> n \<and> snd s = bs @ snd s' \<and> (bs = [] \<longrightarrow> n = 0 \<or> snd s = [])"
    by (cases "(n, s)" rule: slow_poll.cases) (auto simp: min_def split: if_splits)
  show "slow_poll n s = (PPending, s') \<Longrightarrow> snd s' = snd s"
    by (cases "(n, s)" rule: slow_poll.cases) auto
qed

interpretation slow_timeout: byte_stream "timeout_reader_rd (\<le>) slow_poll" "\<lambda>(sched, self). snd (tr_stream self)"
  by (rule timeout_byte_stream) (rule slow.polled_stream_axioms)

section \<open>Properties\<close>

text \<open>
  C34. A read fails for want of data exactly when the timeout has passed: with polls at the times
  \<open>t, ...\<close> of a stream that has nothing to give, every poll before \<open>t\<close> plus the timeout is pending
  and every poll from then on, but for the granularity of the timer, fails; even if the
  future was dropped and made anew between the polls.
\<close>

theorem timeout_exact:
  assumes "timer elapsed slack" and "\<not> tr_active self" and "silent poll n (length (t # ts)) (tr_stream self)"
    and "i < length (t # ts)"
  shows "((t # ts) ! i < t + tr_timeout self \<longrightarrow> fst (poll_results elapsed poll n (t # ts) self) ! i = PPending)
    \<and> (t + tr_timeout self + slack \<le> (t # ts) ! i \<longrightarrow> fst (poll_results elapsed poll n (t # ts) self) ! i = PErr IoTimedOut)"
proof -
  have "fst (poll_results elapsed poll n (t # ts) self) ! i
      = (if elapsed (t + tr_timeout self) ((t # ts) ! i) then PErr IoTimedOut else PPending)"
    using assms(4) by (simp only: silent_polls [OF assms(2,3)] nth_map)
  then show ?thesis
    using timer.not_early [OF assms(1), of "t + tr_timeout self" "(t # ts) ! i"]
      timer.not_late [OF assms(1), of "t + tr_timeout self" "(t # ts) ! i"] by auto
qed

theorem timeout_exact_witness:
  "fst (poll_results (\<le>) slow_poll 1 [0, 4, 10] (timeout_new ([3], [7]) 10 0)) ! 1 = PPending
    \<and> fst (poll_results (\<le>) slow_poll 1 [0, 4, 10] (timeout_new ([3], [7]) 10 0)) ! 2 = PErr IoTimedOut"
  using timeout_exact [OF exact.timer_axioms, of "timeout_new ([3], [7]) 10 0" slow_poll 1 0 "[4, 10]" 1]
    timeout_exact [OF exact.timer_axioms, of "timeout_new ([3], [7]) 10 0" slow_poll 1 0 "[4, 10]" 2]
  by (simp add: timeout_new_def numeral_3_eq_3 numeral_2_eq_2)

end
