(* ===== verification/Transport.thy ===== *)
theory Transport
  imports Connection Handshake Timeout
begin

text \<open>
  \<open>PlainPacketStream\<close> (\<open>lafere/src/plain/mod.rs\<close>) and \<open>EncryptedPacketStream\<close>
  (\<open>lafere/src/encrypted/stream.rs\<close>) as a whole: a \<open>TimeoutReader\<close> around the byte stream, a packet
  receiver, the two keys, and what the background task calls of them. The byte stream and the
  clock of \<open>tokio\<close> are arguments.
\<close>

section \<open>The code\<close>

text \<open>A \<open>ByteStream\<close>: \<open>AsyncRead\<close> as it is polled, \<open>AsyncWrite\<close> as it is awaited.\<close>

record 's socket =
  so_poll_read :: "nat \<Rightarrow> 's \<Rightarrow> poll_read \<times> 's"
  so_write_all :: "byte list \<Rightarrow> 's \<Rightarrow> (io_error + unit) \<times> 's"
  so_flush :: "'s \<Rightarrow> (io_error + unit) \<times> 's"
  so_shutdown :: "'s \<Rightarrow> (io_error + unit) \<times> 's"
  so_now :: "'s \<Rightarrow> nat"
  so_elapsed :: "nat \<Rightarrow> nat \<Rightarrow> bool"

text \<open>A \<open>TimeoutReader\<close>, and the times at which the runtime will poll its reads.\<close>

type_synonym 's timed = "nat option list \<times> 's timeout_reader"

definition timed_new :: "'s socket \<Rightarrow> 's \<Rightarrow> nat \<Rightarrow> nat option list \<Rightarrow> 's timed" where
  "timed_new S stream timeout sched = (sched, timeout_new stream timeout (so_now S stream))"

definition timed_set_timeout :: "'s socket \<Rightarrow> nat \<Rightarrow> 's timed \<Rightarrow> 's timed" where
  "timed_set_timeout S timeout = (\<lambda>(sched, self). (sched, set_timeout timeout (so_now S (tr_stream self)) self))"

definition timed_read :: "'s socket \<Rightarrow> 's timed stream_reader" where
  "timed_read S = timeout_reader_rd (so_elapsed S) (so_poll_read S)"

text \<open>Writing, flushing and shutting down are passed on.\<close>

definition inner_io ::
    "('s \<Rightarrow> (io_error + unit) \<times> 's) \<Rightarrow> 's timed \<Rightarrow> (io_error + unit) \<times> 's timed" where
  "inner_io f = (\<lambda>(sched, self). case f (tr_stream self) of (r, s) \<Rightarrow> (r, sched, self\<lparr>tr_stream := s\<rparr>))"

definition timed_writer :: "'s socket \<Rightarrow> 's timed stream_writer" where
  "timed_writer S = \<lparr>sw_write_all = (\<lambda>bs. inner_io (so_write_all S bs)), sw_flush = inner_io (so_flush S)\<rparr>"

text \<open>\<open>client::Config\<close> and \<open>server::Config\<close>, which have the same fields.\<close>

record config =
  cfg_timeout :: nat
  cfg_body_limit :: u32

subsection \<open>Plain\<close>

record ('s, 'h) plain_stream =
  pl_stream :: "'s timed"
  pl_builder :: "('h, plain_bytes) packet_receiver"

definition plain_stream_new ::
    "'s socket \<Rightarrow> 'h packet_header \<Rightarrow> config \<Rightarrow> 's \<Rightarrow> nat option list \<Rightarrow> ('s, 'h) plain_stream" where
  "plain_stream_new S H cfg stream sched =
     \<lparr>pl_stream = timed_new S stream (cfg_timeout cfg) sched,
      pl_builder = receiver_new H plain_packet_bytes (cfg_body_limit cfg)\<rparr>"

definition plain_packet_stream ::
    "'s socket \<Rightarrow> 'h packet_header \<Rightarrow> ('p, 'h, plain_bytes) packet \<Rightarrow> (('s, 'h) plain_stream, 'p, 'h) packet_stream" where
  "plain_packet_stream S H P = \<lparr>
     ps_timeout = (\<lambda>self. tr_timeout (snd (pl_stream self))),
     ps_send = (\<lambda>pkt self. case plain_send P (timed_writer S) pkt (pl_stream self) of
       (r, stream) \<Rightarrow> (r, self\<lparr>pl_stream := stream\<rparr>)),
     ps_receive = (\<lambda>self. case plain_receive H P (timed_read S) (pl_builder self) (pl_stream self) of
       (r, builder, _, stream) \<Rightarrow> (r, self\<lparr>pl_builder := builder, pl_stream := stream\<rparr>)),
     ps_shutdown = (\<lambda>self. case inner_io (so_shutdown S) (pl_stream self) of
       (r, stream) \<Rightarrow> (r, self\<lparr>pl_stream := stream\<rparr>))\<rparr>"

text \<open>The closure that the background task calls with a new configuration.\<close>

definition plain_update_config :: "'s socket \<Rightarrow> config \<Rightarrow> ('s, 'h) plain_stream \<Rightarrow> ('s, 'h) plain_stream" where
  "plain_update_config S cfg stream =
     stream\<lparr>pl_stream := timed_set_timeout S (cfg_timeout cfg) (pl_stream stream),
       pl_builder := set_body_limit (cfg_body_limit cfg) (pl_builder stream)\<rparr>"

subsection \<open>Encrypted\<close>

record ('s, 'h, 'k) encrypted_stream =
  es_stream :: "'s timed"
  es_send_key :: 'k
  es_recv_key :: 'k
  es_builder :: "('h, encrypted_bytes) packet_receiver"

text \<open>\<open>read_exact\<close> is the method of \<open>AsyncReadExt\<close>, here of a \<open>TimeoutReader\<close>.\<close>

definition timed_duplex ::
    "(nat \<Rightarrow> 's timed \<Rightarrow> (io_error + byte list) \<times> 's timed) \<Rightarrow> 's socket \<Rightarrow> 's timed duplex" where
  "timed_duplex read_exact S = \<lparr>dx_read_exact = read_exact, dx_write_all = sw_write_all (timed_writer S)\<rparr>"

text \<open>The end of the functions \<open>client\<close> and \<open>server\<close>.\<close>

definition encrypted_stream_of ::
    "nat \<Rightarrow> 'h packet_header \<Rightarrow> config \<Rightarrow> (task_error + 'k handshake) outcome \<times> 'w \<times> 's timed
      \<Rightarrow> (task_error + ('s, 'h, 'k) encrypted_stream) outcome \<times> 'w" where
  "encrypted_stream_of OFFSET H cfg res =
     (case res of
        (Panic msg, w, stream) \<Rightarrow> (Panic msg, w)
      | (Returned (Inl e), w, stream) \<Rightarrow> (Returned (Inl e), w)
      | (Returned (Inr handshake), w, stream) \<Rightarrow>
          (Returned (Inr \<lparr>es_stream = stream, es_send_key = hs_send_key handshake, es_recv_key = hs_recv_key handshake,
             es_builder = receiver_new H (enc_packet_bytes OFFSET) (cfg_body_limit cfg)\<rparr>), w))"

definition encrypted_client where
  "encrypted_client OFFSET CS CR read_exact S debug H stream sign cfg sched w =
     (let stream = timed_new S stream (cfg_timeout cfg) sched
      in encrypted_stream_of OFFSET H cfg (client_handshake CS CR (timed_duplex read_exact S) debug sign w stream))"

definition encrypted_server where
  "encrypted_server OFFSET CS CR read_exact S debug H stream sign cfg sched w =
     (let stream = timed_new S stream (cfg_timeout cfg) sched
      in encrypted_stream_of OFFSET H cfg (server_handshake CS CR (timed_duplex read_exact S) debug sign w stream))"

definition encrypted_packet_stream ::
    "nat \<Rightarrow> 'k cipher_key \<Rightarrow> 's socket \<Rightarrow> 'h packet_header \<Rightarrow> ('p, 'h, encrypted_bytes) packet
      \<Rightarrow> (('s, 'h, 'k) encrypted_stream, 'p, 'h) packet_stream" where
  "encrypted_packet_stream OFFSET C S H P = \<lparr>
     ps_timeout = (\<lambda>self. tr_timeout (snd (es_stream self))),
     ps_send = (\<lambda>pkt self. case encrypted_send OFFSET C P (timed_writer S) pkt (es_send_key self) (es_stream self) of
       (r, send_key, stream) \<Rightarrow> (r, self\<lparr>es_send_key := send_key, es_stream := stream\<rparr>)),
     ps_receive = (\<lambda>self. case encrypted_receive OFFSET C H P (timed_read S) (es_builder self) (es_recv_key self) (es_stream self) of
       (r, builder, recv_key, stream) \<Rightarrow> (r, self\<lparr>es_builder := builder, es_recv_key := recv_key, es_stream := stream\<rparr>)),
     ps_shutdown = (\<lambda>self. case inner_io (so_shutdown S) (es_stream self) of
       (r, stream) \<Rightarrow> (r, self\<lparr>es_stream := stream\<rparr>))\<rparr>"

definition encrypted_update_config ::
    "'s socket \<Rightarrow> config \<Rightarrow> ('s, 'h, 'k) encrypted_stream \<Rightarrow> ('s, 'h, 'k) encrypted_stream" where
  "encrypted_update_config S cfg stream =
     stream\<lparr>es_stream := timed_set_timeout S (cfg_timeout cfg) (es_stream stream),
       es_builder := set_body_limit (cfg_body_limit cfg) (es_builder stream)\<rparr>"

section \<open>What a byte stream promises\<close>

text \<open>
  \<open>incoming\<close> is all that a stream is still to deliver, \<open>outgoing\<close> all that was written to it. A
  write that fails may have written the beginning.
\<close>

locale socket_law = polled_stream "so_poll_read S" incoming
  for S :: "'s socket" and incoming +
  fixes outgoing :: "'s \<Rightarrow> byte list"
  assumes read_outgoing: "so_poll_read S n s = (polled, s') \<Longrightarrow> outgoing s' = outgoing s"
    and written: "so_write_all S bs s = (r, s') \<Longrightarrow>
      \<exists>part lost. bs = part @ lost \<and> outgoing s' = outgoing s @ part \<and> (r = Inr () \<longrightarrow> lost = [] \<and> incoming s' = incoming s)"
    and flushed: "so_flush S s = (r, s') \<Longrightarrow> outgoing s' = outgoing s \<and> (r = Inr () \<longrightarrow> incoming s' = incoming s)"
    and shut_down: "outgoing (snd (so_shutdown S s)) = outgoing s"
begin

definition timed_in :: "'s timed \<Rightarrow> byte list" where
  "timed_in x = incoming (tr_stream (snd x))"

definition timed_out :: "'s timed \<Rightarrow> byte list" where
  "timed_out x = outgoing (tr_stream (snd x))"

lemma timed_new_io [simp]:
  "timed_in (timed_new S s t sched) = incoming s" "timed_out (timed_new S s t sched) = outgoing s"
  by (simp_all add: timed_in_def timed_out_def timed_new_def timeout_new_def)

lemma timed_set_timeout_io [simp]:
  "timed_in (timed_set_timeout S t x) = timed_in x" "timed_out (timed_set_timeout S t x) = timed_out x"
  by (simp_all add: timed_in_def timed_out_def timed_set_timeout_def set_timeout_def split: prod.split)

lemma timed_byte_stream: "byte_stream (timed_read S) timed_in"
proof -
  have "timed_in = (\<lambda>(sched, self). incoming (tr_stream self))"
    by (simp add: fun_eq_iff timed_in_def)
  with timeout_byte_stream [OF polled_stream_axioms, of "so_elapsed S"] show ?thesis
    by (simp only: timed_read_def)
qed

lemma timeout_read_outgoing:
  "timeout_read el (so_poll_read S) n sched self = (out, sched', self')
    \<Longrightarrow> outgoing (tr_stream self') = outgoing (tr_stream self)"
proof (induction sched arbitrary: self)
  case (Cons t sched)
  show ?case
  proof (cases t)
    case (Some now)
    obtain r self1 where step: "timeout_poll_read el (so_poll_read S) n now self = (r, self1)" by fastforce
    then have "outgoing (tr_stream self1) = outgoing (tr_stream self)"
      using read_outgoing [of n "tr_stream self"]
      by (auto simp: timeout_poll_read_def poll_timeout_def Let_def split: prod.splits poll_read.splits if_splits)
    with step Some Cons show ?thesis by (cases r) auto
  qed (use Cons in simp)
qed simp

lemma timed_read_outgoing: "timed_read S n r = (out, r') \<Longrightarrow> timed_out r' = timed_out r"
  using timeout_read_outgoing [of "so_elapsed S" n "fst r" "snd r"]
  by (cases r; cases r') (auto simp: timed_read_def timeout_reader_rd_def timed_out_def)

lemma timed_write:
  "sw_write_all (timed_writer S) bs x = (r, x') \<Longrightarrow>
    \<exists>part lost. bs = part @ lost \<and> timed_out x' = timed_out x @ part \<and> (r = Inr () \<longrightarrow> lost = [] \<and> timed_in x' = timed_in x)"
  using written [of bs "tr_stream (snd x)" r]
  by (fastforce simp: timed_writer_def inner_io_def timed_out_def timed_in_def split: prod.splits)

lemma timed_flush:
  "sw_flush (timed_writer S) x = (r, x') \<Longrightarrow> timed_out x' = timed_out x \<and> (r = Inr () \<longrightarrow> timed_in x' = timed_in x)"
  using flushed [of "tr_stream (snd x)"]
  by (auto simp: timed_writer_def inner_io_def timed_out_def timed_in_def split: prod.splits)

text \<open>\<open>write_all\<close> and \<open>flush\<close>, as both streams send a packet.\<close>

lemma timed_send:
  assumes "(case sw_write_all (timed_writer S) bs x of (Inl e, x) \<Rightarrow> (Inl e, x) | (Inr u, x) \<Rightarrow> sw_flush (timed_writer S) x) = (r, x')"
  shows "\<exists>part lost. bs = part @ lost \<and> timed_out x' = timed_out x @ part \<and> (r = Inr () \<longrightarrow> lost = [] \<and> timed_in x' = timed_in x)"
proof (cases "sw_write_all (timed_writer S) bs x" rule: prod.exhaust)
  case (Pair r1 x1)
  from timed_write [OF this] obtain part lost where
    "bs = part @ lost" "timed_out x1 = timed_out x @ part" "r1 = Inr () \<longrightarrow> lost = [] \<and> timed_in x1 = timed_in x"
    by blast
  with assms Pair timed_flush [of x1 r x'] show ?thesis
    by (cases r1) auto
qed

end

section \<open>A byte stream to test with\<close>

text \<open>It waits for the given numbers of polls between its bytes, and keeps what is written.\<close>

definition test_socket :: "((nat list \<times> byte list) \<times> byte list) socket" where
  "test_socket = \<lparr>
     so_poll_read = (\<lambda>n (inbox, outbox). case slow_poll n inbox of (r, inbox) \<Rightarrow> (r, inbox, outbox)),
     so_write_all = (\<lambda>bs (inbox, outbox). (Inr (), inbox, outbox @ bs)),
     so_flush = (\<lambda>s. (Inr (), s)), so_shutdown = (\<lambda>s. (Inr (), s)), so_now = (\<lambda>_. 0), so_elapsed = (\<le>)\<rparr>"

interpretation test_socket: socket_law test_socket "\<lambda>s. snd (fst s)" snd
proof
  fix n and s s' :: "(nat list \<times> byte list) \<times> byte list" and bs
  show "so_poll_read test_socket n s = (PReady bs, s') \<Longrightarrow>
      length bs \<le> n \<and> snd (fst s) = bs @ snd (fst s') \<and> (bs = [] \<longrightarrow> n = 0 \<or> snd (fst s) = [])"
    using slow.poll_ready [of n "fst s" bs "fst s'"] by (auto simp: test_socket_def split: prod.splits)
  show "so_poll_read test_socket n s = (PPending, s') \<Longrightarrow> snd (fst s') = snd (fst s)"
    using slow.poll_pending [of n "fst s" "fst s'"] by (auto simp: test_socket_def split: prod.splits)
qed (auto simp: test_socket_def split: prod.splits)

end
