(* ===== verification/Watch.thy ===== *)
theory Watch
  imports Prelude
begin

text \<open>
  \<open>lafere/src/util/watch.rs\<close>: a channel that holds one value, by which a connection learns of a
  new configuration. Senders and the receiver run in parallel; a step is one access to what
  they share. \<open>RwLock\<close> is the holder of the write lock, \<open>Notify\<close> of \<open>tokio\<close> is an argument. The
  counters are natural numbers: they would wrap around after \<open>2 ^ 64\<close> calls of \<open>send\<close>.
\<close>

section \<open>Notifications\<close>

text \<open>\<open>'tk\<close> is the future \<open>Notified\<close>, \<open>nf_woken\<close> whether it is complete.\<close>

record ('nf, 'tk) notify =
  nf_new :: 'nf
  nf_notified :: "'nf \<Rightarrow> 'tk \<times> 'nf"
  nf_notify_waiters :: "'nf \<Rightarrow> 'nf"
  nf_woken :: "'tk \<Rightarrow> 'nf \<Rightarrow> bool"

text \<open>As documented, \<open>notify_waiters\<close> wakes every future that exists, polled or not.\<close>

locale notifications =
  fixes N :: "('nf, 'tk) notify" and issued :: "'tk \<Rightarrow> 'nf \<Rightarrow> bool"
  assumes notified_issued: "nf_notified N f = (tk, f') \<Longrightarrow> issued tk f'"
    and issued_wakes: "issued tk f \<Longrightarrow> issued tk (nf_notify_waiters N f) \<and> nf_woken N tk (nf_notify_waiters N f)"

section \<open>The code\<close>

text \<open>
  Where a sender is: it has written the value, increased the version, released the lock; as the
  last one it has still to notify when it is dropped.
\<close>

datatype sender_pc = SGone | SReady | SWritten | SBumped | SUnlocked | SLast

text \<open>
  Where \<open>recv\<close> is: it has not been called, has its notification, has seen a new version, has seen
  none, waits, or has returned.
\<close>

datatype ('a, 'tk) recv_pc =
  RIdle | RNotified 'tk | RChanged | RSame 'tk | RWait 'tk | RDone "'a option"

text \<open>\<open>wt_seen\<close> is the last value that \<open>recv\<close> has returned.\<close>

record ('a, 'nf, 'tk) watch =
  wt_data :: 'a
  wt_version :: nat
  wt_tx_count :: nat
  wt_notify :: 'nf
  wt_lock :: "nat option"
  wt_senders :: "nat \<Rightarrow> sender_pc"
  wt_rx_version :: nat
  wt_rx :: "('a, 'tk) recv_pc"
  wt_seen :: "'a option"

definition channel :: "('nf, 'tk) notify \<Rightarrow> 'a \<Rightarrow> ('a, 'nf, 'tk) watch" where
  "channel N d = \<lparr>wt_data = d, wt_version = 1, wt_tx_count = 1, wt_notify = nf_new N, wt_lock = None,
     wt_senders = (\<lambda>_. SGone)(0 := SReady), wt_rx_version = 0, wt_rx = RIdle, wt_seen = None\<rparr>"

definition at_sender :: "nat \<Rightarrow> sender_pc \<Rightarrow> ('a, 'nf, 'tk) watch \<Rightarrow> ('a, 'nf, 'tk) watch" where
  "at_sender i pc w = w\<lparr>wt_senders := (wt_senders w)(i := pc)\<rparr>"

text \<open>\<open>Sender::send\<close>, in its order.\<close>

definition send_write :: "nat \<Rightarrow> 'a \<Rightarrow> ('a, 'nf, 'tk) watch \<Rightarrow> ('a, 'nf, 'tk) watch" where
  "send_write i d w = at_sender i SWritten (w\<lparr>wt_data := d, wt_lock := Some i\<rparr>)"

definition send_bump :: "nat \<Rightarrow> ('a, 'nf, 'tk) watch \<Rightarrow> ('a, 'nf, 'tk) watch" where
  "send_bump i w = at_sender i SBumped (w\<lparr>wt_version := wt_version w + 1\<rparr>)"

definition send_unlock :: "nat \<Rightarrow> ('a, 'nf, 'tk) watch \<Rightarrow> ('a, 'nf, 'tk) watch" where
  "send_unlock i w = at_sender i SUnlocked (w\<lparr>wt_lock := None\<rparr>)"

definition send_notify :: "('nf, 'tk) notify \<Rightarrow> nat \<Rightarrow> ('a, 'nf, 'tk) watch \<Rightarrow> ('a, 'nf, 'tk) watch" where
  "send_notify N i w = at_sender i SReady (w\<lparr>wt_notify := nf_notify_waiters N (wt_notify w)\<rparr>)"

definition sender_clone :: "nat \<Rightarrow> ('a, 'nf, 'tk) watch \<Rightarrow> ('a, 'nf, 'tk) watch" where
  "sender_clone j w = at_sender j SReady (w\<lparr>wt_tx_count := wt_tx_count w + 1\<rparr>)"

definition sender_drop :: "nat \<Rightarrow> ('a, 'nf, 'tk) watch \<Rightarrow> ('a, 'nf, 'tk) watch" where
  "sender_drop i w =
     at_sender i (if wt_tx_count w = 1 then SLast else SGone) (w\<lparr>wt_tx_count := wt_tx_count w - 1\<rparr>)"

definition drop_notify :: "('nf, 'tk) notify \<Rightarrow> nat \<Rightarrow> ('a, 'nf, 'tk) watch \<Rightarrow> ('a, 'nf, 'tk) watch" where
  "drop_notify N i w = at_sender i SGone (w\<lparr>wt_notify := nf_notify_waiters N (wt_notify w)\<rparr>)"

text \<open>\<open>Receiver::recv\<close>.\<close>

definition recv_notified :: "('nf, 'tk) notify \<Rightarrow> ('a, 'nf, 'tk) watch \<Rightarrow> ('a, 'nf, 'tk) watch" where
  "recv_notified N w = (let (tk, f) = nf_notified N (wt_notify w) in w\<lparr>wt_notify := f, wt_rx := RNotified tk\<rparr>)"

definition recv_version :: "'tk \<Rightarrow> ('a, 'nf, 'tk) watch \<Rightarrow> ('a, 'nf, 'tk) watch" where
  "recv_version tk w =
     (if wt_rx_version w \<noteq> wt_version w then w\<lparr>wt_rx_version := wt_version w, wt_rx := RChanged\<rparr>
      else w\<lparr>wt_rx := RSame tk\<rparr>)"

definition recv_read :: "('a, 'nf, 'tk) watch \<Rightarrow> ('a, 'nf, 'tk) watch" where
  "recv_read w = w\<lparr>wt_rx := RDone (Some (wt_data w)), wt_seen := Some (wt_data w)\<rparr>"

definition recv_tx_count :: "'tk \<Rightarrow> ('a, 'nf, 'tk) watch \<Rightarrow> ('a, 'nf, 'tk) watch" where
  "recv_tx_count tk w = (if wt_tx_count w = 0 then w\<lparr>wt_rx := RDone None\<rparr> else w\<lparr>wt_rx := RWait tk\<rparr>)"

text \<open>\<open>newest\<close> of both ends waits for the lock.\<close>

definition newest :: "('a, 'nf, 'tk) watch \<Rightarrow> 'a option" where
  "newest w = (if wt_lock w = None then Some (wt_data w) else None)"

inductive watch_step :: "('nf, 'tk) notify \<Rightarrow> ('a, 'nf, 'tk) watch \<Rightarrow> ('a, 'nf, 'tk) watch \<Rightarrow> bool" for N where
  "wt_senders w i = SReady \<Longrightarrow> wt_lock w = None \<Longrightarrow> watch_step N w (send_write i d w)"
| "wt_senders w i = SWritten \<Longrightarrow> watch_step N w (send_bump i w)"
| "wt_senders w i = SBumped \<Longrightarrow> watch_step N w (send_unlock i w)"
| "wt_senders w i = SUnlocked \<Longrightarrow> watch_step N w (send_notify N i w)"
| "wt_senders w i = SReady \<Longrightarrow> wt_senders w j = SGone \<Longrightarrow> watch_step N w (sender_clone j w)"
| "wt_senders w i = SReady \<Longrightarrow> watch_step N w (sender_drop i w)"
| "wt_senders w i = SLast \<Longrightarrow> watch_step N w (drop_notify N i w)"
| "wt_rx w = RIdle \<or> (\<exists>r. wt_rx w = RDone r) \<Longrightarrow> watch_step N w (recv_notified N w)"
| "wt_rx w = RNotified tk \<Longrightarrow> watch_step N w (recv_version tk w)"
| "wt_rx w = RChanged \<Longrightarrow> wt_lock w = None \<Longrightarrow> watch_step N w (recv_read w)"
| "wt_rx w = RSame tk \<Longrightarrow> watch_step N w (recv_tx_count tk w)"
| "wt_rx w = RWait tk \<Longrightarrow> nf_woken N tk (wt_notify w) \<Longrightarrow> watch_step N w (recv_notified N w)"
| "wt_rx w = RWait tk \<Longrightarrow> watch_step N w (w\<lparr>wt_rx := RIdle\<rparr>)"

text \<open>The last rule is a \<open>recv\<close> whose future is dropped while it waits.\<close>

section \<open>What always holds\<close>

fun alive :: "sender_pc \<Rightarrow> bool" where
  "alive SGone = False"
| "alive SLast = False"
| "alive _ = True"

definition live :: "(nat \<Rightarrow> sender_pc) \<Rightarrow> nat set" where
  "live s = {i. alive (s i)}"

definition some_at :: "sender_pc set \<Rightarrow> (nat \<Rightarrow> sender_pc) \<Rightarrow> bool" where
  "some_at Q s \<longleftrightarrow> (\<exists>i. s i \<in> Q)"

text \<open>A token of \<open>recv\<close> that has looked at the version, or also at the number of senders.\<close>

fun looked :: "('a, 'tk) recv_pc \<Rightarrow> 'tk option" where
  "looked (RSame tk) = Some tk"
| "looked (RWait tk) = Some tk"
| "looked _ = None"

fun token :: "('a, 'tk) recv_pc \<Rightarrow> 'tk option" where
  "token (RNotified tk) = Some tk"
| "token pc = looked pc"

text \<open>Who holds the lock, and how many senders there are.\<close>

definition senders_ok :: "('a, 'nf, 'tk) watch \<Rightarrow> bool" where
  "senders_ok w \<longleftrightarrow> (\<forall>i. wt_lock w = Some i \<longleftrightarrow> wt_senders w i \<in> {SWritten, SBumped})
     \<and> finite (live (wt_senders w)) \<and> wt_tx_count w = card (live (wt_senders w))"

text \<open>A receiver that is up to date has returned the value.\<close>

definition seen_ok :: "('a, 'nf, 'tk) watch \<Rightarrow> bool" where
  "seen_ok w \<longleftrightarrow> wt_rx_version w \<le> wt_version w
     \<and> (wt_rx_version w = wt_version w \<and> wt_rx w \<noteq> RChanged \<and> \<not> some_at {SWritten} (wt_senders w)
        \<longrightarrow> wt_seen w = Some (wt_data w))"

text \<open>Who has not been woken has nothing to be woken for, or will be.\<close>

definition wake_ok :: "('nf, 'tk) notify \<Rightarrow> ('tk \<Rightarrow> 'nf \<Rightarrow> bool) \<Rightarrow> ('a, 'nf, 'tk) watch \<Rightarrow> bool" where
  "wake_ok N issued w \<longleftrightarrow>
     (\<forall>tk. token (wt_rx w) = Some tk \<longrightarrow> issued tk (wt_notify w))
   \<and> (\<forall>tk. looked (wt_rx w) = Some tk \<longrightarrow> \<not> nf_woken N tk (wt_notify w) \<longrightarrow>
        wt_rx_version w = wt_version w \<or> some_at {SBumped, SUnlocked} (wt_senders w))
   \<and> (\<forall>tk. wt_rx w = RWait tk \<longrightarrow> \<not> nf_woken N tk (wt_notify w) \<longrightarrow>
        wt_tx_count w \<noteq> 0 \<or> some_at {SLast} (wt_senders w))"

lemmas watch_ops = at_sender_def send_write_def send_bump_def send_unlock_def send_notify_def sender_clone_def
  sender_drop_def drop_notify_def recv_notified_def recv_version_def recv_read_def recv_tx_count_def

lemma live_update [simp]:
  "alive pc \<Longrightarrow> live (s(i := pc)) = insert i (live s)"
  "\<not> alive pc \<Longrightarrow> live (s(i := pc)) = live s - {i}"
  by (auto simp: live_def)

lemma some_at_update [simp]:
  "pc \<in> Q \<Longrightarrow> some_at Q (s(i := pc))"
  "pc \<notin> Q \<Longrightarrow> s i \<notin> Q \<Longrightarrow> some_at Q (s(i := pc)) = some_at Q s"
  by (auto simp: some_at_def)

lemma mem_live [simp]: "i \<in> live s \<longleftrightarrow> alive (s i)"
  by (simp add: live_def)

lemma one_writer:
  assumes "senders_ok w" and "wt_senders w i \<in> {SWritten, SBumped}" and "wt_senders w j \<in> {SWritten, SBumped}"
  shows "i = j"
proof -
  from assms have "wt_lock w = Some i" "wt_lock w = Some j" by (simp_all add: senders_ok_def)
  then show ?thesis by simp
qed

lemma senders_ok_step: "watch_step N w w' \<Longrightarrow> senders_ok w \<Longrightarrow> senders_ok w'"
proof (induction rule: watch_step.induct)
  case (3 w i)
  with one_writer [of w i] show ?case
    by (auto simp: senders_ok_def watch_ops insert_absorb)
qed (auto simp: senders_ok_def watch_ops Let_def insert_absorb card_insert_if split: prod.split)

lemma seen_ok_step: "watch_step N w w' \<Longrightarrow> senders_ok w \<Longrightarrow> seen_ok w \<Longrightarrow> seen_ok w'"
proof (induction rule: watch_step.induct)
qed (auto simp: seen_ok_def senders_ok_def watch_ops Let_def split: prod.split if_splits)

lemma looked_token: "looked pc = Some tk \<Longrightarrow> token pc = Some tk"
  by (cases pc) simp_all

lemma live_pos: "senders_ok w \<Longrightarrow> alive (wt_senders w i) \<Longrightarrow> 0 < wt_tx_count w"
  by (auto simp: senders_ok_def card_gt_0_iff simp flip: mem_live)

context notifications
begin

lemma wake_ok_step:
  "watch_step N w w' \<Longrightarrow> senders_ok w \<Longrightarrow> wake_ok N issued w \<Longrightarrow> wake_ok N issued w'"
proof (induction rule: watch_step.induct)
  case (6 w i)
  with live_pos [of w i] show ?case
    by (auto simp: wake_ok_def watch_ops)
qed (auto simp: wake_ok_def watch_ops Let_def dest: issued_wakes notified_issued looked_token
    split: prod.split if_splits)

lemma watch_invariant:
  assumes "(watch_step N)\<^sup>*\<^sup>* (channel N d) w"
  shows "senders_ok w \<and> seen_ok w \<and> wake_ok N issued w"
  using assms
proof (induction rule: rtranclp_induct)
  case base
  have "live (\<lambda>_. SGone) = {}" by (simp add: live_def)
  then show ?case
    by (simp add: channel_def senders_ok_def seen_ok_def wake_ok_def)
next
  case (step w w')
  then show ?case using senders_ok_step seen_ok_step wake_ok_step by blast
qed

end

section \<open>A notification that counts\<close>

definition counting :: "(nat, nat) notify" where
  "counting = \<lparr>nf_new = 0, nf_notified = (\<lambda>n. (n, n)), nf_notify_waiters = Suc, nf_woken = (\<lambda>tk n. tk < n)\<rparr>"

interpretation counting: notifications counting "(\<le>)"
  by unfold_locales (simp_all add: counting_def)

section \<open>Two runs\<close>

text \<open>The receiver has returned the first value, and found no newer one when it was called again.\<close>

definition caught_up :: "(bool, nat, nat) watch" where
  "caught_up = (recv_version 0 \<circ> recv_notified counting \<circ> recv_read \<circ> recv_version 0
     \<circ> recv_notified counting) (channel counting False)"

text \<open>It goes on to wait; or the only sender sends and is dropped before.\<close>

definition waiting :: "(bool, nat, nat) watch" where
  "waiting = recv_tx_count 0 caught_up"

definition last_moment :: "(bool, nat, nat) watch" where
  "last_moment = (recv_tx_count 0 \<circ> drop_notify counting 0 \<circ> sender_drop 0 \<circ> send_notify counting 0
     \<circ> send_unlock 0 \<circ> send_bump 0 \<circ> send_write 0 True) caught_up"

lemmas evaluate = watch_ops channel_def counting_def caught_up_def Let_def

lemma caught_up_reached: "(watch_step counting)\<^sup>*\<^sup>* (channel counting False) caught_up"
proof -
  let ?R = "(watch_step counting)\<^sup>*\<^sup>* (channel counting False)"
  note more = rtranclp.rtrancl_into_rtrancl [of "watch_step counting" "channel counting False"]
  let ?w1 = "recv_notified counting (channel counting False)"
  let ?w2 = "recv_version 0 ?w1"
  let ?w3 = "recv_read ?w2"
  let ?w4 = "recv_notified counting ?w3"
  let ?w5 = "recv_version 0 ?w4"
  have r1: "?R ?w1"
    by (rule more [OF rtranclp.rtrancl_refl watch_step.intros(8)]) (simp_all add: evaluate)
  have r2: "?R ?w2"
    by (rule more [OF r1 watch_step.intros(9)]) (simp_all add: evaluate)
  have r3: "?R ?w3"
    by (rule more [OF r2 watch_step.intros(10)]) (simp_all add: evaluate)
  have r4: "?R ?w4"
    by (rule more [OF r3 watch_step.intros(8)]) (simp_all add: evaluate)
  have r5: "?R ?w5"
    by (rule more [OF r4 watch_step.intros(9)]) (simp_all add: evaluate)
  from r5 show ?thesis by (simp add: caught_up_def)
qed

lemma last_moment_reached: "(watch_step counting)\<^sup>*\<^sup>* (channel counting False) last_moment"
proof -
  let ?R = "(watch_step counting)\<^sup>*\<^sup>* (channel counting False)"
  note more = rtranclp.rtrancl_into_rtrancl [of "watch_step counting" "channel counting False"]
  let ?w1 = "send_write 0 True caught_up"
  let ?w2 = "send_bump 0 ?w1"
  let ?w3 = "send_unlock 0 ?w2"
  let ?w4 = "send_notify counting 0 ?w3"
  let ?w5 = "sender_drop 0 ?w4"
  let ?w6 = "drop_notify counting 0 ?w5"
  let ?w7 = "recv_tx_count 0 ?w6"
  have r1: "?R ?w1"
    by (rule more [OF caught_up_reached watch_step.intros(1)]) (simp_all add: evaluate)
  have r2: "?R ?w2"
    by (rule more [OF r1 watch_step.intros(2)]) (simp_all add: evaluate)
  have r3: "?R ?w3"
    by (rule more [OF r2 watch_step.intros(3)]) (simp_all add: evaluate)
  have r4: "?R ?w4"
    by (rule more [OF r3 watch_step.intros(4)]) (simp_all add: evaluate)
  have r5: "?R ?w5"
    by (rule more [OF r4 watch_step.intros(6)]) (simp_all add: evaluate)
  have r6: "?R ?w6"
    by (rule more [OF r5 watch_step.intros(7)]) (simp_all add: evaluate)
  have r7: "?R ?w7"
    by (rule more [OF r6 watch_step.intros(11)]) (simp_all add: evaluate)
  from r7 show ?thesis by (simp add: last_moment_def)
qed

section \<open>Properties\<close>

text \<open>
  C18. No update and no wake-up is lost: a receiver that sleeps, without a wake-up on the way, while
  no sender is in the middle of \<open>send\<close> or of being dropped, has returned the newest value, and
  there is still a sender that can wake it.
\<close>

theorem no_lost_wakeup:
  assumes "notifications N issued" and "(watch_step N)\<^sup>*\<^sup>* (channel N d) w"
    and "wt_rx w = RWait tk" and "\<not> nf_woken N tk (wt_notify w)"
    and "\<And>i. wt_senders w i \<in> {SGone, SReady}"
  shows "wt_seen w = newest w \<and> (\<exists>i. wt_senders w i = SReady)"
proof -
  have inv: "senders_ok w" "seen_ok w" "wake_ok N issued w"
    using notifications.watch_invariant [OF assms(1,2)] by simp_all
  have none: "\<not> some_at Q (wt_senders w)" if "SGone \<notin> Q" "SReady \<notin> Q" for Q
    using assms(5) that by (metis some_at_def insertE singletonD)
  have "wt_lock w = None"
  proof (cases "wt_lock w")
    case (Some i)
    with inv(1) have "wt_senders w i \<in> {SWritten, SBumped}" unfolding senders_ok_def by blast
    with assms(5) [of i] show ?thesis by auto
  qed
  moreover have "wt_rx_version w = wt_version w" "wt_tx_count w \<noteq> 0"
    using inv(3) assms(3,4) none by (auto simp: wake_ok_def)
  moreover from this inv(1) have "live (wt_senders w) \<noteq> {}"
    by (auto simp: senders_ok_def)
  then obtain i where "alive (wt_senders w i)" by (auto simp: live_def)
  then have "wt_senders w i = SReady" using assms(5) [of i] by auto
  ultimately show ?thesis
    using inv(2) none assms(3) by (auto simp: seen_ok_def newest_def)
qed

text \<open>
  C35. \<open>None\<close> does not mean that everything was received: if a sender sends and is dropped between
  the two checks of \<open>recv\<close>, it returns \<open>None\<close> although there is a value it has not returned.
\<close>

theorem none_before_last_value:
  "(watch_step counting)\<^sup>*\<^sup>* (channel counting False) last_moment \<and> wt_rx last_moment = RDone None
    \<and> wt_seen last_moment = Some False \<and> newest last_moment = Some True"
  using last_moment_reached by (simp add: last_moment_def newest_def evaluate)

theorem no_lost_wakeup_witness:
  "wt_seen waiting = newest waiting \<and> (\<exists>i. wt_senders waiting i = SReady)"
proof (rule no_lost_wakeup [OF counting.notifications_axioms])
  show "(watch_step counting)\<^sup>*\<^sup>* (channel counting False) waiting"
    unfolding waiting_def
    by (rule rtranclp.rtrancl_into_rtrancl [OF caught_up_reached watch_step.intros(11)]) (simp add: evaluate)
  show "wt_rx waiting = RWait 0" "\<not> nf_woken counting 0 (wt_notify waiting)"
    "\<And>i. wt_senders waiting i \<in> {SGone, SReady}"
    by (simp_all add: waiting_def evaluate)
qed

end
