(* ===== verification/Endpoints.thy ===== *)
theory Endpoints
  imports Handler Watch
begin

text \<open>
  The users' side of a connection: \<open>lafere/src/handler/sender.rs\<close>, \<open>receiver.rs\<close> and \<open>mod.rs\<close>, and
  \<open>Connection\<close> of \<open>lafere/src/client.rs\<close> and \<open>lafere/src/server.rs\<close>. The other ends of the channels
  belong to the handler.
\<close>

section \<open>Channels\<close>

text \<open>
  What the users call of \<open>tokio\<close>. An operation that is awaited is \<open>Cancelled\<close> if its future is
  dropped. \<open>ch_requests_send\<close>, \<open>ch_stream_send\<close> tell whether there is a receiver, \<open>ch_response\<close>
  gives \<open>None\<close> if the sender is gone, and \<open>ch_join\<close> \<open>Inl ()\<close> for a \<open>JoinError\<close>.
\<close>

record ('st, 'p) channels =
  ch_oneshot :: "'st \<Rightarrow> chan \<times> 'st"
  ch_response :: "chan \<Rightarrow> 'st \<Rightarrow> (request_error + 'p) option polled \<times> 'st"
  ch_mpsc :: "nat \<Rightarrow> 'st \<Rightarrow> chan \<times> 'st"
  ch_requests_send :: "'p internal_request \<Rightarrow> 'st \<Rightarrow> bool polled \<times> 'st"
  ch_requests_is_closed :: "'st \<Rightarrow> bool"
  ch_requests_closed :: "'st \<Rightarrow> unit polled \<times> 'st"
  ch_recv :: "'st \<Rightarrow> 'p user_request option polled \<times> 'st"
  ch_recv_is_closed :: "'st \<Rightarrow> bool"
  ch_stream_send :: "chan \<Rightarrow> 'p \<Rightarrow> 'st \<Rightarrow> bool polled \<times> 'st"
  ch_stream_recv :: "chan \<Rightarrow> 'st \<Rightarrow> 'p option polled \<times> 'st"
  ch_stream_close :: "chan \<Rightarrow> 'st \<Rightarrow> 'st"
  ch_close_send :: "'st \<Rightarrow> 'st"
  ch_close_closed :: "'st \<Rightarrow> unit polled \<times> 'st"
  ch_join :: "'st \<Rightarrow> (unit + (task_error + unit)) polled \<times> 'st"

text \<open>\<open>f.await\<close>, and then the rest of the function.\<close>

definition await ::
    "('st \<Rightarrow> 'a polled \<times> 'st) \<Rightarrow> ('a \<Rightarrow> 'st \<Rightarrow> 'b polled \<times> 'st) \<Rightarrow> 'st \<Rightarrow> 'b polled \<times> 'st" where
  "await f g st =
     (case f st of
        (Ready x, st) \<Rightarrow> g x st
      | (Cancelled, st) \<Rightarrow> (Cancelled, st)
      | (Panicked, st) \<Rightarrow> (Panicked, st))"

lemma await_simps:
  "f st = (Ready x, st') \<Longrightarrow> await f g st = g x st'"
  "f st = (Cancelled, st') \<Longrightarrow> await f g st = (Cancelled, st')"
  "f st = (Panicked, st') \<Longrightarrow> await f g st = (Panicked, st')"
  by (simp_all add: await_def)

section \<open>Streams, tasks and configurations\<close>

datatype stream_error = StreamAlreadyClosed

definition stream_sender_send :: "('st, 'p) channels \<Rightarrow> chan \<Rightarrow> 'p \<Rightarrow> 'st \<Rightarrow> (stream_error + unit) polled \<times> 'st" where
  "stream_sender_send C inner packet =
     await (ch_stream_send C inner packet) (\<lambda>sent st.
       (Ready (if sent then Inr () else Inl StreamAlreadyClosed), st))"

definition stream_receiver_receive :: "('st, 'p) channels \<Rightarrow> chan \<Rightarrow> 'st \<Rightarrow> 'p option polled \<times> 'st" where
  "stream_receiver_receive C inner = ch_stream_recv C inner"

definition stream_receiver_close :: "('st, 'p) channels \<Rightarrow> chan \<Rightarrow> 'st \<Rightarrow> 'st" where
  "stream_receiver_close C inner = ch_stream_close C inner"

definition task_closed :: "('st, 'p) channels \<Rightarrow> 'st \<Rightarrow> unit polled \<times> 'st" where
  "task_closed C = ch_close_closed C"

definition task_wait :: "('st, 'p) channels \<Rightarrow> 'st \<Rightarrow> (task_error + unit) polled \<times> 'st" where
  "task_wait C = await (ch_join C) (\<lambda>r st. (Ready (case r of Inl _ \<Rightarrow> Inl TaskJoin | Inr res \<Rightarrow> res), st))"

definition task_close :: "('st, 'p) channels \<Rightarrow> 'st \<Rightarrow> (task_error + unit) polled \<times> 'st" where
  "task_close C st =
     (let st = ch_close_send C st
      in await (ch_join C) (\<lambda>r st. (Ready (case r of Inl _ \<Rightarrow> Inl TaskJoin | Inr res \<Rightarrow> res), st)) st)"

text \<open>A \<open>Configurator\<close> is sender \<open>i\<close> of the watch channel; here its call has the channel for itself.\<close>

definition configurator_new :: "('nf, 'tk) notify \<Rightarrow> 'c \<Rightarrow> ('c, 'nf, 'tk) watch" where
  "configurator_new N cfg = channel N cfg"

definition configurator_update ::
    "('nf, 'tk) notify \<Rightarrow> nat \<Rightarrow> 'c \<Rightarrow> ('c, 'nf, 'tk) watch \<Rightarrow> ('c, 'nf, 'tk) watch" where
  "configurator_update N i cfg w = send_notify N i (send_unlock i (send_bump i (send_write i cfg w)))"

definition configurator_read :: "('c, 'nf, 'tk) watch \<Rightarrow> 'c option" where
  "configurator_read w = newest w"

section \<open>Sender and receiver\<close>

definition sender_enable_server_requests ::
    "('st, 'p) channels \<Rightarrow> 'st \<Rightarrow> (request_error + unit) polled \<times> 'st" where
  "sender_enable_server_requests C =
     await (ch_requests_send C IEnableServerRequests) (\<lambda>sent st.
       (Ready (if sent then Inr () else Inl ConnectionAlreadyClosed), st))"

definition sender_request :: "('st, 'p) channels \<Rightarrow> 'p \<Rightarrow> 'st \<Rightarrow> (request_error + 'p) polled \<times> 'st" where
  "sender_request C packet st =
     (let (c, st) = ch_oneshot C st
      in await (ch_requests_send C (IRequest packet c)) (\<lambda>sent st.
           if \<not> sent then (Ready (Inl ConnectionAlreadyClosed), st)
           else await (ch_response C c) (\<lambda>r st.
             (Ready (case r of None \<Rightarrow> Inl TaskFailed | Some res \<Rightarrow> res), st)) st) st)"

definition sender_request_sender :: "('st, 'p) channels \<Rightarrow> 'p \<Rightarrow> 'st \<Rightarrow> (request_error + chan) polled \<times> 'st" where
  "sender_request_sender C packet st =
     (let (c, st) = ch_mpsc C 10 st
      in await (ch_requests_send C (IRequestSender packet c)) (\<lambda>sent st.
           (Ready (if sent then Inr c else Inl ConnectionAlreadyClosed), st)) st)"

definition sender_request_receiver :: "('st, 'p) channels \<Rightarrow> 'p \<Rightarrow> 'st \<Rightarrow> (request_error + chan) polled \<times> 'st" where
  "sender_request_receiver C packet st =
     (let (c, st) = ch_mpsc C 10 st
      in await (ch_requests_send C (IRequestReceiver packet c)) (\<lambda>sent st.
           (Ready (if sent then Inr c else Inl ConnectionAlreadyClosed), st)) st)"

definition sender_is_closed :: "('st, 'p) channels \<Rightarrow> 'st \<Rightarrow> bool" where
  "sender_is_closed C = ch_requests_is_closed C"

definition sender_closed :: "('st, 'p) channels \<Rightarrow> 'st \<Rightarrow> unit polled \<times> 'st" where
  "sender_closed C = ch_requests_closed C"

definition receiver_receive :: "('st, 'p) channels \<Rightarrow> 'st \<Rightarrow> 'p user_request option polled \<times> 'st" where
  "receiver_receive C = ch_recv C"

definition receiver_is_closed :: "('st, 'p) channels \<Rightarrow> 'st \<Rightarrow> bool" where
  "receiver_is_closed C = ch_recv_is_closed C"

section \<open>The connection of a client\<close>

text \<open>
  The handles \<open>sender\<close>, \<open>config\<close> and \<open>task\<close> never change; \<open>cc_receiver\<close> is whether the receiver has
  not been taken.
\<close>

record client_connection =
  cc_receiver :: bool
  cc_receiver_enabled :: bool

definition client_new_raw :: client_connection where
  "client_new_raw = \<lparr>cc_receiver = True, cc_receiver_enabled = False\<rparr>"

definition client_enable_server_requests ::
    "('st, 'p) channels \<Rightarrow> client_connection \<Rightarrow> 'st
      \<Rightarrow> (request_error + unit) polled \<times> client_connection \<times> 'st" where
  "client_enable_server_requests C con st =
     (case sender_enable_server_requests C st of
        (Ready (Inr _), st) \<Rightarrow> (Ready (Inr ()), con\<lparr>cc_receiver_enabled := True\<rparr>, st)
      | (res, st) \<Rightarrow> (res, con, st))"

definition client_is_server_requests_enabled :: "client_connection \<Rightarrow> bool" where
  "client_is_server_requests_enabled con = cc_receiver_enabled con"

text \<open>Whether there was a receiver to take.\<close>

definition client_take_receiver :: "client_connection \<Rightarrow> (bool \<times> client_connection) outcome" where
  "client_take_receiver con =
     (if \<not> cc_receiver_enabled con then Panic ''assertion failed: self.receiver_enabled''
      else Returned (cc_receiver con, con\<lparr>cc_receiver := False\<rparr>))"

definition client_receive ::
    "('st, 'p) channels \<Rightarrow> client_connection \<Rightarrow> 'st \<Rightarrow> 'p user_request option polled \<times> 'st" where
  "client_receive C con st =
     (if \<not> cc_receiver_enabled con then (Panicked, st)
      else if \<not> cc_receiver con then (Panicked, st)
      else receiver_receive C st)"

definition client_con_request ::
    "('st, 'p) channels \<Rightarrow> client_connection \<Rightarrow> 'p \<Rightarrow> 'st \<Rightarrow> (request_error + 'p) polled \<times> 'st" where
  "client_con_request C con packet = sender_request C packet"

definition client_con_request_sender ::
    "('st, 'p) channels \<Rightarrow> client_connection \<Rightarrow> 'p \<Rightarrow> 'st \<Rightarrow> (request_error + chan) polled \<times> 'st" where
  "client_con_request_sender C con packet = sender_request_sender C packet"

definition client_con_request_receiver ::
    "('st, 'p) channels \<Rightarrow> client_connection \<Rightarrow> 'p \<Rightarrow> 'st \<Rightarrow> (request_error + chan) polled \<times> 'st" where
  "client_con_request_receiver C con packet = sender_request_receiver C packet"

definition client_closed :: "('st, 'p) channels \<Rightarrow> client_connection \<Rightarrow> 'st \<Rightarrow> unit polled \<times> 'st" where
  "client_closed C con = task_closed C"

definition client_wait :: "('st, 'p) channels \<Rightarrow> client_connection \<Rightarrow> 'st \<Rightarrow> (task_error + unit) polled \<times> 'st" where
  "client_wait C con = task_wait C"

definition client_close :: "('st, 'p) channels \<Rightarrow> client_connection \<Rightarrow> 'st \<Rightarrow> (task_error + unit) polled \<times> 'st" where
  "client_close C con = task_close C"

section \<open>The connection of a server\<close>

record server_connection =
  sc_sender_enabled :: bool
  sc_receiver :: bool

definition server_new_raw :: server_connection where
  "server_new_raw = \<lparr>sc_sender_enabled = False, sc_receiver = True\<rparr>"

definition server_take_receiver :: "server_connection \<Rightarrow> bool \<times> server_connection" where
  "server_take_receiver con = (sc_receiver con, con\<lparr>sc_receiver := False\<rparr>)"

definition server_receive ::
    "('st, 'p) channels \<Rightarrow> server_connection \<Rightarrow> 'st
      \<Rightarrow> 'p user_request option polled \<times> server_connection \<times> 'st" where
  "server_receive C con st =
     (if \<not> sc_receiver con then (Panicked, con, st)
      else case receiver_receive C st of
        (Ready (Some EnableServerRequests), st) \<Rightarrow>
          (Ready (Some EnableServerRequests), con\<lparr>sc_sender_enabled := True\<rparr>, st)
      | (req, st) \<Rightarrow> (req, con, st))"

definition server_is_server_requests_enabled :: "server_connection \<Rightarrow> bool" where
  "server_is_server_requests_enabled con = sc_sender_enabled con"

definition server_clone_sender :: "server_connection \<Rightarrow> unit outcome" where
  "server_clone_sender con =
     (if sc_sender_enabled con then Returned () else Panic ''assertion failed: self.sender_enabled'')"

definition server_request ::
    "('st, 'p) channels \<Rightarrow> server_connection \<Rightarrow> 'p \<Rightarrow> 'st \<Rightarrow> (request_error + 'p) polled \<times> 'st" where
  "server_request C con packet st =
     (if \<not> sc_sender_enabled con then (Panicked, st) else sender_request C packet st)"

definition server_request_sender ::
    "('st, 'p) channels \<Rightarrow> server_connection \<Rightarrow> 'p \<Rightarrow> 'st \<Rightarrow> (request_error + chan) polled \<times> 'st" where
  "server_request_sender C con packet st =
     (if \<not> sc_sender_enabled con then (Panicked, st) else sender_request_sender C packet st)"

definition server_request_receiver ::
    "('st, 'p) channels \<Rightarrow> server_connection \<Rightarrow> 'p \<Rightarrow> 'st \<Rightarrow> (request_error + chan) polled \<times> 'st" where
  "server_request_receiver C con packet st =
     (if \<not> sc_sender_enabled con then (Panicked, st) else sender_request_receiver C packet st)"

definition server_closed :: "('st, 'p) channels \<Rightarrow> server_connection \<Rightarrow> 'st \<Rightarrow> unit polled \<times> 'st" where
  "server_closed C con = task_closed C"

definition server_close :: "('st, 'p) channels \<Rightarrow> server_connection \<Rightarrow> 'st \<Rightarrow> (task_error + unit) polled \<times> 'st" where
  "server_close C con = task_close C"

definition server_wait :: "('st, 'p) channels \<Rightarrow> server_connection \<Rightarrow> 'st \<Rightarrow> (task_error + unit) polled \<times> 'st" where
  "server_wait C con = task_wait C"

end
