(* ===== verification/Startup.thy ===== *)
theory Startup
  imports Transport Endpoints
begin

text \<open>
  How a connection is started: \<open>client\<close> and \<open>server\<close> of \<open>lafere/src/plain/mod.rs\<close> and
  \<open>lafere/src/encrypted/stream.rs\<close>. They make the handler, the channels and the configurator, and
  spawn the background task.
\<close>

section \<open>What the task runs in\<close>

text \<open>
  A world \<open>'w\<close>: the runtime's state in it, the events that the task sees, whether the close signal was
  received, the newest configuration, the orders of the handler's maps, and the times at which
  the next stream will be polled.
\<close>

record ('st, 'c, 'w) surroundings =
  sr_runtime :: "'w \<Rightarrow> 'st"
  sr_put :: "'st \<Rightarrow> 'w \<Rightarrow> 'w"
  sr_events :: "'w \<Rightarrow> ('c, 'st) bg_input list"
  sr_terminated :: "'w \<Rightarrow> bool"
  sr_newest :: "'w \<Rightarrow> 'c"
  sr_orders :: "'w \<Rightarrow> u32 list \<times> u32 list"
  sr_sched :: "'w \<Rightarrow> nat option list"

text \<open>\<open>bg_stream\<close>; without a result while its events have not ended it.\<close>

definition run_bg_stream ::
    "('ps, 'p, 'h) packet_stream \<Rightarrow> 'h packet_header \<Rightarrow> ('p, 'h, 'b) packet \<Rightarrow> ('st, 'p) tokio \<Rightarrow> ('c \<Rightarrow> 'ps \<Rightarrow> 'ps)
      \<Rightarrow> ('st, 'c, 'w) surroundings \<Rightarrow> 'ps \<Rightarrow> handler \<Rightarrow> 'w
      \<Rightarrow> ((task_error + unit) \<times> bool \<times> handler \<times> 'w) outcome option" where
  "run_bg_stream S H P T update_config E stream h w =
     (case bg_run S H P T update_config (sr_events E w) (bg_start S stream h (sr_runtime E w)) of
        Looping b \<Rightarrow> None
      | Crashed msg \<Rightarrow> Some (Panic msg)
      | Done r b \<Rightarrow>
          let w = sr_put E (bg_runtime b) w
          in Some (Returned (r, sr_terminated E w, bg_handler b, w)))"

definition run_close_all ::
    "('st, 'p) tokio \<Rightarrow> ('st, 'c, 'w) surroundings \<Rightarrow> handler \<Rightarrow> 'w \<Rightarrow> handler \<times> 'w" where
  "run_close_all T E h w =
     (case close_all_started T (sr_orders E w) h (sr_runtime E w) of (h, st) \<Rightarrow> (h, sr_put E st w))"

text \<open>What the functions return, and the task they spawn.\<close>

record ('con, 'watch, 'w) started_connection =
  st_connection :: 'con
  st_config :: 'watch
  st_task :: "'w \<Rightarrow> ((task_error + unit) \<times> handler \<times> 'w) outcome option"

section \<open>Plain connections\<close>

definition plain_reconnect where
  "plain_reconnect S H P T E recon_strat = \<lparr>
     rc_strat = recon_strat,
     rc_newest = sr_newest E,
     rc_new_stream = (\<lambda>stream cfg w. (Returned (Inr (plain_stream_new S H cfg stream (sr_sched E w))), w)),
     rc_bg = run_bg_stream (plain_packet_stream S H P) H P T (plain_update_config S) E,
     rc_close_all_started = run_close_all T E\<rparr>"

definition plain_client where
  "plain_client N S H P T E stream cfg recon_strat = \<lparr>
     st_connection = client_new_raw,
     st_config = configurator_new N cfg,
     st_task = bg_stream_reconnect (plain_reconnect S H P T E recon_strat) (Some stream) (handler_new False)\<rparr>"

definition plain_server where
  "plain_server N S H P T E stream cfg sched =
     (let stream = plain_stream_new S H cfg stream sched
      in \<lparr>st_connection = server_new_raw,
          st_config = configurator_new N cfg,
          st_task = (\<lambda>w. map_option task_result
            (run_bg_stream (plain_packet_stream S H P) H P T (plain_update_config S) E stream (handler_new True) w))\<rparr>)"

section \<open>Encrypted connections\<close>

definition encrypted_reconnect where
  "encrypted_reconnect OFFSET C CS CR read_exact debug S H P T E sign recon_strat = \<lparr>
     rc_strat = recon_strat,
     rc_newest = sr_newest E,
     rc_new_stream = (\<lambda>stream cfg w. encrypted_client OFFSET CS CR read_exact S debug H stream sign cfg (sr_sched E w) w),
     rc_bg = run_bg_stream (encrypted_packet_stream OFFSET C S H P) H P T (encrypted_update_config S) E,
     rc_close_all_started = run_close_all T E\<rparr>"

definition encrypted_client_start where
  "encrypted_client_start OFFSET C CS CR read_exact debug N S H P T E stream cfg recon_strat sign = \<lparr>
     st_connection = client_new_raw,
     st_config = configurator_new N cfg,
     st_task = bg_stream_reconnect (encrypted_reconnect OFFSET C CS CR read_exact debug S H P T E sign recon_strat)
       (Some stream) (handler_new False)\<rparr>"

definition encrypted_server_start where
  "encrypted_server_start OFFSET C CS CR read_exact debug N S H P T E stream cfg sign = \<lparr>
     st_connection = server_new_raw,
     st_config = configurator_new N cfg,
     st_task = (\<lambda>w. case encrypted_server OFFSET CS CR read_exact S debug H stream sign (sr_newest E w) (sr_sched E w) w of
         (Panic msg, w) \<Rightarrow> Some (Panic msg)
       | (Returned (Inl e), w) \<Rightarrow> Some (Returned (Inl e, handler_new True, w))
       | (Returned (Inr stream), w) \<Rightarrow> map_option task_result
           (run_bg_stream (encrypted_packet_stream OFFSET C S H P) H P T (encrypted_update_config S) E stream (handler_new True) w))\<rparr>"

end
