(* ===== verification/Handler_Props.thy ===== *)
theory Handler_Props
  imports Handler_Ids
begin

text \<open>
  Properties of the handler: its ids, the answers to its requests, the errors that end a
  connection, and what closing leaves behind.
\<close>

section \<open>Packets it makes\<close>

context packet_laws
begin

lemma stamped_header [handler_simps]:
  "ph_id H (pk_header P (stamped H P k i p)) = i"
  "flags_kind (ph_flags H (pk_header P (stamped H P k i p))) = k"
  by (simp_all add: stamped_def with_id_def with_flags_def header_update id_set flags_set_id flags_set)

text \<open>A request that was sent, and its answer.\<close>

lemma request_sent:
  assumes "start_request H P T (IRequest pkt c) h st = Returned (Some p, h', st')"
  shows "waiting_on_stream h' (ph_id H (pk_header P p)) = Some (StreamRequest c)
    \<and> flags_kind (ph_flags H (pk_header P p)) = KRequest"
  using assms
  by (auto simp: start_request_def Let_def handler_simps split: outcome.splits option.splits prod.splits if_splits)

lemma response_received:
  assumes "waiting_on_stream h i = Some (StreamRequest c)"
    and "ph_id H (pk_header P resp) = i" and "flags_kind (ph_flags H (pk_header P resp)) = KResponse"
  shows "handler_send H P T resp h st
    = (Inr SendNone, stream_remove i h, snd (tk_response_send T c (Inr resp) st))"
  using assms by (simp add: handler_send_def answer_def)

end

section \<open>Properties\<close>

text \<open>
  C8. As long as the peer uses only ids of its own half, sending never panics: an id that is
  generated is never in use. Whatever was received before, malformed or not, and whatever the
  users of the channels do.
\<close>

theorem to_send_never_panics:
  assumes "(handler_step H P T)\<^sup>*\<^sup>* (handler_new b, st) (h, st')"
  shows "\<exists>res. handler_to_send H P T user_first order h st' = Returned res"
  using to_send_ok [OF ids_ok_reachable [OF assms], of H P T user_first order st'] by blast

text \<open>
  The ids of a handler are pairwise different, and once both sides may send requests those
  of the server and those of the client never meet.
\<close>

theorem ids_never_meet:
  "distinct (take_ids n (h_state (handler_new False)))
    \<and> distinct (take_ids n (state_reset (BiServer c))) \<and> distinct (take_ids n (state_reset (BiClient c)))
    \<and> set (take_ids n (state_reset (BiServer c))) \<inter> set (take_ids m (state_reset (BiClient d))) = {}"
proof -
  have "(U32_MID :: u32) < U32_MID + 1" by (simp add: U32_MID_eq)
  then have s: "counter_ok (state_reset (BiServer c))" and k: "counter_ok (state_reset (BiClient e))" for e
    by simp_all
  have "False" if "i \<in> set (take_ids n (state_reset (BiServer c)))" "i \<in> set (take_ids m (state_reset (BiClient d)))" for i
  proof -
    have "\<not> foreign (BiServer (Some (U32_MID + 1))) i" "\<not> foreign (BiClient (Some 0)) i"
      using that take_ids_bound [OF s, of n] take_ids_bound [OF k, of m d] by auto
    then show False by simp
  qed
  then show ?thesis
    using take_ids_bound [OF s, of n] take_ids_bound [OF k, of n c] take_ids_bound [of "UniClient (Some 0)" n]
    by (auto simp: handler_new_def)
qed

text \<open>
  When \<open>send\<close> refuses a packet: a request with an id that is in use or which this side does not
  take, an answer to no request, a stream packet for a request, or an unknown kind.
\<close>

theorem handler_send_errors:
  "isl (fst (handler_send H P T pkt h st)) \<longleftrightarrow>
    (let i = ph_id H (pk_header P pkt); k = flags_kind (ph_flags H (pk_header P pkt));
         request = (\<exists>c. waiting_on_stream h i = Some (StreamRequest c))
     in k = KUnknown
      \<or> k \<in> {KRequest, KRequestReceiver, KRequestSender} \<and> \<not> can_receive_requests (h_state h)
      \<or> k \<in> {KRequest, KRequestReceiver} \<and> waiting_on_user h i \<noteq> None
      \<or> k = KRequestSender \<and> waiting_on_stream h i \<noteq> None
      \<or> k \<in> {KResponse, KNoResponse, KMalformedRequest} \<and> \<not> request
      \<or> k = KStream \<and> request)"
proof -
  have user: "isl (fst (to_user T req h st)) = False" for req h st
    by (simp add: to_user_def split: prod.split bool.split)
  show ?thesis
    by (cases "flags_kind (ph_flags H (pk_header P pkt))")
      (auto simp: handler_send_def Let_def user answer_def user_insert_def
        split: option.split prod.split bool.split stream_response.split)
qed

text \<open>
  C31. The ids of the peer are not checked. If both sides may send requests and the peer opens a
  stream under the id this side will use next, the next request of this side panics.
\<close>

theorem peer_can_cause_panic:
  assumes "h_state h = BiServer (Some i)" and "waiting_on_stream h i = None"
    and "ph_id H (pk_header P pkt) = i" and "flags_kind (ph_flags H (pk_header P pkt)) = KRequestSender"
  shows "\<exists>res h' st'. handler_send H P T pkt h st = (Inr res, h', st')
    \<and> start_request H P T (IRequest own c) h' st2 = Panic ''generated a duplicate id''"
  using assms
  by (auto simp: handler_send_def to_user_def start_request_def Let_def split: prod.split bool.split)

text \<open>
  C32. \<open>close_all_started\<close> starts the ids again at 0 and keeps the streams the user is sending. If a
  client had opened its first stream, is reconnected, and its next request opens a stream
  before the old one was reported as closed, it panics.
\<close>

theorem reconnect_can_panic:
  assumes "h_state h = UniClient n" and "waiting_on_user h 0 = Some old"
    and "close_all_started T orders h st = (h', st')"
    and "tk_requests_poll T st1 = (PollSome (IRequestSender pkt c), st2)"
  shows "handler_to_send H P T False order h' st1 = Panic ''generated a duplicate id''"
proof -
  have "waiting_on_user h' 0 = Some old" "h_state h' = UniClient (Some 0)"
    using assms(1-3) by (auto simp: close_all_started_def stream_clear_def Let_def)
  with assms(4) show ?thesis
    by (simp add: handler_to_send_def request_branch_def start_request_def user_insert_def Let_def)
qed

section \<open>The properties on concrete values\<close>

text \<open>
  A runtime that keeps what is sent to oneshot channels, and gives out the queued requests.
\<close>

definition log_tokio :: "(nat \<times> 'p internal_request list \<times> (chan \<times> (request_error + 'p)) list, 'p) tokio" where
  "log_tokio = \<lparr>
     tk_oneshot = (\<lambda>(n, q, l). (n, (Suc n, q, l))),
     tk_oneshot_poll = (\<lambda>_ st. (PollPending, st)),
     tk_oneshot_close = (\<lambda>_ st. st),
     tk_response_send = (\<lambda>c res (n, q, l). (True, (n, q, l @ [(c, res)]))),
     tk_mpsc = (\<lambda>_ (n, q, l). (n, (Suc n, q, l))),
     tk_stream_send = (\<lambda>_ _ st. (True, st)),
     tk_stream_poll = (\<lambda>_ st. (PollPending, st)),
     tk_stream_close = (\<lambda>_ st. st),
     tk_drop_sender = (\<lambda>_ st. st),
     tk_requests_send = (\<lambda>_ st. (True, st)),
     tk_requests_poll = (\<lambda>(n, q, l). case q of [] \<Rightarrow> (PollPending, (n, q, l)) | r # q \<Rightarrow> (PollSome r, (n, q, l))),
     tk_requests_close = (\<lambda>st. st)\<rparr>"

text \<open>A packet that is its id and its kind.\<close>

definition mini_header :: "(u32 \<times> flags) packet_header" where
  "mini_header = \<lparr>ph_len = 5, ph_from_bytes = (\<lambda>_. Inl MacNotEqual), ph_body_len = (\<lambda>_. 0), ph_flags = snd,
     ph_set_flags = (\<lambda>f h. (fst h, f)), ph_id = fst, ph_set_id = (\<lambda>i h. (i, snd h))\<rparr>"

definition mini_packet :: "(u32 \<times> flags, u32 \<times> flags, unit) packet" where
  "mini_packet = \<lparr>pk_header = (\<lambda>h. h), pk_update_header = (\<lambda>f h. f h), pk_empty = (0, flags_empty),
     pk_from_bytes_and_header = (\<lambda>_ h. Inr h), pk_into_bytes = (\<lambda>_. ())\<rparr>"

interpretation mini: packet_laws mini_header mini_packet
  by unfold_locales (simp_all add: mini_header_def mini_packet_def)

definition mini :: "u32 \<Rightarrow> packet_kind \<Rightarrow> u32 \<times> flags" where
  "mini i k = (i, flags_new k)"

lemma mini_simps [simp]:
  "ph_id mini_header (pk_header mini_packet (mini i k)) = i"
  "flags_kind (ph_flags mini_header (pk_header mini_packet (mini i k))) = k"
  by (simp_all add: mini_header_def mini_packet_def mini_def)

theorem to_send_never_panics_witness:
  "\<exists>res. handler_to_send mini_header mini_packet log_tokio False []
      (handler_new False) (0, [IRequest (mini 0 KPing) 4], []) = Returned res"
proof (rule to_send_never_panics)
  show "(handler_step mini_header mini_packet log_tokio)\<^sup>*\<^sup>* (handler_new False, (0, [IRequest (mini 0 KPing) 4], []))
      (handler_new False, (0, [IRequest (mini 0 KPing) 4], []))"
    by blast
qed

theorem peer_can_cause_panic_witness:
  "\<exists>res h' st'. handler_send mini_header mini_packet log_tokio (mini 0x80000000 KRequestSender)
        ((handler_new True)\<lparr>h_state := BiServer (Some 0x80000000)\<rparr>) (0, [], []) = (Inr res, h', st')
    \<and> start_request mini_header mini_packet log_tokio (IRequest (mini 0 KPing) 7) h' (3, [], []) = Panic ''generated a duplicate id''"
  by (rule peer_can_cause_panic) (simp_all add: handler_new_def)

theorem reconnect_can_panic_witness:
  "handler_to_send mini_header mini_packet log_tokio False []
     ((handler_new False)\<lparr>waiting_on_user := [0 \<mapsto> UserReceiver 1], h_state := UniClient (Some 0)\<rparr>)
     (5, [IRequestSender (mini 0 KPing) 2], []) = Panic ''generated a duplicate id''"
proof (rule reconnect_can_panic)
  show "h_state ((handler_new False)\<lparr>waiting_on_user := [0 \<mapsto> UserReceiver 1], h_state := UniClient (Some 1)\<rparr>)
      = UniClient (Some 1)" by simp
  show "close_all_started log_tokio ([], [0])
      ((handler_new False)\<lparr>waiting_on_user := [0 \<mapsto> UserReceiver 1], h_state := UniClient (Some 1)\<rparr>) (5, [], [])
    = ((handler_new False)\<lparr>waiting_on_user := [0 \<mapsto> UserReceiver 1], h_state := UniClient (Some 0)\<rparr>, (5, [], []))"
    by (simp add: close_all_started_def stream_clear_def user_close_all_def user_close_id_def user_close_def
        log_tokio_def handler_new_def)
  show "tk_requests_poll log_tokio (5, [IRequestSender (mini 0 KPing) 2], [])
      = (PollSome (IRequestSender (mini 0 KPing) 2), (5, [], []))"
    by (simp add: log_tokio_def)
qed simp

end
