(* ===== verification/Connection_Props.thy ===== *)
theory Connection_Props
  imports Connection Handler_Props
begin

text \<open>
  Properties of a running connection: when pings are sent, what ends it with an error, that the
  close packet is sent once and last, and that conforming peers cannot make it panic.
\<close>

section \<open>Which packets are sent\<close>

text \<open>A stream that also records the packets it is given to send.\<close>

definition recorded :: "('ps, 'p, 'h) packet_stream \<Rightarrow> ('ps \<times> 'p list, 'p, 'h) packet_stream" where
  "recorded S = \<lparr>
     ps_timeout = (\<lambda>(ps, log). ps_timeout S ps),
     ps_send = (\<lambda>p (ps, log). case ps_send S p ps of (r, ps) \<Rightarrow> (r, (ps, log @ [p]))),
     ps_receive = (\<lambda>(ps, log). case ps_receive S ps of (r, ps) \<Rightarrow> (r, (ps, log))),
     ps_shutdown = (\<lambda>(ps, log). case ps_shutdown S ps of (r, ps) \<Rightarrow> (r, (ps, log)))\<rparr>"

abbreviation kind_of :: "'h packet_header \<Rightarrow> ('p, 'h, 'b) packet \<Rightarrow> 'p \<Rightarrow> packet_kind" where
  "kind_of H P p \<equiv> flags_kind (ph_flags H (pk_header P p))"

fun request_kind :: "'p internal_request \<Rightarrow> packet_kind" where
  "request_kind IEnableServerRequests = KEnableServerRequests"
| "request_kind (IRequest p c) = KRequest"
| "request_kind (IRequestSender p c) = KRequestSender"
| "request_kind (IRequestReceiver p c) = KRequestReceiver"

definition is_close :: "'h packet_header \<Rightarrow> ('p, 'h, 'b) packet \<Rightarrow> 'p \<Rightarrow> bool" where
  "is_close H P p \<longleftrightarrow> flags_kind (ph_flags H (pk_header P p)) = KClose"

lemma sent_packet_This: "sent_packet res = SendThis p \<longleftrightarrow> res = Some p"
  by (cases res) simp_all

context packet_laws
begin

lemma flagged_kind [handler_simps]: "flags_kind (ph_flags H (pk_header P (with_flags H P k p))) = k"
  by (simp add: with_flags_def header_update flags_set)

text \<open>The kinds of the packets that the handler makes.\<close>

lemma polled_kind:
  "poll_users H P T order h st = (Some (p, rem), st') \<Longrightarrow>
    kind_of H P p \<in> {KResponse, KNoResponse, KStream, KStreamClosed}"
  by (induction order arbitrary: st)
    (auto simp: handler_simps split: option.splits user_response.splits prod.splits poll_result.splits)

lemma branch_kind:
  "user_branch H P T order h st = (Taken p, h', st') \<Longrightarrow>
    kind_of H P p \<in> {KResponse, KNoResponse, KStream, KStreamClosed}"
  using polled_kind [of T order h st p]
  by (auto simp: user_branch_def split: if_splits prod.splits option.splits)

lemma started_kind:
  "start_request H P T req h st = Returned (Some p, h', st') \<Longrightarrow> kind_of H P p = request_kind req"
  by (auto simp: start_request_def Let_def handler_simps
      split: outcome.splits option.splits prod.splits internal_request.splits if_splits sum.splits)

lemma reaction_kind:
  "handler_send H P T pkt h st = (Inr (SendPacket p), h', st') \<Longrightarrow> kind_of H P p = KStreamClosed"
  "packet_error H P T header e h st = (Inr (SendPacket p), h', st') \<Longrightarrow> kind_of H P p \<in> {KMalformedRequest, KStreamClosed}"
  by (auto simp: handler_send_def packet_error_def Let_def answer_def to_user_def user_insert_def
      stream_close_packet_def malformed_request_def handler_simps
      split: if_splits option.splits stream_response.splits prod.splits bool.splits sum.splits)

lemma closing_kind: "handler_close H P T orders h st = (p, h', st') \<Longrightarrow> kind_of H P p = KClose"
  by (auto simp: handler_close_def handler_simps Let_def split: prod.splits)

lemma ping_kind: "kind_of H P (ping_packet H P) = KPing"
  by (simp add: ping_packet_def handler_simps)

text \<open>Only closing makes a close packet.\<close>

lemma user_branch_not_close: "user_branch H P T order h st = (Taken p, h', st') \<Longrightarrow> \<not> is_close H P p"
  by (auto simp: is_close_def dest: branch_kind)

lemma start_request_not_close:
  "start_request H P T req h st = Returned (Some p, h', st') \<Longrightarrow> \<not> is_close H P p"
  by (cases req) (auto simp: is_close_def dest: started_kind)

lemma request_branch_not_close:
  "request_branch H P T can h st = Returned (Taken (Some p), h', st') \<Longrightarrow> \<not> is_close H P p"
  by (auto simp: request_branch_def split: if_splits prod.splits poll_result.splits outcome.splits
      dest: start_request_not_close)

lemma to_send_not_close:
  assumes "handler_to_send H P T user_first order h st = Returned (SendThis p, h', st')"
  shows "\<not> is_close H P p"
proof -
  obtain u h1 st1 where u: "user_branch H P T order h st = (u, h1, st1)" by (metis prod_cases3)
  let ?c = "can_send_requests (h_state h)"
  show ?thesis
  proof (cases user_first)
    case True
    with assms u show ?thesis
      by (cases u; cases "request_branch H P T ?c h1 st1")
        (auto simp: handler_to_send_def sent_packet_This split: branch.splits if_splits
          dest: user_branch_not_close request_branch_not_close)
  next
    case False
    with assms show ?thesis
      by (cases "request_branch H P T ?c h st")
        (auto simp: handler_to_send_def sent_packet_This split: branch.splits if_splits prod.splits
          dest: user_branch_not_close request_branch_not_close)
  qed
qed

lemma reaction_not_close:
  "handler_send H P T pkt h st = (Inr (SendPacket p), h', st') \<Longrightarrow> \<not> is_close H P p"
  "packet_error H P T header e h st = (Inr (SendPacket p), h', st') \<Longrightarrow> \<not> is_close H P p"
  by (auto simp: is_close_def dest: reaction_kind)

lemma close_packet_is_close: "handler_close H P T orders h st = (p, h', st') \<Longrightarrow> is_close H P p"
  by (simp add: is_close_def closing_kind)

lemma ping_not_close: "\<not> is_close H P (ping_packet H P)"
  by (simp add: is_close_def ping_kind)

end

section \<open>The close packet\<close>

text \<open>
  The steps with which this side closes the connection itself: the close signal, or a request
  that its user does not take any more.
\<close>

definition own_close ::
    "('ps, 'p, 'h) packet_stream \<Rightarrow> 'h packet_header \<Rightarrow> ('p, 'h, 'b) packet \<Rightarrow> ('st, 'p) tokio \<Rightarrow> ('c, 'st) bg_input
      \<Rightarrow> ('ps, 'p, 'st) bg \<Rightarrow> bool" where
  "own_close S H P T i b \<longleftrightarrow> \<not> bg_should_close b \<and> (case i of
     Event (CloseSignal _) \<Rightarrow> True
   | Event (Received _) \<Rightarrow>
       (case fst (ps_receive S (bg_stream b)) of
          Ready (Inr p) \<Rightarrow> fst (handler_send H P T p (bg_handler b) (bg_runtime b)) = Inr SendCloseWithPacket
        | _ \<Rightarrow> False)
   | _ \<Rightarrow> False)"

fun own_closes ::
    "('ps, 'p, 'h) packet_stream \<Rightarrow> 'h packet_header \<Rightarrow> ('p, 'h, 'b) packet \<Rightarrow> ('st, 'p) tokio
      \<Rightarrow> ('c \<Rightarrow> 'ps \<Rightarrow> 'ps) \<Rightarrow> ('c, 'st) bg_input list \<Rightarrow> ('ps, 'p, 'st) bg looped \<Rightarrow> bool" where
  "own_closes S H P T upd (i # is) (Looping b) \<longleftrightarrow>
     own_close S H P T i b \<or> own_closes S H P T upd is (bg_next S H P T upd i b)"
| "own_closes S H P T upd _ _ \<longleftrightarrow> False"

text \<open>
  What was sent so far, where \<open>own\<close> is whether this side has closed the connection: no close packet
  before the function has returned, and then one if it has.
\<close>

fun log_ok :: "'h packet_header \<Rightarrow> ('p, 'h, 'b) packet \<Rightarrow> bool \<Rightarrow> ('ps \<times> 'p list, 'p, 'st) bg looped \<Rightarrow> bool" where
  "log_ok H P own (Looping b) \<longleftrightarrow> (\<forall>p \<in> set (snd (bg_stream b)). \<not> is_close H P p)
     \<and> (case bg_close_packet b of None \<Rightarrow> \<not> own | Some p \<Rightarrow> own \<and> is_close H P p)"
| "log_ok H P own (Done (Inl e) b) \<longleftrightarrow> (\<forall>p \<in> set (snd (bg_stream b)). \<not> is_close H P p)"
| "log_ok H P own (Done (Inr _) b) \<longleftrightarrow>
     (if own then \<exists>front p. snd (bg_stream b) = front @ [p] \<and> is_close H P p \<and> (\<forall>q \<in> set front. \<not> is_close H P q)
      else \<forall>p \<in> set (snd (bg_stream b)). \<not> is_close H P p)"
| "log_ok H P own (Crashed msg) \<longleftrightarrow> True"

lemma error_closes_not: "fst (packet_error H P T header e h st) \<noteq> Inr SendCloseWithPacket"
  by (simp add: packet_error_def Let_def answer_def split: option.split stream_response.split)

context packet_laws
begin

lemma log_ok_send:
  assumes "log_ok H P own (Looping b)" and "\<not> is_close H P p"
  shows "log_ok H P own (bg_send (recorded S) p b)"
  using assms by (cases "bg_stream b") (auto simp: bg_send_def recorded_def split: prod.split sum.split)

lemma log_ok_close:
  assumes "log_ok H P own (Looping b)"
  shows "log_ok H P (own \<or> w) (Looping (bg_close H P T orders w b))"
  using assms close_packet_is_close [of T orders "bg_handler b" "bg_runtime b"]
  by (auto simp: bg_close_def Let_def split: prod.split option.splits)

lemma log_ok_react:
  assumes "log_ok H P own (Looping b)"
    and "\<And>p h st. reaction = (Inr (SendPacket p), h, st) \<Longrightarrow> \<not> is_close H P p"
  shows "log_ok H P (own \<or> fst reaction = Inr SendCloseWithPacket) (bg_react (recorded S) H P T orders reaction b)"
proof -
  obtain res h st where r: "reaction = (res, h, st)" by (cases reaction)
  have b: "log_ok H P own (Looping (b\<lparr>bg_handler := h, bg_runtime := st\<rparr>))"
    using assms(1) by simp
  show ?thesis
  proof (cases res)
    case (Inr sb)
    with r assms(2) log_ok_close [OF b, of True] log_ok_close [OF b, of False] show ?thesis
      by (cases sb) (simp_all add: bg_react_def b log_ok_send [OF b] del: log_ok.simps(1))
  qed (use b r in \<open>simp add: bg_react_def\<close>)
qed

lemma log_ok_received:
  assumes "log_ok H P own (Looping b)" and "\<not> bg_should_close b"
  shows "log_ok H P (own \<or> own_close (recorded S) H P T (Event (Received orders)) b)
    (bg_received (recorded S) H P T orders b)"
proof -
  obtain r ps where r: "ps_receive S (fst (bg_stream b)) = (r, ps)" by (cases "ps_receive S (fst (bg_stream b))")
  then have rr: "ps_receive (recorded S) (bg_stream b) = (r, (ps, snd (bg_stream b)))"
    by (cases "bg_stream b") (simp add: recorded_def)
  have b: "log_ok H P own (Looping (b\<lparr>bg_stream := (ps, snd (bg_stream b))\<rparr>))" using assms(1) by simp
  show ?thesis
  proof (cases "\<exists>x. r = Ready x")
    case True
    then obtain x where x: "r = Ready x" ..
    show ?thesis
    proof (cases x)
      case (Inl err)
      show ?thesis
      proof (cases err)
        case (RSoft h e)
        with x Inl rr assms(2) log_ok_react [OF b, of "packet_error H P T h e (bg_handler b) (bg_runtime b)" S T orders]
        show ?thesis
          by (auto simp: bg_received_def own_close_def error_closes_not simp del: log_ok.simps(1) dest: reaction_not_close)
      qed (use x Inl rr assms in \<open>simp_all add: bg_received_def\<close>)
    next
      case (Inr p)
      with x rr assms(2) log_ok_react [OF b, of "handler_send H P T p (bg_handler b) (bg_runtime b)" S T orders]
      show ?thesis
        by (auto simp: bg_received_def own_close_def simp del: log_ok.simps(1) dest: reaction_not_close)
    qed
  next
    case False
    with rr assms show ?thesis
      by (cases r) (simp_all add: bg_received_def own_close_def)
  qed
qed

lemma log_ok_finish:
  assumes "log_ok H P own (Looping b)"
  shows "log_ok H P own (bg_finish (recorded S) b)"
proof -
  obtain ps log where s: "bg_stream b = (ps, log)" by (cases "bg_stream b")
  have shut: "snd (snd (ps_shutdown (recorded S) x)) = snd x" for x
    by (cases x) (simp add: recorded_def split: prod.split)
  have sent: "snd (snd (ps_send (recorded S) p (ps, log))) = log @ [p]" for p
    by (simp add: recorded_def split: prod.split)
  show ?thesis
    using assms s by (cases "bg_close_packet b") (auto simp: bg_finish_def shut sent Let_def)
qed

lemma log_ok_step:
  assumes "log_ok H P own (Looping b)"
  shows "log_ok H P (own \<or> own_close (recorded S) H P T (Event ev) b) (bg_step (recorded S) H P T (\<lambda>c. apfst (upd c)) ev b)"
proof (cases ev)
  case (Received orders)
  show ?thesis
  proof (cases "bg_should_close b")
    case True
    with Received assms show ?thesis by (simp add: bg_step_def own_close_def)
  next
    case False
    with Received log_ok_received [OF assms False, of S T orders] show ?thesis by (simp add: bg_step_def)
  qed
next
  case (ToSend uf order)
  then have own: "\<not> own_close (recorded S) H P T (Event ev) b" by (simp add: own_close_def)
  obtain out where out: "handler_to_send H P T uf order (bg_handler b) (bg_runtime b) = out" by blast
  show ?thesis
  proof (cases out)
    case (Returned res)
    obtain r h st where res: "res = (r, h, st)" by (cases res)
    have b: "log_ok H P own (Looping (b\<lparr>bg_handler := h, bg_runtime := st\<rparr>))"
      using assms by simp
    with own ToSend out Returned res log_ok_finish [OF b, of S] show ?thesis
      by (cases r) (auto simp: bg_step_def bg_to_send_def Let_def intro!: log_ok_send dest: to_send_not_close)
  qed (use ToSend out in \<open>simp add: bg_step_def bg_to_send_def\<close>)
next
  case (CloseSignal orders)
  with assms log_ok_close [OF assms, of True T orders] show ?thesis
    by (auto simp: bg_step_def own_close_def simp del: log_ok.simps(1))
qed (use assms in \<open>auto simp: bg_step_def own_close_def log_ok_send ping_not_close split: option.split\<close>)

lemma log_ok_next:
  assumes "log_ok H P own (Looping b)"
  shows "log_ok H P (own \<or> own_close (recorded S) H P T i b) (bg_next (recorded S) H P T (\<lambda>c. apfst (upd c)) i b)"
proof (cases i)
  case (Users f)
  with assms show ?thesis by (simp add: own_close_def)
qed (use log_ok_step [OF assms] in simp)

lemma log_ok_run:
  "log_ok H P own r \<Longrightarrow> log_ok H P (own \<or> own_closes (recorded S) H P T (\<lambda>c. apfst (upd c)) is r)
    (bg_run (recorded S) H P T (\<lambda>c. apfst (upd c)) is r)"
proof (induction "is" arbitrary: own r)
  case (Cons i "is")
  show ?case
  proof (cases r)
    case (Looping b)
    have "log_ok H P (own \<or> own_close (recorded S) H P T i b) (bg_next (recorded S) H P T (\<lambda>c. apfst (upd c)) i b)"
      using Cons.prems Looping by (intro log_ok_next) simp
    from Cons.IH [OF this] Looping show ?thesis by (simp add: disj_assoc)
  qed (use Cons.prems in simp_all)
qed simp

end

section \<open>Conforming peers\<close>

text \<open>
  A run in which the peer keeps to its ids and the receiver does not panic, as its own lemmas
  show of it.
\<close>

definition conforms ::
    "('ps, 'p, 'h) packet_stream \<Rightarrow> 'h packet_header \<Rightarrow> ('p, 'h, 'b) packet \<Rightarrow> ('c, 'st) bg_input
      \<Rightarrow> ('ps, 'p, 'st) bg \<Rightarrow> bool" where
  "conforms S H P i b = (case i of
     Event (Received _) \<Rightarrow>
       (case fst (ps_receive S (bg_stream b)) of
          Panicked \<Rightarrow> False
        | Ready (Inr p) \<Rightarrow> peer_keeps_half H P (bg_handler b) p
        | _ \<Rightarrow> True)
   | _ \<Rightarrow> True)"

fun conforming ::
    "('ps, 'p, 'h) packet_stream \<Rightarrow> 'h packet_header \<Rightarrow> ('p, 'h, 'b) packet \<Rightarrow> ('st, 'p) tokio
      \<Rightarrow> ('c \<Rightarrow> 'ps \<Rightarrow> 'ps) \<Rightarrow> ('c, 'st) bg_input list \<Rightarrow> ('ps, 'p, 'st) bg looped \<Rightarrow> bool" where
  "conforming S H P T upd (i # is) (Looping b) \<longleftrightarrow>
     conforms S H P i b \<and> conforming S H P T upd is (bg_next S H P T upd i b)"
| "conforming S H P T upd _ _ \<longleftrightarrow> True"

fun sound :: "('ps, 'p, 'st) bg looped \<Rightarrow> bool" where
  "sound (Looping b) \<longleftrightarrow> ids_ok (bg_handler b)"
| "sound (Done r b) \<longleftrightarrow> ids_ok (bg_handler b)"
| "sound (Crashed msg) \<longleftrightarrow> False"

lemma bg_send_sound [handler_simps]: "sound (bg_send S p b) \<longleftrightarrow> ids_ok (bg_handler b)"
  by (simp add: bg_send_def split: prod.split sum.split)

lemma bg_close_ids [handler_simps]: "ids_ok (bg_handler b) \<Longrightarrow> ids_ok (bg_handler (bg_close H P T orders w b))"
  using ids_ok_close [of "bg_handler b" H P T orders "bg_runtime b"]
  by (auto simp: bg_close_def Let_def split: prod.split)

lemma bg_react_sound:
  "ids_ok (fst (snd reaction)) \<Longrightarrow> sound (bg_react S H P T orders reaction b)"
  by (auto simp: bg_react_def Let_def handler_simps split: prod.split sum.split send_back.split)

lemma sound_step:
  assumes ok: "ids_ok (bg_handler b)" and conf: "conforms S H P (Event ev) b"
  shows "sound (bg_step S H P T upd ev b)"
proof (cases ev)
  case (Received orders)
  with conf ok show ?thesis
    by (auto simp: conforms_def bg_step_def bg_received_def Let_def ids_ok_send ids_ok_packet_error
        split: polled.splits sum.splits receiver_error.split prod.splits intro!: bg_react_sound)
next
  case (ToSend uf order)
  from to_send_ok [OF ok, of H P T uf order "bg_runtime b"] obtain res h st
    where "handler_to_send H P T uf order (bg_handler b) (bg_runtime b) = Returned (res, h, st)" "ids_ok h"
    by blast
  with ToSend show ?thesis
    by (cases res) (auto simp: bg_step_def bg_to_send_def bg_finish_def Let_def handler_simps)
qed (use ok in \<open>auto simp: bg_step_def handler_simps split: option.split\<close>)

lemma sound_run:
  "sound r \<Longrightarrow> conforming S H P T upd is r \<Longrightarrow> sound (bg_run S H P T upd is r)"
proof (induction "is" arbitrary: r)
  case (Cons i "is")
  show ?case
  proof (cases r)
    case (Looping b)
    with Cons.prems have "sound (bg_next S H P T upd i b)"
      by (cases i) (auto intro: sound_step)
    with Cons Looping show ?thesis by simp
  qed (use Cons.prems in auto)
qed simp

section \<open>What ends a connection\<close>

text \<open>Packets that the handler refuses, by their kind and id.\<close>

definition awaits_answer :: "handler \<Rightarrow> u32 \<Rightarrow> bool" where
  "awaits_answer h i \<longleftrightarrow> (\<exists>c. waiting_on_stream h i = Some (StreamRequest c))"

definition refused :: "handler \<Rightarrow> packet_kind \<Rightarrow> u32 \<Rightarrow> bool" where
  "refused h k i \<longleftrightarrow> k = KUnknown
     \<or> k \<in> {KRequest, KRequestReceiver, KRequestSender} \<and> \<not> can_receive_requests (h_state h)
     \<or> k \<in> {KRequest, KRequestReceiver} \<and> waiting_on_user h i \<noteq> None
     \<or> k = KRequestSender \<and> waiting_on_stream h i \<noteq> None
     \<or> k \<in> {KResponse, KNoResponse, KMalformedRequest} \<and> \<not> awaits_answer h i
     \<or> k = KStream \<and> awaits_answer h i"

text \<open>Those whose body was malformed.\<close>

definition refused_malformed :: "handler \<Rightarrow> packet_kind \<Rightarrow> u32 \<Rightarrow> bool" where
  "refused_malformed h k i \<longleftrightarrow>
     k \<in> {KNoResponse, KMalformedRequest, KStreamClosed, KClose, KPing, KEnableServerRequests, KUnknown}
     \<or> k = KResponse \<and> \<not> awaits_answer h i"

lemma send_refuses:
  "isl (fst (handler_send H P T pkt h st)) \<longleftrightarrow>
    refused h (flags_kind (ph_flags H (pk_header P pkt))) (ph_id H (pk_header P pkt))"
  by (simp add: handler_send_errors refused_def awaits_answer_def Let_def)

lemma error_refuses:
  "isl (fst (packet_error H P T header e h st)) \<longleftrightarrow>
    refused_malformed h (flags_kind (ph_flags H header)) (ph_id H header)"
  by (cases "flags_kind (ph_flags H header)")
    (auto simp: packet_error_def answer_def refused_malformed_def awaits_answer_def Let_def
      split: option.split stream_response.split)

text \<open>The reply of the handler cannot be sent.\<close>

definition reply_fails :: "('ps, 'p, 'h) packet_stream \<Rightarrow> 'ps \<Rightarrow> task_error + 'p send_back \<Rightarrow> bool" where
  "reply_fails S ps res \<longleftrightarrow> (\<exists>p. res = Inr (SendPacket p) \<and> isl (fst (ps_send S p ps)))"

lemma react_ends:
  "(\<exists>e b'. bg_react S H P T orders reaction b = Done (Inl e) b') \<longleftrightarrow>
    isl (fst reaction) \<or> reply_fails S (bg_stream b) (fst reaction)"
proof -
  obtain res h st where r: "reaction = (res, h, st)" by (cases reaction)
  show ?thesis
  proof (cases res)
    case (Inr sb)
    with r show ?thesis
      by (cases sb) (auto simp: bg_react_def bg_send_def reply_fails_def isl_def Let_def split: prod.splits sum.splits)
  qed (use r in \<open>simp add: bg_react_def\<close>)
qed

section \<open>Properties\<close>

text \<open>
  C21. When receiving ends a connection with an error, for everything that a stream can give to the
  task: reading failed, the stream's data cannot be a packet, the handler refuses the packet
  or the malformed packet, or its reply to it cannot be sent. Everything else is handled.
\<close>

theorem received_ends_connection:
  "(\<exists>e b'. bg_step S H P T upd (Received orders) b = Done (Inl e) b') \<longleftrightarrow> \<not> bg_should_close b \<and>
    (let (packet, ps) = ps_receive S (bg_stream b)
     in case packet of
          Ready (Inl (RIo _)) \<Rightarrow> True
        | Ready (Inl (RHard _)) \<Rightarrow> True
        | Ready (Inl (RSoft header e)) \<Rightarrow>
            refused_malformed (bg_handler b) (flags_kind (ph_flags H header)) (ph_id H header)
            \<or> reply_fails S ps (fst (packet_error H P T header e (bg_handler b) (bg_runtime b)))
        | Ready (Inr p) \<Rightarrow>
            refused (bg_handler b) (flags_kind (ph_flags H (pk_header P p))) (ph_id H (pk_header P p))
            \<or> reply_fails S ps (fst (handler_send H P T p (bg_handler b) (bg_runtime b)))
        | _ \<Rightarrow> False)"
proof -
  obtain r ps where r: "ps_receive S (bg_stream b) = (r, ps)" by (cases "ps_receive S (bg_stream b)")
  show ?thesis
    by (auto simp: bg_step_def bg_received_def r react_ends send_refuses error_refuses
        split: polled.split sum.split receiver_error.split)
qed

text \<open>
  C25. The close packet. If this side closes the connection, by the close signal or because its user
  takes no more requests, and the task ends without an error, then exactly one close packet is
  handed to the stream, as the last packet. If the peer has closed it none is. And nothing that
  is sent while the loop runs, or by a connection that ends with an error, is a close packet.
\<close>

theorem close_packet_last:
  assumes "packet_laws H P"
    and "bg_run (recorded S) H P T (\<lambda>c. apfst (upd c)) is (bg_start (recorded S) (ps, []) h st) = r"
  shows "case r of
      Looping b \<Rightarrow> \<forall>p \<in> set (snd (bg_stream b)). \<not> is_close H P p
    | Done (Inl e) b \<Rightarrow> \<forall>p \<in> set (snd (bg_stream b)). \<not> is_close H P p
    | Done (Inr _) b \<Rightarrow>
        if own_closes (recorded S) H P T (\<lambda>c. apfst (upd c)) is (bg_start (recorded S) (ps, []) h st)
        then \<exists>front p. snd (bg_stream b) = front @ [p] \<and> is_close H P p \<and> (\<forall>q \<in> set front. \<not> is_close H P q)
        else \<forall>p \<in> set (snd (bg_stream b)). \<not> is_close H P p
    | Crashed msg \<Rightarrow> True"
proof -
  have "log_ok H P False (bg_start (recorded S) (ps, []) h st)" by (simp add: bg_start_def)
  from packet_laws.log_ok_run [OF assms(1) this, of S T upd "is"] assms(2) show ?thesis
    by (cases "(H, P, True, r)" rule: log_ok.cases) auto
qed

text \<open>
  C23. A connection with a timeout whose peer keeps to its half of the ids never panics: whatever is received and
  sent, in whatever order the branches of the loop are taken, and whatever the users of the
  channels do in between.
\<close>

theorem connection_never_panics:
  assumes "conforming S H P T upd is (bg_start S ps (handler_new b) st)" and "0 < ps_timeout S ps"
  shows "bg_run S H P T upd is (bg_start S ps (handler_new b) st) \<noteq> Crashed msg"
proof -
  have "ping_period (ps_timeout S ps) \<noteq> 0"
    using assms(2) by (auto simp: ping_period_def secs_def Let_def)
  then have "sound (bg_start S ps (handler_new b) st)" by (simp add: bg_start_def ids_ok_new)
  from sound_run [OF this assms(1)] show ?thesis by auto
qed

text \<open>
  The time between two pings is at most the timeout and not zero for a timeout that is not;
  it is below the timeout exactly for timeouts of two seconds and more.
\<close>

theorem ping_period_bounds:
  "ping_period t \<le> t \<and> (0 < ping_period t \<longleftrightarrow> 0 < t) \<and> (ping_period t < t \<longleftrightarrow> secs 2 \<le> t)"
  by (auto simp: ping_period_def secs_def Let_def)

section \<open>The properties on concrete values\<close>

text \<open>A stream that accepts every packet and receives what the script tells.\<close>

definition scripted_stream :: "('h receiver_error + 'p) polled list \<Rightarrow> (nat, 'p, 'h) packet_stream" where
  "scripted_stream script = \<lparr>
     ps_timeout = (\<lambda>_. secs 10),
     ps_send = (\<lambda>p n. (Inr (), n)),
     ps_receive = (\<lambda>n. (case drop n script of [] \<Rightarrow> Cancelled | r # rest \<Rightarrow> r, Suc n)),
     ps_shutdown = (\<lambda>n. (Inr (), n))\<rparr>"

definition quiet_stream :: "(nat, u32 \<times> flags, u32 \<times> flags) packet_stream" where
  "quiet_stream = scripted_stream []"

definition one_request_stream :: "(nat, u32 \<times> flags, u32 \<times> flags) packet_stream" where
  "one_request_stream = scripted_stream [Ready (Inr (mini 3 KRequest))]"

lemmas small_streams = quiet_stream_def one_request_stream_def scripted_stream_def ping_period_def secs_def

text \<open>A ping, and then the close signal.\<close>

definition closing_run where
  "closing_run = bg_run (recorded quiet_stream) mini_header mini_packet log_tokio (\<lambda>c :: unit. apfst (\<lambda>n. n))
     [Event PingTick, Event (CloseSignal ([], [])), Event (ToSend True [])]
     (bg_start (recorded quiet_stream) (0, []) (handler_new True) (0, [], []))"

lemma closing_run_ends:
  "closing_run = Done (Inr ()) \<lparr>bg_stream = (0, [mini 0 KPing, mini 0 KClose]), bg_handler = handler_new True,
     bg_runtime = (0, [], []), bg_should_close = True, bg_close_packet = None\<rparr>"
  by (simp add: closing_run_def bg_start_def bg_step_def bg_send_def bg_close_def bg_to_send_def bg_finish_def
      recorded_def small_streams handler_close_def handler_to_send_def user_branch_def request_branch_def
      stream_clear_def user_close_all_def ping_packet_def with_flags_def log_tokio_def mini_header_def mini_packet_def
      mini_def handler_new_def Let_def)

theorem close_packet_last_witness:
  "\<exists>b front p. closing_run = Done (Inr ()) b \<and> snd (bg_stream b) = front @ [p]
    \<and> is_close mini_header mini_packet p \<and> (\<forall>q \<in> set front. \<not> is_close mini_header mini_packet q)"
proof -
  have "own_closes (recorded quiet_stream) mini_header mini_packet log_tokio (\<lambda>c :: unit. apfst (\<lambda>n. n))
      [Event PingTick, Event (CloseSignal ([], [])), Event (ToSend True [])]
      (bg_start (recorded quiet_stream) (0, []) (handler_new True) (0, [], []))"
    by (simp add: bg_start_def bg_step_def bg_send_def recorded_def small_streams own_close_def)
  with close_packet_last [OF mini.packet_laws_axioms closing_run_ends [unfolded closing_run_def]]
  show ?thesis by (simp add: closing_run_ends)
qed

theorem connection_never_panics_witness:
  "bg_run one_request_stream mini_header mini_packet log_tokio (\<lambda>(c :: unit) n. n)
     [Event (Received ([], [])), Event (ToSend True [3])] (bg_start one_request_stream 0 (handler_new True) (0, [], [])) \<noteq> Crashed ''generated a duplicate id''"
  by (rule connection_never_panics)
    (simp_all add: bg_start_def bg_step_def conforms_def small_streams peer_keeps_half_def handler_new_def
      bg_received_def bg_react_def handler_send_def log_tokio_def to_user_def user_insert_def foreign.simps
      mini_header_def mini_packet_def mini_def bg_to_send_def handler_to_send_def user_branch_def Let_def)

end
