(* ===== verification/Closing_Props.thy ===== *)
theory Closing_Props
  imports Connection_Props
begin

text \<open>
  How a connection ends: what is still sent once it is closing, that closing returns, and what
  a client that may reconnect does afterwards.
\<close>

section \<open>Sending until nothing is left\<close>

text \<open>
  Channels whose other ends are gone: polling them never waits, and takes away what is queued.
\<close>

definition drains :: "('st, 'p) tokio \<Rightarrow> ('st \<Rightarrow> nat) \<Rightarrow> bool" where
  "drains T m \<longleftrightarrow>
     (\<forall>c st. fst (tk_oneshot_poll T c st) \<noteq> PollPending \<and> m (snd (tk_oneshot_poll T c st)) \<le> m st)
   \<and> (\<forall>c st. fst (tk_stream_poll T c st) \<noteq> PollPending \<and> m (snd (tk_stream_poll T c st)) \<le> m st
        \<and> (fst (tk_stream_poll T c st) \<noteq> PollClosed \<longrightarrow> m (snd (tk_stream_poll T c st)) < m st))
   \<and> (\<forall>st. fst (tk_requests_poll T st) \<noteq> PollPending \<and> m (snd (tk_requests_poll T st)) \<le> m st
        \<and> (fst (tk_requests_poll T st) \<noteq> PollClosed \<longrightarrow> m (snd (tk_requests_poll T st)) < m st))
   \<and> (\<forall>c st. m (tk_drop_sender T c st) \<le> m st \<and> m (tk_stream_close T c st) \<le> m st)"

text \<open>What is left: queued packets and requests count twice, as a request may start a stream.\<close>

definition left_over :: "('st \<Rightarrow> nat) \<Rightarrow> handler \<Rightarrow> 'st \<Rightarrow> nat" where
  "left_over m h st = 2 * m st + card (dom (waiting_on_user h))"

lemma drains_poll:
  assumes "drains T m"
  shows "tk_oneshot_poll T c st = (r, st') \<Longrightarrow> r \<noteq> PollPending \<and> m st' \<le> m st"
    and "tk_stream_poll T c st = (r', st') \<Longrightarrow> r' \<noteq> PollPending \<and> m st' \<le> m st \<and> (r' \<noteq> PollClosed \<longrightarrow> m st' < m st)"
    and "tk_requests_poll T st = (r'', st') \<Longrightarrow> r'' \<noteq> PollPending \<and> m st' \<le> m st \<and> (r'' \<noteq> PollClosed \<longrightarrow> m st' < m st)"
    and "m (drop_request T req st) \<le> m st"
proof -
  note d = assms [unfolded drains_def]
  show "tk_oneshot_poll T c st = (r, st') \<Longrightarrow> r \<noteq> PollPending \<and> m st' \<le> m st"
    using d by (metis fst_conv snd_conv)
  show "tk_stream_poll T c st = (r', st') \<Longrightarrow> r' \<noteq> PollPending \<and> m st' \<le> m st \<and> (r' \<noteq> PollClosed \<longrightarrow> m st' < m st)"
    using d by (metis fst_conv snd_conv)
  show "tk_requests_poll T st = (r'', st') \<Longrightarrow> r'' \<noteq> PollPending \<and> m st' \<le> m st \<and> (r'' \<noteq> PollClosed \<longrightarrow> m st' < m st)"
    using d by (metis fst_conv snd_conv)
  show "m (drop_request T req st) \<le> m st"
    using d by (cases req) (simp_all add: drop_request_def)
qed

lemma user_branch_drains:
  assumes dr: "drains T m" and fin: "finite (dom (waiting_on_user h))" and cov: "set order = dom (waiting_on_user h)"
    and u: "user_branch H P T order h st = (u, h', st')"
  shows "finite (dom (waiting_on_user h')) \<and> h_state h' = h_state h
    \<and> (u = Disabled \<and> h' = h \<and> st' = st \<and> waiting_on_user h = Map.empty
      \<or> (\<exists>p. u = Taken p) \<and> left_over m h' st' < left_over m h st)"
proof (cases order)
  case Nil
  with cov have "waiting_on_user h = Map.empty" by (simp flip: dom_eq_empty_conv)
  with u show ?thesis by (auto simp: user_branch_def)
next
  case (Cons pid ids)
  with cov obtain resp where resp: "waiting_on_user h pid = Some resp" by auto
  then have pos: "0 < card (dom (waiting_on_user h))" using fin by (auto simp: card_gt_0_iff)
  have less: "card (dom (waiting_on_user h) - {pid}) < card (dom (waiting_on_user h))"
    using resp fin by (intro psubset_card_mono) auto
  from resp have ne: "waiting_on_user h \<noteq> Map.empty" by auto
  note d = drains_poll [OF dr]
  show ?thesis
  proof (cases resp)
    case (UserRequest c)
    obtain r st1 where r: "tk_oneshot_poll T c st = (r, st1)" by fastforce
    with u Cons resp UserRequest ne d(1) [OF r] fin less show ?thesis
      by (cases r) (auto simp: user_branch_def left_over_def)
  next
    case (UserReceiver c)
    obtain r st1 where r: "tk_stream_poll T c st = (r, st1)" by fastforce
    with u Cons resp UserReceiver ne d(2) [OF r] fin less show ?thesis
      by (cases r) (auto simp: user_branch_def left_over_def)
  qed
qed

lemma start_request_left:
  assumes dr: "drains T m" and fin: "finite (dom (waiting_on_user h))"
    and s: "start_request H P T req h st = Returned (res, h', st')"
  shows "finite (dom (waiting_on_user h')) \<and> left_over m h' st' \<le> Suc (left_over m h st)"
proof -
  have "card (dom (waiting_on_user h')) \<le> Suc (card (dom (waiting_on_user h)))"
    and "finite (dom (waiting_on_user h'))" and "m st' \<le> m st"
    using s fin drains_poll(4) [OF dr, of req st]
    by (auto simp: start_request_def Let_def user_insert_def card_insert_if
        split: outcome.splits option.splits prod.splits internal_request.splits if_splits sum.splits)
  then show ?thesis by (simp add: left_over_def)
qed

lemma request_branch_drains:
  assumes dr: "drains T m" and fin: "finite (dom (waiting_on_user h))"
    and r: "request_branch H P T c h st = Returned (r, h', st')"
  shows "finite (dom (waiting_on_user h'))
    \<and> (r = Disabled \<and> h' = h \<and> m st' \<le> m st \<or> (\<exists>p. r = Taken p) \<and> left_over m h' st' < left_over m h st)"
proof (cases c)
  case True
  obtain p st1 where p: "tk_requests_poll T st = (p, st1)" by fastforce
  note d = drains_poll(3) [OF dr p]
  show ?thesis
  proof (cases p)
    case (PollSome req)
    with d have m: "m st1 < m st" by simp
    from r True p PollSome obtain res where res: "start_request H P T req h st1 = Returned (res, h', st')" "r = Taken res"
      by (auto simp: request_branch_def split: outcome.splits)
    from start_request_left [OF dr fin res(1)] m res(2) show ?thesis
      by (auto simp: left_over_def)
  qed (use d r True p fin in \<open>auto simp: request_branch_def\<close>)
qed (use r fin in \<open>auto simp: request_branch_def\<close>)

lemma sent_cases: "sent_packet q = SendNothing \<or> (\<exists>p. sent_packet q = SendThis p)"
  by (cases q) simp_all

lemma to_send_drains:
  assumes dr: "drains T m" and fin: "finite (dom (waiting_on_user h))" and cov: "set order = dom (waiting_on_user h)"
    and s: "handler_to_send H P T uf order h st = Returned (res, h', st')"
  shows "finite (dom (waiting_on_user h'))
    \<and> (res = SendNothing \<or> (\<exists>p. res = SendThis p) \<and> left_over m h' st' < left_over m h st)"
proof -
  obtain u h1 st1 where u: "user_branch H P T order h st = (u, h1, st1)" by (metis prod_cases3)
  note uf = user_branch_drains [OF dr fin cov u]
  let ?c = "can_send_requests (h_state h)"
  show ?thesis
  proof (cases uf)
    case True
    show ?thesis
    proof (cases u)
      case (Taken p)
      with True s u uf show ?thesis by (auto simp: handler_to_send_def)
    next
      case Disabled
      with uf have e: "h1 = h" "st1 = st" by auto
      from True s u Disabled e obtain r where r: "request_branch H P T ?c h st = Returned (r, h', st')"
        and res: "res = (case r of Taken p \<Rightarrow> sent_packet p | Disabled \<Rightarrow> SendNothing | Waiting \<Rightarrow> SendWaiting)"
        by (auto simp: handler_to_send_def split: outcome.splits branch.splits)
      from request_branch_drains [OF dr fin r] res show ?thesis
        by (cases r) (auto simp: sent_cases)
    qed (use uf in auto)
  next
    case False
    from False s obtain r h2 st2 where r: "request_branch H P T ?c h st = Returned (r, h2, st2)"
      by (auto simp: handler_to_send_def split: outcome.splits)
    note rf = request_branch_drains [OF dr fin r]
    show ?thesis
    proof (cases r)
      case Disabled
      with rf have e: "h2 = h" and le: "m st2 \<le> m st" by auto
      obtain u' h3 st3 where u': "user_branch H P T order h st2 = (u', h3, st3)" by (metis prod_cases3)
      from user_branch_drains [OF dr fin cov u'] False s r Disabled e u' le show ?thesis
        by (cases u') (auto simp: handler_to_send_def left_over_def)
    next
      case (Taken q)
      with False s r rf sent_cases [of q] show ?thesis by (auto simp: handler_to_send_def)
    qed (use rf in auto)
  qed
qed

section \<open>Closing\<close>

text \<open>Rounds of the loop that only send, walking through all of the user's responses.\<close>

fun covering ::
    "('ps, 'p, 'h) packet_stream \<Rightarrow> 'h packet_header \<Rightarrow> ('p, 'h, 'b) packet \<Rightarrow> ('st, 'p) tokio
      \<Rightarrow> (bool \<times> u32 list) list \<Rightarrow> ('ps, 'p, 'st) bg looped \<Rightarrow> bool" where
  "covering S H P T ((uf, order) # rounds) (Looping b) \<longleftrightarrow>
     set order = dom (waiting_on_user (bg_handler b))
     \<and> covering S H P T rounds (bg_to_send S H P T uf order b)"
| "covering S H P T _ _ \<longleftrightarrow> True"

definition send_round :: "bool \<times> u32 list \<Rightarrow> ('c, 'st) bg_input" where
  "send_round r = Event (ToSend (fst r) (snd r))"

definition closing :: "('ps, 'p, 'st) bg \<Rightarrow> bool" where
  "closing b \<longleftrightarrow> bg_should_close b \<and> ids_ok (bg_handler b) \<and> finite (dom (waiting_on_user (bg_handler b)))"

lemma round_closing:
  assumes dr: "drains T m" and cl: "closing b" and cov: "set order = dom (waiting_on_user (bg_handler b))"
  shows "(\<exists>r b'. bg_to_send S H P T uf order b = Done r b')
    \<or> (\<exists>b'. bg_to_send S H P T uf order b = Looping b' \<and> closing b'
        \<and> left_over m (bg_handler b') (bg_runtime b') < left_over m (bg_handler b) (bg_runtime b))"
proof -
  from cl have ok: "ids_ok (bg_handler b)" and fin: "finite (dom (waiting_on_user (bg_handler b)))"
    by (simp_all add: closing_def)
  from to_send_ok [OF ok, of H P T uf order "bg_runtime b"] obtain res h st
    where s: "handler_to_send H P T uf order (bg_handler b) (bg_runtime b) = Returned (res, h, st)" and "ids_ok h"
    by blast
  with cl to_send_drains [OF dr fin cov s] show ?thesis
    by (auto simp: bg_to_send_def bg_finish_def bg_send_def closing_def Let_def split: prod.split sum.split)
qed

lemma rounds_end:
  assumes dr: "drains T m"
  shows "closing b \<Longrightarrow> covering S H P T rounds (Looping b)
    \<Longrightarrow> left_over m (bg_handler b) (bg_runtime b) < length rounds
    \<Longrightarrow> \<exists>r b'. bg_run S H P T upd (map send_round rounds) (Looping b) = Done r b'"
proof (induction rounds arbitrary: b)
  case (Cons r rounds)
  obtain uf order where r: "r = (uf, order)" by (cases r)
  with Cons.prems have cov: "set order = dom (waiting_on_user (bg_handler b))"
    "covering S H P T rounds (bg_to_send S H P T uf order b)" by simp_all
  have "bg_run S H P T upd rest (Done q b') = Done q b'" for rest q b'
    by (cases rest) simp_all
  with round_closing [OF dr Cons.prems(1) cov(1), of S H P uf] Cons cov r show ?case
    by (auto simp: send_round_def bg_step_def)
qed simp

lemma disabled_user: "user_branch H P T order h st = (Disabled, h1, st1) \<Longrightarrow> waiting_on_user h1 = Map.empty"
  by (auto simp: user_branch_def split: if_splits prod.splits option.splits)

text \<open>A side that may send requests, and has used all of its ids.\<close>

definition ids_used_up :: "handler \<Rightarrow> bool" where
  "ids_used_up h \<longleftrightarrow> h_state h \<in> {UniClient None, BiServer None, BiClient None}"

lemma start_nothing: "start_request H P T req h st = Returned (None, h1, st1) \<Longrightarrow> ids_used_up h1"
  by (cases "h_state h")
    (auto simp: start_request_def ids_used_up_def Let_def
      split: option.splits prod.splits internal_request.splits if_splits sum.splits)

lemma request_nothing:
  "request_branch H P T c h st = Returned (Taken None, h1, st1) \<Longrightarrow> ids_used_up h1"
  "request_branch H P T c h st = Returned (Disabled, h1, st1) \<Longrightarrow> h1 = h"
  by (auto simp: request_branch_def dest: start_nothing split: if_splits prod.splits poll_result.splits outcome.splits)

lemma sent_nothing: "sent_packet q = SendNothing \<longleftrightarrow> q = None"
  by (cases q) simp_all

lemma to_send_nothing:
  assumes "handler_to_send H P T uf order h st = Returned (SendNothing, h', st')"
  shows "waiting_on_user h' = Map.empty \<or> ids_used_up h'"
  using assms
  by (auto simp: handler_to_send_def Let_def sent_nothing dest: disabled_user request_nothing
      split: if_splits prod.splits branch.splits outcome.splits)

section \<open>Reconnecting\<close>

text \<open>The attempt after \<open>n\<close> failed ones.\<close>

fun attempt :: "(nat \<Rightarrow> 'w \<Rightarrow> (io_error + 's) \<times> 'w) \<Rightarrow> nat \<Rightarrow> nat \<Rightarrow> 'w \<Rightarrow> (io_error + 's) \<times> 'w" where
  "attempt recon k 0 w = recon k w"
| "attempt recon k (Suc n) w = attempt recon (k + 1) n (snd (recon k w))"

lemma attempts_end:
  "attempt recon k n w = (Inr s, w') \<Longrightarrow> (\<forall>m<n. isl (fst (attempt recon k m w)))
    \<Longrightarrow> reconnect_attempts recon k w = Some (s, w')"
proof (induction n arbitrary: k w)
  case 0
  then show ?case by (simp add: reconnect_attempts.simps)
next
  case (Suc n)
  from Suc.prems(2) have "isl (fst (recon k w))" by (metis attempt.simps(1) zero_less_Suc)
  then obtain e w1 where r: "recon k w = (Inl e, w1)" by (cases "recon k w") (auto simp: isl_def)
  have "\<forall>m<n. isl (fst (attempt recon (k + 1) m w1))"
    using Suc.prems(2) r by (metis attempt.simps(2) Suc_less_eq snd_conv)
  with Suc r show ?case by (simp add: reconnect_attempts.simps [of recon k w])
qed

lemma attempts_ended:
  assumes "reconnect_attempts recon k w = Some y"
  shows "\<exists>n. attempt recon k n w = (Inr (fst y), snd y) \<and> (\<forall>m<n. isl (fst (attempt recon k m w)))"
proof (rule reconnect_attempts.raw_induct [of
      "\<lambda>recon k w y. \<exists>n. attempt recon k n w = (Inr (fst y), snd y) \<and> (\<forall>m<n. isl (fst (attempt recon k m w)))",
      OF _ assms])
  fix again and recon :: "nat \<Rightarrow> 'b \<Rightarrow> (io_error + 'a) \<times> 'b" and k w y
  assume IH: "\<And>k w b y. again k w b = Some y
      \<Longrightarrow> \<exists>n. attempt k w n b = (Inr (fst y), snd y) \<and> (\<forall>m<n. isl (fst (attempt k w m b)))"
    and eq: "(case recon k w of (Inl e, w) \<Rightarrow> again recon (k + 1) w | (Inr s, w) \<Rightarrow> Some (s, w)) = Some y"
  obtain r w1 where r: "recon k w = (r, w1)" by fastforce
  show "\<exists>n. attempt recon k n w = (Inr (fst y), snd y) \<and> (\<forall>m<n. isl (fst (attempt recon k m w)))"
  proof (cases r)
    case (Inl e)
    with IH [of recon "k + 1" w1 y] eq r obtain n
      where n: "attempt recon (k + 1) n w1 = (Inr (fst y), snd y)" "\<forall>m<n. isl (fst (attempt recon (k + 1) m w1))"
      by auto
    have "isl (fst (attempt recon k m w))" if "m < Suc n" for m
      using that n(2) r Inl by (cases m) auto
    with n(1) r show ?thesis by (intro exI [of _ "Suc n"]) simp
  next
    case (Inr s)
    with eq r show ?thesis by (intro exI [of _ 0]) auto
  qed
qed

lemma task_result_eq [simp]:
  "task_result x = Returned (r, h, w) \<longleftrightarrow> (\<exists>terminated. x = Returned (r, terminated, h, w))"
  "task_result x = Panic msg \<longleftrightarrow> x = Panic msg"
  by (cases x rule: task_result.cases; auto)+

lemma no_strategy:
  "rc_strat C = None \<Longrightarrow> bg_stream_reconnect C (Some s) h w =
     (case rc_new_stream C s (rc_newest C w) w of
        (Panic msg, w) \<Rightarrow> Some (Panic msg)
      | (Returned (Inl e), w) \<Rightarrow> Some (Returned (Inl e, h, w))
      | (Returned (Inr ps), w) \<Rightarrow> map_option task_result (rc_bg C ps h w))"
  by (auto simp: bg_stream_reconnect.simps [of C "Some s"] reconnect_stream_def map_conv_bind_option
      split: prod.split sum.split outcome.split Option.bind_split)

lemma from_strategy:
  assumes "rc_strat C = Some recon"
  shows "bg_stream_reconnect C None h w
    = Option.bind (reconnect_attempts recon 0 w) (\<lambda>(s, w). bg_stream_reconnect C (Some s) h w)"
proof -
  have "\<exists>body. \<forall>stream w. bg_stream_reconnect C stream h w = Option.bind (reconnect_stream C stream w) body"
    by (intro exI allI) (rule bg_stream_reconnect.simps)
  then obtain body where "\<And>stream w. bg_stream_reconnect C stream h w = Option.bind (reconnect_stream C stream w) body"
    by blast
  with assms show ?thesis
    by (cases "reconnect_attempts recon 0 w") (simp_all add: reconnect_stream_def split: prod.split)
qed

text \<open>Returning with a strategy means success, and a panic is that of a part.\<close>

definition part_panics :: "('s, 'ps, 'c, 'w) reconnect \<Rightarrow> string \<Rightarrow> bool" where
  "part_panics C msg \<longleftrightarrow> (\<exists>s c w. fst (rc_new_stream C s c w) = Panic msg) \<or> (\<exists>ps h w. rc_bg C ps h w = Some (Panic msg))"

definition ended_well ::
    "('s, 'ps, 'c, 'w) reconnect \<Rightarrow> ((task_error + unit) \<times> handler \<times> 'w) outcome \<Rightarrow> bool" where
  "ended_well C r \<longleftrightarrow>
     (case r of Panic msg \<Rightarrow> part_panics C msg | Returned (res, h, w) \<Rightarrow> rc_strat C \<noteq> None \<longrightarrow> res = Inr ())"

lemma reconnect_returns:
  assumes "bg_stream_reconnect C stream h w = Some r" and "stream \<noteq> None \<or> rc_strat C \<noteq> None"
  shows "ended_well C r"
proof -
  have "stream \<noteq> None \<or> rc_strat C \<noteq> None \<longrightarrow> ended_well C r"
  proof (rule bg_stream_reconnect.raw_induct [of
        "\<lambda>C stream h w r. stream \<noteq> None \<or> rc_strat C \<noteq> None \<longrightarrow> ended_well C r",
        OF _ assms(1)], goal_cases)
    case (1 again C stream h w r)
    note IH = 1(1) and eq = 1(2)
    show ?case
    proof
      assume start: "stream \<noteq> None \<or> rc_strat C \<noteq> None"
      from eq obtain got where got: "reconnect_stream C stream w = Some got"
        by (cases "reconnect_stream C stream w") simp_all
      with start obtain s w1 where s: "got = Returned (s, w1)"
        by (auto simp: reconnect_stream_def split: option.splits)
      obtain new w2 where new: "rc_new_stream C s (rc_newest C w1) w1 = (new, w2)" by fastforce
      consider (panic) msg where "new = Panic msg" | (err) e where "new = Returned (Inl e)"
        | (ok) ps where "new = Returned (Inr ps)"
        by (cases new) (metis sum.exhaust)+
      then show "ended_well C r"
      proof cases
        case panic
        then have "part_panics C msg" using new by (metis fst_conv part_panics_def)
        with panic eq got s new show ?thesis by (auto simp: ended_well_def)
      next
        case err
        with eq got s new IH [of C None h w2 r] show ?thesis
          by (cases "rc_strat C") (auto simp: ended_well_def)
      next
        case ok
        with eq got s new obtain ran where ran: "rc_bg C ps h w2 = Some ran"
          by (cases "rc_bg C ps h w2") simp_all
        show ?thesis
        proof (cases ran)
          case (Panic msg)
          then have "part_panics C msg" using ran by (auto simp: part_panics_def)
          with Panic eq got s new ok ran show ?thesis by (auto simp: ended_well_def)
        next
          case (Returned x)
          obtain res fin h1 w3 where x: "x = (res, fin, h1, w3)" by (metis prod_cases4)
          obtain h2 w4 where ca: "rc_close_all_started C h1 w3 = (h2, w4)" by fastforce
          show ?thesis
            using eq got s new ok ran Returned x ca IH [of C None h2 w4 r]
            by (cases "rc_strat C"; cases fin; cases res) (auto simp: ended_well_def)
        qed
      qed
    qed
  qed
  with assms(2) show ?thesis by blast
qed

text \<open>
  Only what runs on a stream that \<open>new_stream\<close> makes matters: two clients that differ elsewhere do
  the same.
\<close>

definition runs_like :: "('s, 'ps, 'c, 'w) reconnect \<Rightarrow> ('s, 'ps, 'c, 'w) reconnect \<Rightarrow> bool" where
  "runs_like C C' \<longleftrightarrow> (\<exists>f. C' = C\<lparr>rc_bg := f\<rparr>)
     \<and> (\<forall>s c w ps w'. rc_new_stream C s c w = (Returned (Inr ps), w') \<longrightarrow> rc_bg C' ps = rc_bg C ps)"

lemma runs_like_sym: "runs_like C C' \<Longrightarrow> runs_like C' C"
proof -
  assume like: "runs_like C C'"
  then have "C = C'\<lparr>rc_bg := rc_bg C\<rparr>" and "rc_new_stream C' = rc_new_stream C" by (auto simp: runs_like_def)
  with like show ?thesis unfolding runs_like_def by metis
qed

lemma runs_like_parts:
  assumes "runs_like C C'"
  shows "rc_strat C' = rc_strat C" "rc_newest C' = rc_newest C" "rc_new_stream C' = rc_new_stream C"
    "rc_close_all_started C' = rc_close_all_started C" "reconnect_stream C' stream w = reconnect_stream C stream w"
    "rc_new_stream C s c w = (Returned (Inr ps), w') \<Longrightarrow> rc_bg C' ps = rc_bg C ps"
proof -
  from assms obtain f where C': "C' = C\<lparr>rc_bg := f\<rparr>"
    and same: "\<And>s c w ps w'. rc_new_stream C s c w = (Returned (Inr ps), w') \<Longrightarrow> rc_bg C' ps = rc_bg C ps"
    unfolding runs_like_def by blast
  from C' show "rc_strat C' = rc_strat C" "rc_newest C' = rc_newest C" "rc_new_stream C' = rc_new_stream C"
    "rc_close_all_started C' = rc_close_all_started C" by simp_all
  from C' show "reconnect_stream C' stream w = reconnect_stream C stream w"
    by (simp add: reconnect_stream_def split: option.split)
qed (use assms in \<open>unfold runs_like_def, blast\<close>)

lemma reconnect_like:
  assumes "bg_stream_reconnect C stream h w = Some r"
  shows "runs_like C C' \<Longrightarrow> bg_stream_reconnect C' stream h w = Some r"
proof -
  let ?P = "\<lambda>C stream h w r. \<forall>C'. runs_like C C' \<longrightarrow> bg_stream_reconnect C' stream h w = Some r"
  have "?P C stream h w r"
  proof (rule bg_stream_reconnect.raw_induct [of ?P, OF _ assms], goal_cases)
    case (1 again C stream h w r)
    note IH = 1(1) and eq = 1(2)
    show ?case
    proof (intro allI impI)
      fix C'
      assume like: "runs_like C C'"
      note parts = runs_like_parts [OF like]
      have IH': "again C None h1 w1 = Some r \<Longrightarrow> bg_stream_reconnect C' None h1 w1 = Some r" for h1 w1
        using IH like by blast
      note unfold = bg_stream_reconnect.simps [of C' stream h w, unfolded parts(1-5)]
      from eq obtain got where got: "reconnect_stream C stream w = Some got"
        by (cases "reconnect_stream C stream w") simp_all
      show "bg_stream_reconnect C' stream h w = Some r"
      proof (cases got)
        case (Panic msg)
        with eq got unfold show ?thesis by simp
      next
        case (Returned x)
        obtain s w1 where x: "x = (s, w1)" by (cases x)
        obtain new w2 where new: "rc_new_stream C s (rc_newest C w1) w1 = (new, w2)" by fastforce
        consider (panic) msg where "new = Panic msg" | (err) e where "new = Returned (Inl e)"
          | (ok) ps where "new = Returned (Inr ps)"
          by (cases new) (metis sum.exhaust)+
        then show ?thesis
        proof cases
          case ok
          with new parts(6) have "rc_bg C' ps = rc_bg C ps" by simp
          with eq got unfold Returned x new ok IH' show ?thesis
            by (auto split: Option.bind_splits outcome.splits prod.splits if_splits sum.splits)
        qed (use eq got unfold Returned x new IH' in \<open>auto split: if_splits\<close>)
      qed
    qed
  qed
  then show "runs_like C C' \<Longrightarrow> bg_stream_reconnect C' stream h w = Some r" by blast
qed

lemma reconnect_cong:
  assumes "runs_like C C'"
  shows "bg_stream_reconnect C' stream h w = bg_stream_reconnect C stream h w"
  using reconnect_like [of C stream h w _ C'] reconnect_like [of C' stream h w _ C] assms runs_like_sym [OF assms]
  by (metis option.exhaust)

section \<open>Properties\<close>

text \<open>
  C24. Closing returns: once the users have let go of their channels, the loop ends after at most as
  many rounds as there are packets and requests left, whatever order it takes them in and
  whether or not the stream still accepts packets.
\<close>

theorem closing_ends:
  assumes "drains T m" and "bg_should_close b" and "ids_ok (bg_handler b)"
    and "finite (dom (waiting_on_user (bg_handler b)))"
    and "covering S H P T rounds (Looping b)"
    and "left_over m (bg_handler b) (bg_runtime b) < length rounds"
  shows "\<exists>r b'. bg_run S H P T upd (map send_round rounds) (Looping b) = Done r b'"
  using assms by (intro rounds_end) (auto simp: closing_def)

text \<open>
  C26. A connection ends without an error only after it was closed, and only when nothing is left
  that its user sends: all answers and streams to the peer are finished. The one exception is a
  side that may send requests and has used all of its ids. So a user that keeps a stream open
  keeps the connection open, at a server that sends no requests always.
\<close>

theorem ends_when_drained:
  assumes "bg_step S H P T upd ev b = Done (Inr u) b'"
  shows "bg_should_close b
    \<and> (waiting_on_user (bg_handler b') = Map.empty
      \<or> h_state (bg_handler b') \<in> {UniClient None, BiServer None, BiClient None})"
proof -
  have ev: "\<exists>uf order. ev = ToSend uf order"
    using assms
    by (auto simp: bg_step_def bg_received_def bg_react_def bg_send_def Let_def
        split: bg_event.splits if_splits option.splits polled.splits sum.splits prod.splits
          receiver_error.splits send_back.splits)
  then obtain uf order where "ev = ToSend uf order" by blast
  with assms show ?thesis
    by (auto simp: bg_step_def bg_to_send_def bg_send_def bg_finish_def ids_used_up_def Let_def dest!: to_send_nothing
        split: outcome.splits prod.splits to_send_result.splits if_splits sum.splits)
qed

text \<open>
  C38. A request that was queued when the connection was closed is still sent, but its answer is
  not read any more.
\<close>

theorem late_request_unanswered:
  assumes "bg_should_close b" and "state_next_id (h_state (bg_handler b)) = Returned (Some i, s)"
    and "waiting_on_stream (bg_handler b) i = None"
    and "tk_requests_poll T (bg_runtime b) = (PollSome (IRequest pkt c), st)"
    and "ps_send S (stamped H P KRequest i pkt) (bg_stream b) = (Inr (), ps)"
  shows "\<exists>b'. bg_step S H P T upd (ToSend False order) b = Looping b' \<and> bg_stream b' = ps
    \<and> waiting_on_stream (bg_handler b') i = Some (StreamRequest c)
    \<and> bg_step S H P T upd (Received orders) b' = Looping b'"
proof -
  have "can_send_requests (h_state (bg_handler b))"
    using assms(2) by (cases "h_state (bg_handler b)") simp_all
  with assms show ?thesis
    by (simp add: bg_step_def bg_to_send_def bg_send_def handler_to_send_def request_branch_def
        start_request_def Let_def)
qed

text \<open>
  C37. After a lost connection the task takes the first stream that the strategy makes, which it tells
  how often it has failed, counted from 0. It does not look at the close signal while it does
  so: if no attempt succeeds the task never ends, and \<open>close\<close> waits for ever.
\<close>

theorem reconnecting_ignores_close:
  assumes "rc_strat C = Some recon"
  shows "((\<forall>n. isl (fst (attempt recon 0 n w))) \<longrightarrow> bg_stream_reconnect C None h w = None)
    \<and> (\<forall>n s w'. attempt recon 0 n w = (Inr s, w') \<and> (\<forall>m<n. isl (fst (attempt recon 0 m w)))
        \<longrightarrow> bg_stream_reconnect C None h w = bg_stream_reconnect C (Some s) h w')"
proof (intro conjI allI impI)
  assume never: "\<forall>n. isl (fst (attempt recon 0 n w))"
  have "reconnect_attempts recon 0 w = None"
  proof (cases "reconnect_attempts recon 0 w")
    case (Some y)
    from attempts_ended [OF this] obtain n where n: "attempt recon 0 n w = (Inr (fst y), snd y)" by blast
    have "isl (fst (attempt recon 0 n w))" by (rule spec [OF never])
    with n show ?thesis by simp
  qed
  then show "bg_stream_reconnect C None h w = None"
    by (simp only: from_strategy [OF assms] bind.bind_lzero)
next
  fix n s w'
  assume "attempt recon 0 n w = (Inr s, w') \<and> (\<forall>m<n. isl (fst (attempt recon 0 m w)))"
  then have "reconnect_attempts recon 0 w = Some (s, w')"
    by (blast intro: attempts_end)
  then show "bg_stream_reconnect C None h w = bg_stream_reconnect C (Some s) h w'"
    by (simp only: from_strategy [OF assms] bind.bind_lunit prod.case)
qed

text \<open>
  C36. The code that is marked as unreachable is not reached. With a strategy, the task returns no
  error; without one, it runs one stream and returns its result.
\<close>

theorem reconnecting_result:
  assumes "bg_stream_reconnect C (Some s0) h w = Some r"
  shows "(case r of
      Panic msg \<Rightarrow> part_panics C msg
    | Returned (res, h', w') \<Rightarrow>
        (rc_strat C \<noteq> None \<longrightarrow> res = Inr ())
      \<and> (rc_strat C = None \<longrightarrow> (case rc_new_stream C s0 (rc_newest C w) w of
            (Panic msg, w) \<Rightarrow> False
          | (Returned (Inl e), w) \<Rightarrow> res = Inl e \<and> h' = h \<and> w' = w
          | (Returned (Inr ps), w) \<Rightarrow> (\<exists>terminated. rc_bg C ps h w = Some (Returned (res, terminated, h', w'))))))"
proof -
  have "ended_well C r"
    using reconnect_returns [OF assms] by simp
  moreover have "rc_strat C = None \<Longrightarrow> bg_stream_reconnect C (Some s0) h w = Some r"
    by (rule assms)
  ultimately show ?thesis
    by (cases "rc_strat C")
      (auto simp: ended_well_def no_strategy split: outcome.splits prod.splits sum.splits if_splits)
qed

section \<open>The properties on concrete values\<close>

text \<open>A runtime whose users are gone: only the queued requests are left.\<close>

definition gone_tokio :: "('p internal_request list, 'p) tokio" where
  "gone_tokio = \<lparr>
     tk_oneshot = (\<lambda>st. (0, st)),
     tk_oneshot_poll = (\<lambda>_ st. (PollClosed, st)),
     tk_oneshot_close = (\<lambda>_ st. st),
     tk_response_send = (\<lambda>_ _ st. (False, st)),
     tk_mpsc = (\<lambda>_ st. (0, st)),
     tk_stream_send = (\<lambda>_ _ st. (False, st)),
     tk_stream_poll = (\<lambda>_ st. (PollClosed, st)),
     tk_stream_close = (\<lambda>_ st. st),
     tk_drop_sender = (\<lambda>_ st. st),
     tk_requests_send = (\<lambda>_ st. (False, st)),
     tk_requests_poll = (\<lambda>st. case st of [] \<Rightarrow> (PollClosed, []) | r # st \<Rightarrow> (PollSome r, st)),
     tk_requests_close = (\<lambda>st. st)\<rparr>"

lemma gone_drains: "drains gone_tokio length"
  by (simp add: drains_def gone_tokio_def split: list.split)

lemmas mini_run = mini_header_def mini_packet_def mini_def gone_tokio_def bg_to_send_def bg_send_def
  handler_to_send_def request_branch_def start_request_def user_branch_def bg_finish_def Let_def
  small_streams stamped_def with_id_def with_flags_def user_insert_def checked_add_1_def

definition closing_bg :: "(nat, u32 \<times> flags, (u32 \<times> flags) internal_request list) bg" where
  "closing_bg = \<lparr>bg_stream = 0,
     bg_handler = (handler_new False)\<lparr>waiting_on_user := [0 \<mapsto> UserReceiver 7], h_state := UniClient (Some 1)\<rparr>,
     bg_runtime = [IRequestSender (mini 0 KPing) 3], bg_should_close = True, bg_close_packet = None\<rparr>"

theorem closing_ends_witness:
  "\<exists>r b'. bg_run quiet_stream mini_header mini_packet gone_tokio (\<lambda>(c :: unit) ps. ps)
     (map send_round [(True, [0]), (True, []), (True, [1]), (True, [])]) (Looping closing_bg) = Done r b'"
proof (rule closing_ends [OF gone_drains])
  show "ids_ok (bg_handler closing_bg)"
    by (auto simp: closing_bg_def ids_ok_def in_use_def handler_new_def id_bound_def)
  show "covering quiet_stream mini_header mini_packet gone_tokio
     [(True, [0]), (True, []), (True, [1]), (True, [])] (Looping closing_bg)"
    by (simp add: closing_bg_def mini_run handler_new_def)
qed (simp_all add: closing_bg_def left_over_def handler_new_def)

theorem ends_when_drained_witness:
  "bg_should_close (closing_bg\<lparr>bg_handler := handler_new True, bg_runtime := []\<rparr>)
    \<and> waiting_on_user (handler_new True) = Map.empty"
proof -
  have "bg_step quiet_stream mini_header mini_packet gone_tokio (\<lambda>(c :: unit) ps. ps) (ToSend True [])
      (closing_bg\<lparr>bg_handler := handler_new True, bg_runtime := []\<rparr>)
    = Done (Inr ()) (closing_bg\<lparr>bg_handler := handler_new True, bg_runtime := []\<rparr>)"
    by (simp add: bg_step_def closing_bg_def mini_run handler_new_def)
  from ends_when_drained [OF this] show ?thesis by (simp add: handler_new_def)
qed

theorem late_request_unanswered_witness:
  "\<exists>b'. bg_step quiet_stream mini_header mini_packet gone_tokio (\<lambda>(c :: unit) ps. ps) (ToSend False [])
      (closing_bg\<lparr>bg_runtime := [IRequest (mini 0 KPing) 3]\<rparr>) = Looping b' \<and> bg_stream b' = 0
    \<and> waiting_on_stream (bg_handler b') 1 = Some (StreamRequest 3)
    \<and> bg_step quiet_stream mini_header mini_packet gone_tokio (\<lambda>(c :: unit) ps. ps) (Received ([], [])) b' = Looping b'"
  by (rule late_request_unanswered [where s = "UniClient (Some 2)" and pkt = "mini 0 KPing" and st = "[]"])
    (simp_all add: closing_bg_def handler_new_def mini_run)

text \<open>A strategy that fails twice.\<close>

definition third_time :: "nat \<Rightarrow> nat list \<Rightarrow> (io_error + bool) \<times> nat list" where
  "third_time n w = (if n < 2 then Inl IoTimedOut else Inr True, w @ [n])"

definition one_stream :: "(bool, nat, unit, nat list) reconnect" where
  "one_stream = \<lparr>rc_strat = Some third_time, rc_newest = (\<lambda>_. ()), rc_new_stream = (\<lambda>s c w. (Returned (Inr 5), w)),
     rc_bg = (\<lambda>ps h w. Some (Returned (if w = [] then Inl TaskJoin else Inr (), False, h, w))),
     rc_close_all_started = (\<lambda>h w. (h, w))\<rparr>"

theorem reconnecting_ignores_close_witness:
  "bg_stream_reconnect one_stream None (handler_new False) []
     = bg_stream_reconnect one_stream (Some True) (handler_new False) [0, 1, 2]"
proof -
  have late: "attempt third_time 0 2 [] = (Inr True, [0, 1, 2])"
    by (simp add: third_time_def numeral_2_eq_2)
  have early: "isl (fst (attempt third_time 0 m []))" if "m < 2" for m
    using that less_2_cases [of m] by (auto simp: third_time_def)
  have "rc_strat one_stream = Some third_time" by (simp add: one_stream_def)
  from conjunct2 [OF reconnecting_ignores_close [OF this]] late early show ?thesis by blast
qed

theorem reconnecting_result_witness:
  "\<exists>terminated. rc_bg (one_stream\<lparr>rc_strat := None\<rparr>) 5 (handler_new False) []
     = Some (Returned (Inl TaskJoin, terminated, handler_new False, []))"
proof -
  have "bg_stream_reconnect (one_stream\<lparr>rc_strat := None\<rparr>) (Some False) (handler_new False) []
      = Some (Returned (Inl TaskJoin, handler_new False, []))"
    by (simp add: bg_stream_reconnect.simps one_stream_def reconnect_stream_def)
  from reconnecting_result [OF this] show ?thesis by (simp add: one_stream_def)
qed

end
