(* ===== verification/Packet_Props.thy ===== *)
theory Packet_Props
  imports Streams
begin

unbundle bit_operations_syntax

text \<open>
  Properties of packets: flags and headers, and what one end of a connection sends the other
  receives, however the transport cuts the bytes and however often a receive is dropped.
\<close>

section \<open>A cipher to test with\<close>

text \<open>
  A cipher that satisfies what the model assumes of the \<open>crypto\<close> crate: the key is its nonce,
  and the \<open>Mac\<close> binds the nonce and the text.
\<close>

definition test_mac :: "u64 \<Rightarrow> byte list \<Rightarrow> byte list" where
  "test_mac k bs = le_bytes 8 k @ le_bytes 8 (foldr (\<lambda>b acc. ucast b + 31 * acc) bs k)"

definition test_cipher :: "u64 cipher_key" where
  "test_cipher = \<lparr>
     key_encrypt = (\<lambda>k pt. let ct = map (\<lambda>b. b XOR ucast k) pt in (ct, test_mac k ct, k + 1)),
     key_decrypt = (\<lambda>k ct m. (if m = test_mac k ct then Some (map (\<lambda>b. b XOR ucast k) ct) else None, k + 1))\<rparr>"

interpretation test_cipher: cipher test_cipher 16
  by unfold_locales
    (auto simp: test_cipher_def test_mac_def Let_def o_def xor.assoc split: if_splits)

interpretation encrypted_scripted: framed_stream "enc_packet_bytes 16" "enc_wf 16" 16 scripted_read snd H P
    "decrypt_header 16 test_cipher" "decrypt_body 16 test_cipher" for H P
  by (rule encrypted_framed) (rule test_cipher.cipher_axioms scripted.byte_stream_axioms)+

section \<open>Sending and receiving\<close>

lemma plain_views: "pb_header plain_packet_bytes = plain_header" "pb_body plain_packet_bytes = plain_body"
  by (simp_all add: plain_packet_bytes_def)

lemma enc_views': "pb_header (enc_packet_bytes n) = enc_header n" "pb_body (enc_packet_bytes n) = enc_body n"
  by (simp_all add: enc_packet_bytes_def)

text \<open>A pipe: what is written is kept.\<close>

definition pipe_writer :: "byte list stream_writer" where
  "pipe_writer = \<lparr>sw_write_all = (\<lambda>bs w. (Inr (), w @ bs)), sw_flush = (\<lambda>w. (Inr (), w))\<rparr>"

text \<open>The message that arrives: with its length, in a buffer that begins with the header.\<close>

definition arrived :: "int_bytes \<Rightarrow> 'a action \<Rightarrow> 'b packet_bytes \<Rightarrow> ('a, 'b) message \<Rightarrow> ('a, 'b) message" where
  "arrived N A B msg = \<lparr>ms_header = sent_header B msg, ms_bytes = message_into_bytes N A B msg\<rparr>"

lemma plain_sent:
  "plain_send (api_packet N A plain_packet_bytes) pipe_writer msg w
     = (Inr (), w @ plain_as_slice (message_into_bytes N A plain_packet_bytes msg))"
  by (simp add: plain_send_def pipe_writer_def api_packet_def)

lemma encrypted_sent:
  "encrypted_send OFFSET C (api_packet N A (enc_packet_bytes OFFSET)) pipe_writer msg k w
     = (let (b, k') = encrypt OFFSET C k (message_into_bytes N A (enc_packet_bytes OFFSET) msg)
        in (Inr (), k', w @ enc_as_slice OFFSET b))"
  by (simp add: encrypted_send_def pipe_writer_def api_packet_def split: prod.split)

lemma encrypted_arrives:
  assumes "int_codec N" and "action_law A" and "byte_stream rd pending" and C: "cipher C OFFSET"
    and wf: "enc_wf OFFSET HEADER_LEN (ms_bytes msg)" and ok: "sendable A (enc_packet_bytes OFFSET) limit msg"
    and sent: "encrypted_send OFFSET C (api_packet N A (enc_packet_bytes OFFSET)) pipe_writer msg k [] = (Inr (), k', sent)"
    and pend: "pending r = sent @ rest"
    and call: "receive_calls n (api_header N A) (enc_packet_bytes OFFSET) (api_packet N A (enc_packet_bytes OFFSET)) rd
      (decrypt_header OFFSET C) (decrypt_body OFFSET C) (receiver_new (api_header N A) (enc_packet_bytes OFFSET) limit) k r
      = (out, self', m', r')"
    and ready: "out \<noteq> Cancelled" "\<nexists>e. out = Ready (Inl (RIo e))"
  obtains buf where "out = Ready (Inr \<lparr>ms_header = sent_header (enc_packet_bytes OFFSET) msg, ms_bytes = buf\<rparr>)"
    and "enc_body OFFSET buf = enc_body OFFSET (ms_bytes msg)"
    and "m' = k'" and "self' = receiver_new (api_header N A) (enc_packet_bytes OFFSET) limit" and "pending r' = rest"
proof -
  let ?B = "enc_packet_bytes OFFSET"
  let ?H = "api_header N A" and ?P = "api_packet N A ?B"
  let ?b = "message_into_bytes N A ?B msg"
  have ann: "enc_wf OFFSET HEADER_LEN ?b"
      "announces ?H limit (enc_header OFFSET ?b) (enc_body OFFSET ?b) (sent_header ?B msg)"
      "enc_body OFFSET ?b = enc_body OFFSET (ms_bytes msg)"
    using message_announces [OF assms(1,2) enc.packet_buffer_axioms wf ok, unfolded enc_views'] by blast+
  obtain b' where enc: "encrypt OFFSET C k ?b = (b', k')" and slice: "sent = enc_as_slice OFFSET b'"
    using sent by (auto simp: encrypted_sent split: prod.splits)
  note framed = encrypted_framed [OF C assms(3)]
  have "buffered ?B (receiver_new ?H ?B limit) = []"
    by (simp add: buffered_def receiver_new_def)
  with framed_stream.receive_calls_at_once [OF framed framed_stream.receiver_new_ok [OF framed] call ready]
  obtain res where res: "out = Ready res"
      "packet_at_once ?H ?B ?P OFFSET (decrypt_header OFFSET C) (decrypt_body OFFSET C)
        (receiver_new ?H ?B limit) k (sent @ rest) = Some (res, self', m', pending r')"
    using pend by auto
  have len: "ph_len ?H = HEADER_LEN" by (simp add: api_header_def)
  from encrypted_at_once [OF C ann(1) [folded len] ann(2) enc, where P = ?P and rest = rest]
  obtain b'' where "enc_body OFFSET b'' = enc_body OFFSET ?b"
      "packet_at_once ?H ?B ?P OFFSET (decrypt_header OFFSET C) (decrypt_body OFFSET C)
        (receiver_new ?H ?B limit) k (sent @ rest)
      = Some (deliver ?P b'' (sent_header ?B msg), receiver_new ?H ?B limit, k', rest)"
    unfolding slice by blast
  with res ann(3) show ?thesis
    by (intro that [of b'']) (auto simp: deliver_def api_packet_def message_from_bytes_and_header_def)
qed

text \<open>
  C7. Encrypted connections: the same, with both ends holding the same key; what arrives has
  the header and the body that were sent, and the two keys have moved on alike.
\<close>

theorem encrypted_delivers:
  assumes "int_codec N" and "action_law A" and "byte_stream rd pending" and C: "cipher C OFFSET"
    and wf: "enc_wf OFFSET HEADER_LEN (ms_bytes msg)" and ok: "sendable A (enc_packet_bytes OFFSET) limit msg"
    and sent: "encrypted_send OFFSET C (api_packet N A (enc_packet_bytes OFFSET)) pipe_writer msg k [] = (Inr (), k', sent)"
    and pend: "pending r = sent @ rest"
    and call: "receive_calls n (api_header N A) (enc_packet_bytes OFFSET) (api_packet N A (enc_packet_bytes OFFSET)) rd
      (decrypt_header OFFSET C) (decrypt_body OFFSET C) (receiver_new (api_header N A) (enc_packet_bytes OFFSET) limit) k r
      = (out, self', m', r')"
    and ready: "out \<noteq> Cancelled" "\<nexists>e. out = Ready (Inl (RIo e))"
  shows "\<exists>buf. out = Ready (Inr \<lparr>ms_header = sent_header (enc_packet_bytes OFFSET) msg, ms_bytes = buf\<rparr>)
    \<and> enc_body OFFSET buf = enc_body OFFSET (ms_bytes msg)
    \<and> m' = k' \<and> self' = receiver_new (api_header N A) (enc_packet_bytes OFFSET) limit \<and> pending r' = rest"
  using encrypted_arrives [OF assms] by blast

section \<open>The properties on concrete values\<close>

text \<open>The action of the tests of \<open>message.rs\<close>.\<close>

datatype some_action = Act1 | Act2

definition some_action :: "some_action action" where
  "some_action = \<lparr>
     ac_from_u16 = (\<lambda>n. if n = 1 then Some Act1 else if n = 2 then Some Act2 else None),
     ac_as_u16 = (\<lambda>a. case a of Act1 \<Rightarrow> 1 | Act2 \<Rightarrow> 2),
     ac_max_body_size = (\<lambda>_. None)\<rparr>"

lemma some_action_law: "action_law some_action"
  by (auto simp: action_law_def some_action_def split: some_action.split)

text \<open>Whether a call of \<open>receive\<close> came to an end other than an error of the transport.\<close>

fun finished :: "('h receiver_error + 'p) polled \<Rightarrow> bool" where
  "finished (Ready (Inl (RIo e))) \<longleftrightarrow> False"
| "finished Cancelled \<longleftrightarrow> False"
| "finished _ \<longleftrightarrow> True"

lemma finishedD: "finished out \<Longrightarrow> out \<noteq> Cancelled \<and> (\<nexists>e. out = Ready (Inl (RIo e)))"
  by (cases out rule: finished.cases) auto

definition plain_example :: "(some_action, plain_bytes) message" where
  "plain_example = \<lparr>ms_header = header_empty\<lparr>hd_id := 7, hd_action := Action Act2\<rparr>,
     ms_bytes = \<lparr>p_bytes = replicate 12 0 @ [10, 20, 30], p_header_len = 12\<rparr>\<rparr>"

definition encrypted_example :: "(some_action, encrypted_bytes) message" where
  "encrypted_example = \<lparr>ms_header = header_empty\<lparr>hd_id := 7, hd_action := Action Act1\<rparr>,
     ms_bytes = \<lparr>e_bytes = replicate 44 0 @ [10, 20, 30], e_header_len = 12\<rparr>\<rparr>"

definition encrypted_pipe :: "(io_error + unit) \<times> u64 \<times> byte list" where
  "encrypted_pipe = encrypted_send 16 test_cipher (api_packet be_ints some_action (enc_packet_bytes 16))
     pipe_writer encrypted_example 5 []"

definition encrypted_run where
  "encrypted_run = receive_calls 3 (api_header be_ints some_action) (enc_packet_bytes 16)
     (api_packet be_ints some_action (enc_packet_bytes 16)) scripted_read
     (decrypt_header 16 test_cipher) (decrypt_body 16 test_cipher)
     (receiver_new (api_header be_ints some_action) (enc_packet_bytes 16) 3) 5
     ([3, 0, 5, 0, 4, 2, 0], snd (snd encrypted_pipe) @ [99])"

lemma encrypted_facts:
  "enc_wf 16 HEADER_LEN (ms_bytes encrypted_example)"
  "sendable some_action (enc_packet_bytes 16) 3 encrypted_example"
  "encrypted_send 16 test_cipher (api_packet be_ints some_action (enc_packet_bytes 16))
    pipe_writer encrypted_example 5 [] = (Inr (), fst (snd encrypted_pipe), snd (snd encrypted_pipe))"
  "receive_calls 3 (api_header be_ints some_action) (enc_packet_bytes 16)
     (api_packet be_ints some_action (enc_packet_bytes 16)) scripted_read
     (decrypt_header 16 test_cipher) (decrypt_body 16 test_cipher)
     (receiver_new (api_header be_ints some_action) (enc_packet_bytes 16) 3) 5
     ([3, 0, 5, 0, 4, 2, 0], snd (snd encrypted_pipe) @ [99])
     = (fst encrypted_run, fst (snd encrypted_run), fst (snd (snd encrypted_run)), snd (snd (snd encrypted_run)))"
  "fst encrypted_run \<noteq> Cancelled" "\<nexists>e. fst encrypted_run = Ready (Inl (RIo e))"
proof -
  show "enc_wf 16 HEADER_LEN (ms_bytes encrypted_example)"
    by (simp add: enc_wf_def encrypted_example_def HEADER_LEN_def)
  show "sendable some_action (enc_packet_bytes 16) 3 encrypted_example"
    by (simp add: sendable_def encrypted_example_def enc_packet_bytes_def enc_body_def header_fits_def some_action_def)
  have "\<not> isl (fst encrypted_pipe)" by code_simp
  then show "encrypted_send 16 test_cipher (api_packet be_ints some_action (enc_packet_bytes 16))
      pipe_writer encrypted_example 5 [] = (Inr (), fst (snd encrypted_pipe), snd (snd encrypted_pipe))"
    unfolding encrypted_pipe_def [symmetric] by (cases "fst encrypted_pipe") (auto simp: prod_eq_iff)
  show "receive_calls 3 (api_header be_ints some_action) (enc_packet_bytes 16)
     (api_packet be_ints some_action (enc_packet_bytes 16)) scripted_read
     (decrypt_header 16 test_cipher) (decrypt_body 16 test_cipher)
     (receiver_new (api_header be_ints some_action) (enc_packet_bytes 16) 3) 5
     ([3, 0, 5, 0, 4, 2, 0], snd (snd encrypted_pipe) @ [99])
     = (fst encrypted_run, fst (snd encrypted_run), fst (snd (snd encrypted_run)), snd (snd (snd encrypted_run)))"
    by (simp only: encrypted_run_def prod.collapse)
  have "finished (fst encrypted_run)" by code_simp
  then show "fst encrypted_run \<noteq> Cancelled" "\<nexists>e. fst encrypted_run = Ready (Inl (RIo e))"
    by (auto dest: finishedD)
qed

theorem encrypted_delivers_witness:
  "\<exists>buf. fst encrypted_run = Ready (Inr \<lparr>ms_header = sent_header (enc_packet_bytes 16) encrypted_example, ms_bytes = buf\<rparr>)
    \<and> enc_body 16 buf = enc_body 16 (ms_bytes encrypted_example)
    \<and> fst (snd (snd encrypted_run)) = fst (snd encrypted_pipe)
    \<and> fst (snd encrypted_run) = receiver_new (api_header be_ints some_action) (enc_packet_bytes 16) 3
    \<and> snd (snd (snd (snd encrypted_run))) = [99]"
  by (rule encrypted_delivers [OF be.int_codec_axioms some_action_law scripted.byte_stream_axioms
        test_cipher.cipher_axioms encrypted_facts(1-3) _ encrypted_facts(4-6)]) simp

end
