(* ===== verification/Receiver_Props.thy ===== *)
theory Receiver_Props
  imports Packet_Props
begin

text \<open>
  The packet receiver over a whole connection: it never panics, keeps the layout of its buffer
  whatever the stream does, and refines a receiver that is given all bytes at once.
\<close>

section \<open>The layout of the buffer\<close>

context byte_stream
begin

lemma read_full_len:
  assumes "read_full rd view read r = (res, view', read', r')" and "read \<le> length view"
  shows "length view' = length view \<and> read' \<le> length view \<and> res \<noteq> Panicked"
  using assms
proof (induction "length view - read" arbitrary: view read r rule: less_induct)
  case less
  obtain out r1 where out: "rd (length view - read) r = (out, r1)"
    by (cases "rd (length view - read) r")
  show ?case
  proof (cases out)
    case (ReadBytes bs)
    define view1 where "view1 = take read view @ bs @ drop (read + length bs) view"
    have "length bs \<le> length view - read"
      using read_bytes out ReadBytes by auto
    then have len: "length view1 = length view" "read + length bs \<le> length view"
      using less.prems(2) by (simp_all add: view1_def)
    show ?thesis
    proof (cases "length view \<le> read + length bs \<or> bs = []")
      case True
      with less.prems(1) out ReadBytes len show ?thesis
        by (auto simp: read_full.simps [of rd view] Let_def view1_def [symmetric] split: if_splits)
    next
      case False
      with less.prems(1) out ReadBytes have "read_full rd view1 (read + length bs) r1 = (res, view', read', r')"
        by (simp add: read_full.simps [of rd view] Let_def view1_def)
      moreover have "length view1 - (read + length bs) < length view - read"
        using False len by (cases bs) auto
      ultimately show ?thesis
        using less.hyps [of view1 "read + length bs" r1] len by simp
    qed
  qed (use less.prems out in \<open>auto simp: read_full.simps [of rd view]\<close>)
qed

end

context framed_stream
begin

abbreviation at_once where
  "at_once \<equiv> packet_at_once H B P mac mutate_header mutate_body"

lemma header_keeps_ok:
  assumes ok: "receiver_ok self" and call: "read_header H B rd mutate_header self m r = (out, self', m', r')"
  shows "receiver_ok self' \<and> out \<noteq> Panicked \<and> (out = Ready (Inr ()) \<longrightarrow> pr_header self' \<noteq> None)"
proof (cases "pr_header self")
  case None
  let ?v = "pb_full_header B (pr_bytes self)"
  have len: "length ?v = mac + ph_len H" "pr_read self \<le> mac + ph_len H" and wf: "wf (ph_len H) (pr_bytes self)"
    using ok None by (auto simp: receiver_ok_def full_header_len)
  obtain res view read r1 where full: "read_full rd ?v (pr_read self) r = (res, view, read, r1)"
    by (rule prod_cases4)
  with len have view: "length view = mac + ph_len H" "read \<le> mac + ph_len H" "res \<noteq> Panicked"
    using read_full_len [OF full] by simp_all
  show ?thesis
    using call full None view(2,3) set_full_header [OF wf view(1)] mutate_header_wf
    by (auto simp: read_header_def receiver_ok_def Let_def split: polled.splits sum.splits prod.splits)
qed (use assms in \<open>auto simp: read_header_def\<close>)

lemma body_keeps_ok:
  assumes ok: "receiver_ok self" and h: "pr_header self = Some h"
    and call: "read_body H B P rd mutate_body self m r = (out, self', m', r')"
  shows "receiver_ok self' \<and> out \<noteq> Panicked"
proof (cases "ph_body_len H h = 0 \<or> pr_read self = 0 \<and> pr_body_limit self \<noteq> 0 \<and> ph_body_len H h > pr_body_limit self")
  case True
  with call ok h show ?thesis
    by (auto simp: read_body_def take_message_def receiver_ok_def new_wf Let_def split: sum.splits if_splits)
next
  case False
  then have go: "ph_body_len H h \<noteq> 0"
      "\<not> (pr_read self = 0 \<and> pr_body_limit self \<noteq> 0 \<and> ph_body_len H h > pr_body_limit self)"
    by auto
  note sized = sized_facts [OF ok h]
  obtain res view read r1 where full:
      "read_full rd (pb_full_body B (sized h self)) (pr_read self) r = (res, view, read, r1)"
    by (rule prod_cases4)
  have view: "length view = length (pb_full_body B (sized h self))" "read \<le> mac + unat (ph_body_len H h)"
      "res \<noteq> Panicked"
    using read_full_len [OF full] sized by simp_all
  note put = set_full_body [OF sized(1) view(1)]
  have "length (pb_body B (pb_set_full_body B view (sized h self))) = unat (ph_body_len H h)"
    using put full_body_len sized(3) view(1) by (metis add_left_cancel)
  then have kept: "receiver_ok (self\<lparr>pr_bytes := pb_set_full_body B view (sized h self), pr_read := read\<rparr>)"
    using put view h go by (simp add: receiver_ok_def)
  show ?thesis
    using call [unfolded read_body_step [OF ok h go full]] kept view(3) h
    by (auto simp: Let_def soft_error_def take_message_def receiver_ok_def new_wf
        split: polled.splits sum.splits prod.splits option.splits)
qed

lemma receive_keeps_ok:
  assumes ok: "receiver_ok self"
    and call: "receive_packet H B P rd mutate_header mutate_body self m r = (out, self', m', r')"
  shows "receiver_ok self' \<and> out \<noteq> Panicked"
proof -
  obtain out1 self1 m1 r1 where header: "read_header H B rd mutate_header self m r = (out1, self1, m1, r1)"
    by (rule prod_cases4)
  note h = header_keeps_ok [OF ok header]
  show ?thesis
  proof (cases "out1 = Ready (Inr ())")
    case True
    with h obtain hd where "pr_header self1 = Some hd" by auto
    with True call header h body_keeps_ok [of self1 hd] show ?thesis
      by (simp add: receive_packet_def)
  next
    case False
    with call header h show ?thesis
      by (auto simp: receive_packet_def split: polled.splits sum.splits)
  qed
qed

end

section \<open>A connection's receives\<close>

text \<open>
  What may happen to a receiver: \<open>receive\<close> is called, whatever comes of it; its limit is
  changed; the key and the stream change.
\<close>

inductive receiver_step where
  receive: "receive_packet H B P rd mutate_header mutate_body self m r = (out, self', m', r') \<Longrightarrow>
    receiver_step H B P rd mutate_header mutate_body (self, m, r) (self', m', r')"
| limit: "receiver_step H B P rd mutate_header mutate_body (self, m, r) (set_body_limit l self, m, r)"
| surroundings: "receiver_step H B P rd mutate_header mutate_body (self, m, r) (self, m', r')"

inductive_cases receiver_stepE: "receiver_step H B P rd mutate_header mutate_body s (self', m', r')"

text \<open>
  \<open>n\<close> calls of \<open>receive\<close>, and what those gave that were not cancelled. A connection ends with
  the first error that is not soft.
\<close>

fun fatal :: "('h receiver_error + 'p) polled \<Rightarrow> bool" where
  "fatal (Ready (Inl (RIo e))) \<longleftrightarrow> True"
| "fatal (Ready (Inl (RHard e))) \<longleftrightarrow> True"
| "fatal Panicked \<longleftrightarrow> True"
| "fatal _ \<longleftrightarrow> False"

fun receive_all where
  "receive_all 0 H B P rd mutate_header mutate_body self m r = ([], self, m, r)"
| "receive_all (Suc n) H B P rd mutate_header mutate_body self m r =
     (case receive_packet H B P rd mutate_header mutate_body self m r of (out, self, m, r) \<Rightarrow>
        if fatal out then ([out], self, m, r)
        else case receive_all n H B P rd mutate_header mutate_body self m r of (outs, rest) \<Rightarrow>
          (if out = Cancelled then outs else out # outs, rest))"

text \<open>The specification: the first \<open>n\<close> results of bytes that are all there, if they are.\<close>

fun all_at_once where
  "all_at_once 0 H B P mac mutate_header mutate_body self m bs = Some []"
| "all_at_once (Suc n) H B P mac mutate_header mutate_body self m bs =
     (case packet_at_once H B P mac mutate_header mutate_body self m bs of
        None \<Rightarrow> None
      | Some (res, self, m, bs) \<Rightarrow>
          if fatal (Ready res) then Some [Ready res]
          else map_option ((#) (Ready res)) (all_at_once n H B P mac mutate_header mutate_body self m bs))"

context framed_stream
begin

lemma receiver_step_ok:
  assumes "receiver_step H B P rd mutate_header mutate_body s s'" and "receiver_ok (fst s)"
  shows "receiver_ok (fst s')"
  using assms
proof cases
  case (receive self m r out self' m' r')
  with receive_keeps_ok assms(2) show ?thesis by fastforce
qed (auto simp: receiver_ok_def set_body_limit_def cong: option.case_cong)

lemma receiver_steps_ok:
  assumes "(receiver_step H B P rd mutate_header mutate_body)\<^sup>*\<^sup>* s s'" and "receiver_ok (fst s)"
  shows "receiver_ok (fst s')"
  using assms by (induction rule: rtranclp_induct) (auto dest: receiver_step_ok)

text \<open>A result that does not end the connection leaves nothing in the buffer.\<close>

lemma finished_empty:
  assumes "at_once self m bs = Some (res, self', m', bs')" and "\<not> fatal (Ready res)"
  shows "buffered B self' = []"
proof -
  have body: "buffered B self' = []"
    if "body_at_once H B P mac mutate_body h self m bs = Some (res, self', m', bs')" for h self m bs
    using that assms(2)
    by (auto simp: body_at_once_def Let_def buffered_def split: if_splits sum.splits prod.splits)
  show ?thesis
    using assms
    by (auto simp: packet_at_once_def header_at_once_def Let_def dest: body
        split: option.splits Option.bind_splits if_splits sum.splits prod.splits)
qed

text \<open>The refinement: the packets to come are the same before and after a call.\<close>

lemma receive_all_refines:
  assumes "receiver_ok self"
    and "receive_all n H B P rd mutate_header mutate_body self m r = (outs, self', m', r')"
    and "\<nexists>e. Ready (Inl (RIo e)) \<in> set outs"
  shows "all_at_once (length outs + k) H B P mac mutate_header mutate_body self m (buffered B self @ pending r)
    = (if \<exists>out \<in> set outs. fatal out then Some outs
       else map_option ((@) outs)
         (all_at_once k H B P mac mutate_header mutate_body self' m' (buffered B self' @ pending r')))"
  using assms
proof (induction n arbitrary: self m r outs)
  case 0
  then show ?case
    by (cases "all_at_once k H B P mac mutate_header mutate_body self m (buffered B self @ pending r)") auto
next
  case (Suc n)
  obtain out1 self1 m1 r1 where one: "receive_packet H B P rd mutate_header mutate_body self m r = (out1, self1, m1, r1)"
    by (rule prod_cases4)
  note keeps = receive_keeps_ok [OF Suc.prems(1) one]
  show ?case
  proof (cases "fatal out1")
    case True
    with Suc.prems(2) one have outs: "outs = [out1]" by auto
    have "out1 \<noteq> Cancelled" "\<nexists>e. out1 = Ready (Inl (RIo e))"
      using True Suc.prems(3) outs by auto
    with receive_ready [OF Suc.prems(1) one] obtain res where "out1 = Ready res"
        "at_once self m (buffered B self @ pending r) = Some (res, self1, m1, pending r1)"
      by blast
    with True outs show ?thesis by simp
  next
    case False
    obtain outs1 where all: "receive_all n H B P rd mutate_header mutate_body self1 m1 r1 = (outs1, self', m', r')"
      and outs: "outs = (if out1 = Cancelled then outs1 else out1 # outs1)"
      using Suc.prems(2) one False by (auto split: prod.splits)
    have "\<nexists>e. Ready (Inl (RIo e)) \<in> set outs1"
      using Suc.prems(3) outs by (auto split: if_splits)
    note IH = Suc.IH [OF conjunct1 [OF keeps] all this]
    show ?thesis
    proof (cases "out1 = Cancelled")
      case True
      with receive_cancelled [OF Suc.prems(1) one [unfolded True]]
      have same: "at_once self m (buffered B self @ pending r) = at_once self1 m1 (buffered B self1 @ pending r1)"
        by simp
      have "all_at_once j H B P mac mutate_header mutate_body self m (buffered B self @ pending r)
          = all_at_once j H B P mac mutate_header mutate_body self1 m1 (buffered B self1 @ pending r1)" for j
        by (cases j) (simp_all add: same)
      with IH True outs show ?thesis by simp
    next
      case ready: False
      have "\<nexists>e. out1 = Ready (Inl (RIo e))" using False by auto
      with receive_ready [OF Suc.prems(1) one ready] obtain res where res: "out1 = Ready res"
          "at_once self m (buffered B self @ pending r) = Some (res, self1, m1, pending r1)"
        by blast
      moreover have "buffered B self1 = []"
        using finished_empty [OF res(2)] False res(1) by simp
      ultimately show ?thesis
        using IH False ready outs by (auto simp: option.map_comp o_def intro!: option.map_cong)
    qed
  qed
qed

end

section \<open>Properties\<close>

text \<open>
  C11. The receiver of an encrypted connection never panics: whatever bytes and errors the stream
  gives, whatever the peer announces and however often \<open>receive\<close> is dropped, called again
  after an error or given another limit or key, no \<open>expect\<close> or \<open>assert!\<close> fails, and the buffer
  keeps its layout of header and body.
\<close>

theorem receive_never_panics:
  assumes "cipher C OFFSET" and "byte_stream rd pending"
    and "(receiver_step H (enc_packet_bytes OFFSET) P rd (decrypt_header OFFSET C) (decrypt_body OFFSET C))\<^sup>*\<^sup>*
      (receiver_new H (enc_packet_bytes OFFSET) limit, k, r) (self, k', r')"
  shows "enc_wf OFFSET (ph_len H) (pr_bytes self)
    \<and> fst (receive_packet H (enc_packet_bytes OFFSET) P rd (decrypt_header OFFSET C) (decrypt_body OFFSET C)
        self k' r') \<noteq> Panicked"
proof -
  note framed = encrypted_framed [OF assms(1,2)]
  have ok: "framed_stream.receiver_ok (enc_packet_bytes OFFSET) (enc_wf OFFSET) OFFSET H self"
    by (rule framed_stream.receiver_steps_ok [OF framed assms(3), unfolded fst_conv])
      (rule framed_stream.receiver_new_ok [OF framed])
  obtain out s1 k1 r1 where
    "receive_packet H (enc_packet_bytes OFFSET) P rd (decrypt_header OFFSET C) (decrypt_body OFFSET C) self k' r'
      = (out, s1, k1, r1)"
    by (rule prod_cases4)
  with framed_stream.receive_keeps_ok [OF framed ok this] ok show ?thesis
    by (simp add: framed_stream.receiver_ok_def [OF framed])
qed

text \<open>
  C3. The receiver implements one that is given all bytes at once. Whatever calls of \<open>receive\<close>
  were made, dropped ones among them, the results so far are those of the bytes the stream
  began with, up to an error that ends the connection, and the results to come are those of the
  bytes that the receiver holds and the stream has still to deliver.
\<close>

theorem receiver_refines_at_once:
  fixes H :: "'h packet_header" and P :: "('p, 'h, encrypted_bytes) packet"
  assumes "cipher C OFFSET" and "byte_stream rd pending"
    and "receive_all n H (enc_packet_bytes OFFSET) P rd (decrypt_header OFFSET C) (decrypt_body OFFSET C)
      (receiver_new H (enc_packet_bytes OFFSET) limit) k r = (outs, self', k', r')"
    and "\<nexists>e. Ready (Inl (RIo e)) \<in> set outs"
  shows "all_at_once (length outs + j) H (enc_packet_bytes OFFSET) P OFFSET (decrypt_header OFFSET C)
      (decrypt_body OFFSET C) (receiver_new H (enc_packet_bytes OFFSET) limit) k (pending r)
    = (if \<exists>out \<in> set outs. fatal out then Some outs
       else map_option ((@) outs) (all_at_once j H (enc_packet_bytes OFFSET) P OFFSET (decrypt_header OFFSET C)
         (decrypt_body OFFSET C) self' k' (buffered (enc_packet_bytes OFFSET) self' @ pending r')))"
proof -
  note framed = encrypted_framed [OF assms(1,2)]
  have "buffered (enc_packet_bytes OFFSET) (receiver_new H (enc_packet_bytes OFFSET) limit) = []"
    by (simp add: buffered_def receiver_new_def)
  with framed_stream.receive_all_refines [OF framed framed_stream.receiver_new_ok [OF framed] assms(3,4), of j]
  show ?thesis by simp
qed

section \<open>The properties on concrete values\<close>

text \<open>The message of \<open>encrypted_example\<close>, cut into portions, and the first byte of another.\<close>

definition received_run where
  "received_run = receive_all 5 (api_header be_ints some_action) (enc_packet_bytes 16)
     (api_packet be_ints some_action (enc_packet_bytes 16)) scripted_read
     (decrypt_header 16 test_cipher) (decrypt_body 16 test_cipher)
     (receiver_new (api_header be_ints some_action) (enc_packet_bytes 16) 3) 5
     ([3, 0, 5, 0, 40, 2, 0, 9, 9, 0, 1, 0], snd (snd encrypted_pipe) @ [99])"

lemma received_facts: "length (fst received_run) = 1" "\<not> fatal (hd (fst received_run))"
  by code_simp+

lemma received_run:
  "receive_all 5 (api_header be_ints some_action) (enc_packet_bytes 16)
     (api_packet be_ints some_action (enc_packet_bytes 16)) scripted_read
     (decrypt_header 16 test_cipher) (decrypt_body 16 test_cipher)
     (receiver_new (api_header be_ints some_action) (enc_packet_bytes 16) 3) 5
     ([3, 0, 5, 0, 40, 2, 0, 9, 9, 0, 1, 0], snd (snd encrypted_pipe) @ [99])
   = (fst received_run, fst (snd received_run), fst (snd (snd received_run)), snd (snd (snd received_run)))"
  by (simp only: received_run_def prod.collapse)

lemma received_steps:
  "receive_all n H B P rd mutate_header mutate_body self m r = (outs, self', m', r')
    \<Longrightarrow> (receiver_step H B P rd mutate_header mutate_body)\<^sup>*\<^sup>* (self, m, r) (self', m', r')"
  by (induction n arbitrary: self m r outs)
    (auto intro: receiver_step.receive converse_rtranclp_into_rtranclp split: prod.splits if_splits)

theorem receive_never_panics_witness:
  "enc_wf 16 (ph_len (api_header be_ints some_action)) (pr_bytes (fst (snd received_run)))
    \<and> fst (receive_packet (api_header be_ints some_action) (enc_packet_bytes 16)
      (api_packet be_ints some_action (enc_packet_bytes 16)) scripted_read
      (decrypt_header 16 test_cipher) (decrypt_body 16 test_cipher)
      (fst (snd received_run)) (fst (snd (snd received_run))) (snd (snd (snd received_run)))) \<noteq> Panicked"
  by (rule receive_never_panics [OF test_cipher.cipher_axioms scripted.byte_stream_axioms])
    (rule received_steps [OF received_run])

theorem receiver_refines_at_once_witness:
  "all_at_once (length (fst received_run) + 1) (api_header be_ints some_action) (enc_packet_bytes 16)
     (api_packet be_ints some_action (enc_packet_bytes 16)) 16 (decrypt_header 16 test_cipher)
     (decrypt_body 16 test_cipher) (receiver_new (api_header be_ints some_action) (enc_packet_bytes 16) 3) 5
     (snd ([3, 0, 5, 0, 40, 2, 0, 9, 9, 0, 1, 0] :: nat list, snd (snd encrypted_pipe) @ [99]))
   = (if \<exists>out \<in> set (fst received_run). fatal out then Some (fst received_run)
      else map_option ((@) (fst received_run)) (all_at_once 1 (api_header be_ints some_action) (enc_packet_bytes 16)
        (api_packet be_ints some_action (enc_packet_bytes 16)) 16 (decrypt_header 16 test_cipher)
        (decrypt_body 16 test_cipher) (fst (snd received_run)) (fst (snd (snd received_run)))
        (buffered (enc_packet_bytes 16) (fst (snd received_run)) @ snd (snd (snd (snd received_run))))))"
proof (rule receiver_refines_at_once [OF test_cipher.cipher_axioms scripted.byte_stream_axioms received_run])
  have "length (fst received_run) = 1" "\<not> fatal (hd (fst received_run))" by (rule received_facts)+
  then show "\<nexists>e. Ready (Inl (RIo e)) \<in> set (fst received_run)"
    by (cases "fst received_run") auto
qed

end
