(* ===== verification/Transport_Props.thy ===== *)
theory Transport_Props
  imports Transport Receiver_Props
begin

text \<open>
  What holds of a connection as it runs over its byte streams: whatever is sent and received in
  between and however the bytes are cut, the packets that one side sends arrive at the
  other, each once and in order.
\<close>

section \<open>Bytes that hold several packets\<close>

lemma finish_keeps_limit:
  "take_message H B P self = (out, self') \<Longrightarrow> pr_body_limit self' = pr_body_limit self"
  "soft_error H B e self = (out, self') \<Longrightarrow> pr_body_limit self' = pr_body_limit self"
  by (auto simp: take_message_def soft_error_def Let_def split: option.splits sum.splits)

lemma header_keeps_limit:
  "read_header H B rd mutate self m r = (out, self', m', r') \<Longrightarrow> pr_body_limit self' = pr_body_limit self"
  by (auto simp: read_header_def Let_def split: if_splits prod.splits polled.splits sum.splits)

lemma body_keeps_limit:
  assumes "read_body H B P rd mutate self m r = (out, self', m', r')"
  shows "pr_body_limit self' = pr_body_limit self"
  using assms unfolding read_body_def Let_def
  by (auto split: if_splits prod.splits polled.splits sum.splits option.splits dest!: finish_keeps_limit)

lemma receive_keeps_limit:
  "receive_packet H B P rd mutate_header mutate_body self m r = (out, self', m', r')
    \<Longrightarrow> pr_body_limit self' = pr_body_limit self"
  by (auto simp: receive_packet_def split: prod.splits polled.splits sum.splits
      dest!: header_keeps_limit body_keeps_limit)

context framed_stream
begin

lemma header_at_once_more:
  "header_at_once H B mac mutate_header self m bs = Some (res, self', m', bs')
    \<Longrightarrow> header_at_once H B mac mutate_header self m (bs @ xs) = Some (res, self', m', bs' @ xs)"
  by (auto simp: header_at_once_def Let_def split: if_splits sum.splits prod.splits)

lemma body_at_once_more:
  "body_at_once H B P mac mutate_body h self m bs = Some (res, self', m', bs')
    \<Longrightarrow> body_at_once H B P mac mutate_body h self m (bs @ xs) = Some (res, self', m', bs' @ xs)"
  by (auto simp: body_at_once_def Let_def split: if_splits sum.splits prod.splits)

lemma at_once_more:
  "at_once self m bs = Some (res, self', m', bs') \<Longrightarrow> at_once self m (bs @ xs) = Some (res, self', m', bs' @ xs)"
proof (cases "pr_header self")
  case None
  assume a: "at_once self m bs = Some (res, self', m', bs')"
  with None obtain r1 self1 m1 bs1 where
    h: "header_at_once H B mac mutate_header self m bs = Some (r1, self1, m1, bs1)"
    by (auto simp: packet_at_once_def split: Option.bind_splits)
  from header_at_once_more [OF h] h a None show ?thesis
    by (cases r1) (auto simp: packet_at_once_def body_at_once_more)
qed (simp add: packet_at_once_def body_at_once_more)

text \<open>A packet whose bytes are not all there is not read.\<close>

lemma at_once_short:
  assumes "at_once self m (bs @ xs) = Some (res, self', m', [])" and "xs \<noteq> []"
  shows "at_once self m bs = None"
proof (rule ccontr)
  assume "at_once self m bs \<noteq> None"
  then obtain r s k bs' where "at_once self m bs = Some (r, s, k, bs')"
    by (auto simp: prod_eq_iff)
  from at_once_more [OF this, of xs] assms show False by simp
qed

text \<open>The packets that the bytes \<open>bs\<close> hold for a receiver, and no more.\<close>

fun expects :: "('h, 'b) packet_receiver \<Rightarrow> 'm \<Rightarrow> byte list \<Rightarrow> 'p list \<Rightarrow> bool" where
  "expects self m bs [] \<longleftrightarrow> at_once self m bs = None"
| "expects self m bs (p # ps) \<longleftrightarrow>
     (\<exists>self' m' bs'. at_once self m bs = Some (Inr p, self', m', bs') \<and> receiver_ok self' \<and> buffered B self' = []
        \<and> expects self' m' bs' ps)"

text \<open>One call of \<open>receive\<close>: it is cancelled, or it gives the next packet.\<close>

lemma receive_expected:
  assumes "receiver_ok self" and "expects self m (buffered B self @ pending r) ps"
    and "receive_packet H B P rd mutate_header mutate_body self m r = (out, self', m', r')"
    and "\<nexists>e. out = Ready (Inl (RIo e))"
  shows "receiver_ok self' \<and>
    (out = Cancelled \<and> expects self' m' (buffered B self' @ pending r') ps
     \<or> (\<exists>p ps'. ps = p # ps' \<and> out = Ready (Inr p) \<and> expects self' m' (buffered B self' @ pending r') ps'))"
proof (cases "out = Cancelled")
  case True
  note step = receive_cancelled [OF assms(1) assms(3) [unfolded True]]
  moreover have "expects self' m' (buffered B self' @ pending r') ps"
    using step assms(2) by (cases ps) simp_all
  ultimately show ?thesis using True by blast
next
  case False
  from receive_ready [OF assms(1,3) False assms(4)] obtain res where res: "out = Ready res"
      "at_once self m (buffered B self @ pending r) = Some (res, self', m', pending r')"
    by blast
  with assms(2) show ?thesis by (cases ps) auto
qed


text \<open>Packets that were put one after the other, each into bytes for a new receiver.\<close>

fun framed :: "u32 \<Rightarrow> 'm \<Rightarrow> byte list list \<Rightarrow> 'p list \<Rightarrow> bool" where
  "framed limit m [] ps \<longleftrightarrow> ps = []"
| "framed limit m (c # cs) ps \<longleftrightarrow>
     (\<exists>p ps' m'. ps = p # ps'
        \<and> at_once (receiver_new H B limit) m c = Some (Inr p, receiver_new H B limit, m', []) \<and> framed limit m' cs ps')"

lemma new_needs_bytes: "0 < mac + ph_len H \<Longrightarrow> at_once (receiver_new H B limit) m [] = None"
  by (simp add: packet_at_once_def receiver_new_def header_at_once_def)

lemma new_buffered: "buffered B (receiver_new H B limit) = []"
  by (simp add: buffered_def receiver_new_def)

lemma framed_prefix:
  assumes "0 < mac + ph_len H" and "framed limit m cs ps" and "concat cs = bs @ lost"
  shows "\<exists>k. expects (receiver_new H B limit) m bs (take k ps)"
  using assms(2,3)
proof (induction cs arbitrary: m ps bs)
  case Nil
  then show ?case
    by (intro exI [of _ 0]) (simp add: new_needs_bytes [OF assms(1)])
next
  case (Cons c cs)
  from Cons.prems(1) obtain p ps' m' where ps: "ps = p # ps'"
    and c: "at_once (receiver_new H B limit) m c = Some (Inr p, receiver_new H B limit, m', [])"
    and rest: "framed limit m' cs ps'"
    by auto
  from Cons.prems(2) obtain us where "bs = c @ us \<and> concat cs = us @ lost \<or> c = bs @ us \<and> lost = us @ concat cs"
    by (auto simp: append_eq_append_conv2)
  then consider us where "bs = c @ us" "concat cs = us @ lost" | us where "c = bs @ us" "us \<noteq> []"
    by (cases "us = []") fastforce+
  then show ?case
  proof cases
    case 1
    with Cons.IH [OF rest] obtain k where "expects (receiver_new H B limit) m' us (take k ps')" by blast
    with at_once_more [OF c, of us] 1 show ?thesis
      by (intro exI [of _ "Suc k"]) (simp add: ps receiver_new_ok new_buffered)
  next
    case 2
    with at_once_short [of "receiver_new H B limit" m bs us] c show ?thesis
      by (intro exI [of _ 0]) simp
  qed
qed

end

section \<open>A stream in use\<close>

text \<open>
  What is done with a packet stream, until it fails: the packets that were given to it, and the
  results of receiving but for those that are only of the transport.
\<close>

datatype 'p stream_op = SendOp 'p | ReceiveOp | ConfigOp config

fun run_ops ::
    "('ps, 'p, 'h) packet_stream \<Rightarrow> (config \<Rightarrow> 'ps \<Rightarrow> 'ps) \<Rightarrow> 'p stream_op list \<Rightarrow> 'ps
      \<Rightarrow> 'p list \<times> ('h receiver_error + 'p) polled list \<times> 'ps" where
  "run_ops S upd [] ps = ([], [], ps)"
| "run_ops S upd (SendOp p # ops) ps =
     (case ps_send S p ps of
        (Inl e, ps) \<Rightarrow> ([p], [], ps)
      | (Inr _, ps) \<Rightarrow> (case run_ops S upd ops ps of (sent, got, ps) \<Rightarrow> (p # sent, got, ps)))"
| "run_ops S upd (ReceiveOp # ops) ps =
     (case ps_receive S ps of
        (Cancelled, ps) \<Rightarrow> run_ops S upd ops ps
      | (Ready (Inl (RIo e)), ps) \<Rightarrow> ([], [], ps)
      | (r, ps) \<Rightarrow> (case run_ops S upd ops ps of (sent, got, ps) \<Rightarrow> (sent, r # got, ps)))"
| "run_ops S upd (ConfigOp cfg # ops) ps = run_ops S upd ops (upd cfg ps)"

text \<open>A packet stream that receives with a packet receiver.\<close>

locale endpoint = framed_stream B wf mac rd pending H P mutate_header mutate_body
  for B :: "'b packet_bytes" and wf mac and rd :: "'r stream_reader" and pending and H :: "'h packet_header"
    and P :: "('p, 'h, 'b) packet" and mutate_header mutate_body :: "('m, 'b) mutator" +
  fixes S :: "('ps, 'p, 'h) packet_stream" and upd :: "config \<Rightarrow> 'ps \<Rightarrow> 'ps"
    and builder :: "'ps \<Rightarrow> ('h, 'b) packet_receiver" and key :: "'ps \<Rightarrow> 'm" and reader :: "'ps \<Rightarrow> 'r"
  assumes receives: "ps_receive S ps = (out, ps') \<Longrightarrow>
      receive_packet H B P rd mutate_header mutate_body (builder ps) (key ps) (reader ps) = (out, builder ps', key ps', reader ps')"
    and sends: "ps_send S p ps = (Inr u, ps') \<Longrightarrow>
      builder ps' = builder ps \<and> key ps' = key ps \<and> pending (reader ps') = pending (reader ps)"
    and configures: "builder (upd cfg ps) = set_body_limit (cfg_body_limit cfg) (builder ps)"
      "key (upd cfg ps) = key ps" "pending (reader (upd cfg ps)) = pending (reader ps)"
begin

text \<open>What is received is a beginning of what is expected, whatever else is done.\<close>

lemma run_receives:
  assumes "run_ops S upd ops ps = (sent, got, ps')" and "receiver_ok (builder ps)" and "pr_body_limit (builder ps) = limit"
    and "expects (builder ps) (key ps) (buffered B (builder ps) @ pending (reader ps)) qs"
    and "\<And>cfg. ConfigOp cfg \<in> set ops \<Longrightarrow> cfg_body_limit cfg = limit"
  shows "\<exists>k. got = map (\<lambda>q. Ready (Inr q)) (take k qs)"
  using assms
proof (induction ops arbitrary: ps sent got qs)
  case (Cons op ops)
  show ?case
  proof (cases op)
    case (SendOp p)
    obtain r ps1 where send: "ps_send S p ps = (r, ps1)" by fastforce
    show ?thesis
    proof (cases r)
      case (Inr u)
      with send sends [of p ps u ps1] Cons.prems SendOp show ?thesis
        by (intro Cons.IH [of ps1 "tl sent" got qs]) (auto split: prod.splits)
    qed (use Cons.prems(1) SendOp send in \<open>auto intro: exI [of _ 0]\<close>)
  next
    case ReceiveOp
    obtain out ps1 where step: "ps_receive S ps = (out, ps1)" by fastforce
    note call = receives [OF step]
    have limit: "pr_body_limit (builder ps1) = limit"
      using receive_keeps_limit [OF call] Cons.prems(3) by simp
    show ?thesis
    proof (cases "\<exists>e. out = Ready (Inl (RIo e))")
      case False
      from receive_expected [OF Cons.prems(2,4) call False] have ok: "receiver_ok (builder ps1)"
        and cases: "out = Cancelled \<and> expects (builder ps1) (key ps1) (buffered B (builder ps1) @ pending (reader ps1)) qs
          \<or> (\<exists>p ps'. qs = p # ps' \<and> out = Ready (Inr p)
              \<and> expects (builder ps1) (key ps1) (buffered B (builder ps1) @ pending (reader ps1)) ps')"
        by blast+
      from cases show ?thesis
      proof (elim disjE exE conjE)
        fix p qs'
        assume q: "qs = p # qs'" "out = Ready (Inr p)"
          and "expects (builder ps1) (key ps1) (buffered B (builder ps1) @ pending (reader ps1)) qs'"
        with Cons.prems(1,5) ReceiveOp step ok limit Cons.IH [of ps1 sent "tl got" qs'] obtain k where
          "tl got = map (\<lambda>q. Ready (Inr q)) (take k qs')" "got = Ready (Inr p) # tl got"
          by (auto split: prod.splits)
        with q show ?thesis by (intro exI [of _ "Suc k"]) simp
      qed (use Cons.prems ReceiveOp step ok limit in \<open>auto intro: Cons.IH [of ps1 sent got qs]\<close>)
    qed (use Cons.prems(1) ReceiveOp step in \<open>auto intro: exI [of _ 0]\<close>)
  next
    case (ConfigOp cfg)
    with Cons.prems have "builder (upd cfg ps) = builder ps"
      by (simp add: configures set_body_limit_def)
    with Cons.prems ConfigOp show ?thesis
      by (intro Cons.IH [of "upd cfg ps" sent got qs]) (auto simp: configures)
  qed
qed (auto intro: exI [of _ 0])

end

text \<open>A packet stream that seals packets with a key that moves on.\<close>

fun seals :: "('k \<Rightarrow> 'p \<Rightarrow> byte list \<times> 'k) \<Rightarrow> 'k \<Rightarrow> 'p list \<Rightarrow> byte list list" where
  "seals seal k [] = []"
| "seals seal k (p # ps) = (case seal k p of (c, k) \<Rightarrow> c # seals seal k ps)"

locale sender =
  fixes S :: "('ps, 'p, 'h) packet_stream" and upd :: "config \<Rightarrow> 'ps \<Rightarrow> 'ps"
    and seal :: "'k \<Rightarrow> 'p \<Rightarrow> byte list \<times> 'k" and send_key :: "'ps \<Rightarrow> 'k" and out :: "'ps \<Rightarrow> byte list"
  assumes sends: "ps_send S p ps = (r, ps') \<Longrightarrow>
      \<exists>part lost. fst (seal (send_key ps) p) = part @ lost \<and> out ps' = out ps @ part
        \<and> (r = Inr () \<longrightarrow> lost = [] \<and> send_key ps' = snd (seal (send_key ps) p))"
    and receives: "ps_receive S ps = (res, ps') \<Longrightarrow> send_key ps' = send_key ps \<and> out ps' = out ps"
    and configures: "send_key (upd cfg ps) = send_key ps" "out (upd cfg ps) = out ps"
begin

lemma run_sends:
  "run_ops S upd ops ps = (sent, got, ps') \<Longrightarrow> \<exists>lost. out ps @ concat (seals seal (send_key ps) sent) = out ps' @ lost"
proof (induction ops arbitrary: ps sent got)
  case (Cons op ops)
  show ?case
  proof (cases op)
    case (SendOp p)
    obtain r ps1 where send: "ps_send S p ps = (r, ps1)" by fastforce
    from sends [OF this] obtain part lost where part: "fst (seal (send_key ps) p) = part @ lost" "out ps1 = out ps @ part"
      "r = Inr () \<longrightarrow> lost = [] \<and> send_key ps1 = snd (seal (send_key ps) p)"
      by blast
    show ?thesis
    proof (cases r)
      case (Inl e)
      with Cons.prems SendOp send part(1,2) show ?thesis by (auto split: prod.splits)
    next
      case (Inr u)
      with Cons.prems SendOp send obtain sent' where rest: "run_ops S upd ops ps1 = (sent', got, ps')" "sent = p # sent'"
        by (auto split: prod.splits)
      from Cons.IH [OF rest(1)] part Inr rest(2) show ?thesis
        by (auto split: prod.splits)
    qed
  next
    case ReceiveOp
    obtain res ps1 where step: "ps_receive S ps = (res, ps1)" by fastforce
    from receives [OF this] Cons.prems ReceiveOp step show ?thesis
      by (auto split: polled.splits sum.splits receiver_error.splits prod.splits dest!: Cons.IH)
  next
    case (ConfigOp cfg)
    with Cons.prems Cons.IH [of "upd cfg ps" sent got] show ?thesis by (simp add: configures)
  qed
qed simp

lemma run_grows: "run_ops S upd ops ps = (sent, got, ps') \<Longrightarrow> \<exists>bs. out ps' = out ps @ bs"
proof (induction ops arbitrary: ps sent got)
  case (Cons op ops)
  show ?case
  proof (cases op)
    case (SendOp p)
    obtain r ps1 where send: "ps_send S p ps = (r, ps1)" by fastforce
    from sends [OF this] obtain part where "out ps1 = out ps @ part" by blast
    with Cons SendOp send show ?thesis by (cases r) (fastforce split: prod.splits)+
  next
    case ReceiveOp
    obtain res ps1 where step: "ps_receive S ps = (res, ps1)" by fastforce
    from receives [OF this] Cons.prems ReceiveOp step show ?thesis
      by (auto split: polled.splits sum.splits receiver_error.splits prod.splits dest!: Cons.IH)
  next
    case (ConfigOp cfg)
    with Cons.prems Cons.IH [of "upd cfg ps" sent got] show ?thesis by (simp add: configures)
  qed
qed simp

end

section \<open>Both streams\<close>

definition plain_seal :: "('p, 'h, plain_bytes) packet \<Rightarrow> 'm \<Rightarrow> 'p \<Rightarrow> byte list \<times> 'm" where
  "plain_seal P k p = (plain_as_slice (pk_into_bytes P p), k)"

definition encrypted_seal ::
    "nat \<Rightarrow> 'k cipher_key \<Rightarrow> ('p, 'h, encrypted_bytes) packet \<Rightarrow> 'k \<Rightarrow> 'p \<Rightarrow> byte list \<times> 'k" where
  "encrypted_seal OFFSET C P k p =
     (case encrypt OFFSET C k (pk_into_bytes P p) of (b, k) \<Rightarrow> (enc_as_slice OFFSET b, k))"

context socket_law
begin

lemma read_full_outgoing: "read_full (timed_read S) view n r = (res, view', n', r') \<Longrightarrow> timed_out r' = timed_out r"
proof (induction "length view - n" arbitrary: view n r rule: less_induct)
  case less
  obtain o1 r1 where o1: "timed_read S (length view - n) r = (o1, r1)" by (rule prod.exhaust)
  show ?case
  proof (cases o1)
    case (ReadBytes bs)
    show ?thesis
    proof (cases "length view \<le> n + length bs \<or> bs = []")
      case False
      then have "length (take n view @ bs @ drop (n + length bs) view) - (n + length bs) < length view - n"
        by (auto simp: not_le intro!: diff_less_mono2)
      from less.hyps [OF this] less.prems timed_read_outgoing [OF o1] ReadBytes False o1 show ?thesis
        by (auto simp: read_full.simps [of "timed_read S" view] Let_def)
    qed (use less.prems timed_read_outgoing [OF o1] ReadBytes o1 in
        \<open>auto simp: read_full.simps [of "timed_read S" view] Let_def split: if_splits\<close>)
  qed (use less.prems timed_read_outgoing [OF o1] o1 in \<open>auto simp: read_full.simps [of "timed_read S" view]\<close>)
qed

lemma receive_outgoing:
  assumes "receive_packet H B P (timed_read S) mh mb self m r = (out, self', m', r')"
  shows "timed_out r' = timed_out r"
proof -
  have header: "timed_out r' = timed_out r"
    if "read_header H B (timed_read S) mh self m r = (out, self', m', r')" for out self self' m m' r r'
    using that by (auto simp: read_header_def Let_def split: if_splits prod.splits polled.splits sum.splits dest!: read_full_outgoing)
  have body: "timed_out r' = timed_out r"
    if "read_body H B P (timed_read S) mb self m r = (out, self', m', r')" for out self self' m m' r r'
    using that unfolding read_body_def Let_def
    by (auto split: option.splits if_splits prod.splits polled.splits sum.splits dest!: read_full_outgoing)
  show ?thesis
    using assms by (auto simp: receive_packet_def split: prod.splits polled.splits sum.splits dest!: header body)
qed

lemma plain_endpoint:
  "endpoint plain_packet_bytes plain_wf 0 (timed_read S) timed_in H P
    (\<lambda>m b. (Inr b, m)) (\<lambda>m b. (Inr b, m)) (plain_packet_stream S H P) (plain_update_config S) pl_builder (\<lambda>_. ()) pl_stream"
proof (intro endpoint.intro plain_framed timed_byte_stream endpoint_axioms.intro)
  fix p ps u ps'
  assume "ps_send (plain_packet_stream S H P) p ps = (Inr u, ps')"
  then show "pl_builder ps' = pl_builder ps \<and> () = () \<and> timed_in (pl_stream ps') = timed_in (pl_stream ps)"
    using timed_send [of "plain_as_slice (pk_into_bytes P p)" "pl_stream ps" "Inr ()" "pl_stream ps'"]
    by (auto simp: plain_packet_stream_def plain_send_def split: prod.splits)
qed (auto simp: plain_packet_stream_def plain_receive_def plain_update_config_def split: prod.splits)

lemma plain_sender:
  "sender (plain_packet_stream S H P) (plain_update_config S) (plain_seal P) (\<lambda>_. ()) (timed_out \<circ> pl_stream)"
proof
  fix p ps r ps'
  assume "ps_send (plain_packet_stream S H P) p ps = (r, ps')"
  then show "\<exists>part lost. fst (plain_seal P () p) = part @ lost \<and> (timed_out \<circ> pl_stream) ps' = (timed_out \<circ> pl_stream) ps @ part
      \<and> (r = Inr () \<longrightarrow> lost = [] \<and> () = snd (plain_seal P () p))"
    using timed_send [of "plain_as_slice (pk_into_bytes P p)" "pl_stream ps" r "pl_stream ps'"]
    by (auto simp: plain_packet_stream_def plain_send_def plain_seal_def split: prod.splits)
qed (auto simp: plain_packet_stream_def plain_receive_def plain_update_config_def split: prod.splits
    dest!: receive_outgoing)

lemma encrypted_endpoint:
  assumes "cipher C OFFSET"
  shows "endpoint (enc_packet_bytes OFFSET) (enc_wf OFFSET) OFFSET (timed_read S) timed_in H P
    (decrypt_header OFFSET C) (decrypt_body OFFSET C) (encrypted_packet_stream OFFSET C S H P) (encrypted_update_config S)
    es_builder es_recv_key es_stream"
proof (intro endpoint.intro encrypted_framed assms timed_byte_stream endpoint_axioms.intro)
  fix p ps u ps'
  assume "ps_send (encrypted_packet_stream OFFSET C S H P) p ps = (Inr u, ps')"
  then show "es_builder ps' = es_builder ps \<and> es_recv_key ps' = es_recv_key ps \<and> timed_in (es_stream ps') = timed_in (es_stream ps)"
    using timed_send [of "enc_as_slice OFFSET (fst (encrypt OFFSET C (es_send_key ps) (pk_into_bytes P p)))"
        "es_stream ps" "Inr ()" "es_stream ps'"]
    by (auto simp: encrypted_packet_stream_def encrypted_send_def split: prod.splits sum.splits)
qed (auto simp: encrypted_packet_stream_def encrypted_receive_def encrypted_update_config_def split: prod.splits)

lemma encrypted_sender:
  "sender (encrypted_packet_stream OFFSET C S H P) (encrypted_update_config S) (encrypted_seal OFFSET C P) es_send_key
    (timed_out \<circ> es_stream)"
proof
  fix p ps r ps'
  assume "ps_send (encrypted_packet_stream OFFSET C S H P) p ps = (r, ps')"
  then show "\<exists>part lost. fst (encrypted_seal OFFSET C P (es_send_key ps) p) = part @ lost
      \<and> (timed_out \<circ> es_stream) ps' = (timed_out \<circ> es_stream) ps @ part
      \<and> (r = Inr () \<longrightarrow> lost = [] \<and> es_send_key ps' = snd (encrypted_seal OFFSET C P (es_send_key ps) p))"
    using timed_send [of "enc_as_slice OFFSET (fst (encrypt OFFSET C (es_send_key ps) (pk_into_bytes P p)))"
        "es_stream ps" r "es_stream ps'"]
    by (auto simp: encrypted_packet_stream_def encrypted_send_def encrypted_seal_def split: prod.splits sum.splits)
qed (auto simp: encrypted_packet_stream_def encrypted_receive_def encrypted_update_config_def split: prod.splits
    dest!: receive_outgoing)

lemma shutdown_outgoing:
  "timed_out (pl_stream (snd (ps_shutdown (plain_packet_stream S H P) x))) = timed_out (pl_stream x)"
  "timed_out (es_stream (snd (ps_shutdown (encrypted_packet_stream OFFSET C S H Q) y))) = timed_out (es_stream y)"
  using shut_down [of "tr_stream (snd (pl_stream x))"] shut_down [of "tr_stream (snd (es_stream y))"]
  by (auto simp: plain_packet_stream_def encrypted_packet_stream_def inner_io_def timed_out_def split: prod.splits)

end

section \<open>Messages of the API\<close>

text \<open>What a message says, whatever buffer it is in; as it is sent, and as it arrives.\<close>

definition content :: "'b packet_bytes \<Rightarrow> ('a, 'b) message \<Rightarrow> 'a header \<times> byte list" where
  "content B msg = (ms_header msg, pb_body B (ms_bytes msg))"

definition sent_content :: "'b packet_bytes \<Rightarrow> ('a, 'b) message \<Rightarrow> 'a header \<times> byte list" where
  "sent_content B msg = (sent_header B msg, pb_body B (ms_bytes msg))"

lemma plain_messages_framed:
  assumes "int_codec N" and "action_law A" and "byte_stream rd pending"
    and "\<forall>msg\<in>set msgs. plain_wf HEADER_LEN (ms_bytes msg) \<and> sendable A plain_packet_bytes limit msg"
  shows "framed_stream.framed plain_packet_bytes 0 (api_header N A) (api_packet N A plain_packet_bytes)
    (\<lambda>m b. (Inr b, m)) (\<lambda>m b. (Inr b, m)) limit m (seals (plain_seal (api_packet N A plain_packet_bytes)) m msgs)
    (map (arrived N A plain_packet_bytes) msgs)"
  using assms(4)
proof (induction msgs)
  case (Cons msg msgs)
  let ?b = "message_into_bytes N A plain_packet_bytes msg"
  have "plain_wf HEADER_LEN ?b"
      "announces (api_header N A) limit (plain_header ?b) (plain_body ?b) (sent_header plain_packet_bytes msg)"
    using message_announces [OF assms(1,2) plain.packet_buffer_axioms, where msg = msg and limit = limit, unfolded plain_views]
      Cons.prems by auto
  with plain_at_once [of "api_header N A" ?b limit "sent_header plain_packet_bytes msg"
      "api_packet N A plain_packet_bytes" m "[]"] Cons show ?case
    by (simp add: framed_stream.framed.simps [OF plain_framed [OF assms(3)]] plain_seal_def api_header_def
        api_packet_def deliver_def message_from_bytes_and_header_def arrived_def)
qed (simp add: framed_stream.framed.simps [OF plain_framed [OF assms(3)]])

lemma encrypted_messages_framed:
  assumes "int_codec N" and "action_law A" and "byte_stream rd pending" and C: "cipher C OFFSET"
    and "\<forall>msg\<in>set msgs. enc_wf OFFSET HEADER_LEN (ms_bytes msg) \<and> sendable A (enc_packet_bytes OFFSET) limit msg"
  shows "\<exists>qs. framed_stream.framed (enc_packet_bytes OFFSET) OFFSET (api_header N A) (api_packet N A (enc_packet_bytes OFFSET))
      (decrypt_header OFFSET C) (decrypt_body OFFSET C) limit k
      (seals (encrypted_seal OFFSET C (api_packet N A (enc_packet_bytes OFFSET))) k msgs) qs
    \<and> map (content (enc_packet_bytes OFFSET)) qs = map (sent_content (enc_packet_bytes OFFSET)) msgs"
  using assms(5)
proof (induction msgs arbitrary: k)
  case (Cons msg msgs)
  let ?B = "enc_packet_bytes OFFSET"
  let ?H = "api_header N A" and ?P = "api_packet N A ?B"
  let ?b = "message_into_bytes N A ?B msg"
  have wf: "enc_wf OFFSET HEADER_LEN (ms_bytes msg)" and ok: "sendable A ?B limit msg"
    using Cons.prems by auto
  have ann: "enc_wf OFFSET HEADER_LEN ?b"
      "announces ?H limit (enc_header OFFSET ?b) (enc_body OFFSET ?b) (sent_header ?B msg)"
      "enc_body OFFSET ?b = enc_body OFFSET (ms_bytes msg)"
    using message_announces [OF assms(1,2) enc.packet_buffer_axioms wf ok, unfolded enc_views'] by blast+
  obtain b' k' where enc: "encrypt OFFSET C k ?b = (b', k')" by fastforce
  have len: "ph_len ?H = HEADER_LEN" by (simp add: api_header_def)
  from encrypted_at_once [OF C ann(1) [folded len] ann(2) enc, where P = ?P and rest = "[]"]
  obtain b'' where "enc_body OFFSET b'' = enc_body OFFSET ?b"
      "packet_at_once ?H ?B ?P OFFSET (decrypt_header OFFSET C) (decrypt_body OFFSET C)
        (receiver_new ?H ?B limit) k (enc_as_slice OFFSET b' @ [])
      = Some (deliver ?P b'' (sent_header ?B msg), receiver_new ?H ?B limit, k', [])"
    by blast
  moreover obtain qs where "framed_stream.framed ?B OFFSET ?H ?P (decrypt_header OFFSET C) (decrypt_body OFFSET C) limit k'
      (seals (encrypted_seal OFFSET C ?P) k' msgs) qs" "map (content ?B) qs = map (sent_content ?B) msgs"
    using Cons by auto
  moreover have "encrypted_seal OFFSET C ?P k msg = (enc_as_slice OFFSET b', k')"
    by (simp add: encrypted_seal_def api_packet_def enc)
  moreover have "content ?B \<lparr>ms_header = sent_header ?B msg, ms_bytes = buf\<rparr> = sent_content ?B msg"
    if "enc_body OFFSET buf = enc_body OFFSET (ms_bytes msg)" for buf
    using that by (simp add: content_def sent_content_def enc_views')
  moreover have "deliver ?P buf h = Inr \<lparr>ms_header = h, ms_bytes = buf\<rparr>" for buf h
    by (simp add: deliver_def api_packet_def message_from_bytes_and_header_def)
  ultimately show ?case
    using ann(3)
    by (intro exI [of _ "\<lparr>ms_header = sent_header ?B msg, ms_bytes = b''\<rparr> # qs"])
      (simp add: framed_stream.framed.simps [OF encrypted_framed [OF C assms(3)]])
qed (simp add: framed_stream.framed.simps [OF encrypted_framed [OF C assms(3)]])

lemma header_len_pos: "0 < n + ph_len (api_header N A)"
  by (simp add: api_header_def HEADER_LEN_def)

lemma timed_parts:
  assumes "socket_law S incoming outgoing"
  shows "socket_law.timed_in incoming x = incoming (tr_stream (snd x))"
    and "socket_law.timed_out outgoing x = outgoing (tr_stream (snd x))"
  by (simp_all add: socket_law.timed_in_def [OF assms] socket_law.timed_out_def [OF assms])

section \<open>One direction of a plain connection\<close>

lemma plain_one_way:
  assumes "int_codec N" and "action_law A" and SA: "socket_law SA in_a out_a" and SB: "socket_law SB in_b out_b"
    and a: "run_ops (plain_packet_stream SA (api_header N A) (api_packet N A plain_packet_bytes)) (plain_update_config SA) ops_a
      (plain_stream_new SA (api_header N A) cfg_a sa sched_a) = (sent, got_a, ps_a)"
    and b: "run_ops (plain_packet_stream SB (api_header N A) (api_packet N A plain_packet_bytes)) (plain_update_config SB) ops_b
      (plain_stream_new SB (api_header N A) cfg_b sb sched_b) = (sent_b, got, ps_b)"
    and "out_a sa = []" and connected: "out_a (tr_stream (snd (pl_stream ps_a))) = in_b sb @ lost"
    and ok: "\<forall>msg\<in>set sent. plain_wf HEADER_LEN (ms_bytes msg) \<and> sendable A plain_packet_bytes (cfg_body_limit cfg_b) msg"
    and limits: "\<And>cfg. ConfigOp cfg \<in> set ops_b \<Longrightarrow> cfg_body_limit cfg = cfg_body_limit cfg_b"
  shows "\<exists>k. got = map (\<lambda>msg. Ready (Inr (arrived N A plain_packet_bytes msg))) (take k sent)"
proof -
  let ?H = "api_header N A" and ?P = "api_packet N A plain_packet_bytes"
  let ?new = "receiver_new ?H plain_packet_bytes (cfg_body_limit cfg_b)"
  obtain lost1 where sealed: "concat (seals (plain_seal ?P) () sent) = in_b sb @ lost1"
    using sender.run_sends [OF socket_law.plain_sender [OF SA] a] assms(7) connected
    by (auto simp: plain_stream_new_def timed_new_def timeout_new_def timed_parts [OF SA])
  note framed = plain_framed [OF socket_law.timed_byte_stream [OF SB]]
  from framed_stream.framed_prefix [OF framed header_len_pos plain_messages_framed [OF assms(1,2)
        socket_law.timed_byte_stream [OF SB] ok] sealed]
  obtain k where k: "framed_stream.expects plain_packet_bytes plain_wf 0 ?H ?P (\<lambda>m b. (Inr b, m)) (\<lambda>m b. (Inr b, m)) ?new () (in_b sb)
      (take k (map (arrived N A plain_packet_bytes) sent))" ..
  have "\<exists>j. got = map (\<lambda>q. Ready (Inr q)) (take j (take k (map (arrived N A plain_packet_bytes) sent)))"
  proof (rule endpoint.run_receives [OF socket_law.plain_endpoint [OF SB] b])
    show "framed_stream.receiver_ok plain_packet_bytes plain_wf 0 ?H (pl_builder (plain_stream_new SB ?H cfg_b sb sched_b))"
      by (simp add: plain_stream_new_def framed_stream.receiver_new_ok [OF framed])
    show "pr_body_limit (pl_builder (plain_stream_new SB ?H cfg_b sb sched_b)) = cfg_body_limit cfg_b"
      by (simp add: plain_stream_new_def receiver_new_def)
  qed (use k limits in \<open>simp_all add: plain_stream_new_def framed_stream.new_buffered [OF framed] socket_law.timed_new_io [OF SB]\<close>)
  then show ?thesis by (auto simp: take_map o_def)
qed

section \<open>Concrete values\<close>

interpretation test_plain: endpoint plain_packet_bytes plain_wf 0 "timed_read test_socket" test_socket.timed_in H P
    "\<lambda>m b. (Inr b, m)" "\<lambda>m b. (Inr b, m)" "plain_packet_stream test_socket H P" "plain_update_config test_socket"
    pl_builder "\<lambda>_. ()" pl_stream for H P
  by (rule test_socket.plain_endpoint)

interpretation test_plain_out: sender "plain_packet_stream test_socket H P" "plain_update_config test_socket" "plain_seal P"
    "\<lambda>_. ()" "test_socket.timed_out \<circ> pl_stream" for H P
  by (rule test_socket.plain_sender)

definition test_config :: config where
  "test_config = \<lparr>cfg_timeout = 1000, cfg_body_limit = 5\<rparr>"

end
