(* ===== verification/Handshake_Props.thy ===== *)
theory Handshake_Props
  imports Handshake Packet_Props
begin

text \<open>
  Properties of the handshake: both sides end up with the same keys, crossed, and the client only
  takes keys that were signed for it.
\<close>

section \<open>Running both sides\<close>

lemma drop_split: "drop n xs = take m (drop n xs) @ drop (n + m) xs"
  by (metis append_take_drop_id drop_drop add.commute)

locale handshake = key_exchange CR + array_cursor CS data pos
  for CR :: "('kp, 'ss, 'k, 'sk, 'vk, 'w) crypto" and CS :: "'c cursor" and data pos
begin

text \<open>The server on a pipe from which it reads a key.\<close>

lemma server_on_pipe:
  assumes "length cpk = cr_pk_len CR" and "cr_keypair CR w = (kp, w1)" and "cr_nonce CR w1 = (n1, w2)"
    and "cr_nonce CR w2 = (n2, w3)" and "debug \<longrightarrow> n1 \<noteq> n2"
  shows "server_handshake CS CR pipe debug sk w (cpk @ rest, sent) =
    (Returned (Inr \<lparr>hs_send_key = cr_to_key CR (cr_dh CR kp cpk) n1,
       hs_recv_key = cr_to_key CR (cr_dh CR kp cpk) n2, hs_public_key = cpk\<rparr>), w3,
     (rest, sent @ cr_public CR kp @ n1 @ n2 @ cr_sign CR sk (cr_public CR kp @ n1 @ n2 @ cpk)))"
proof -
  have "length n1 = cr_nonce_len CR" "length n2 = cr_nonce_len CR"
    using nonce_len [of w1] nonce_len [of w2] assms(3,4) by simp_all
  note msg = server_message_bytes [of "cr_public CR kp" CR cpk n1 n2 sk, OF public_len assms(1) this sign_len]
  show ?thesis
    using assms by (auto simp: server_handshake_def pipe_def msg Let_def)
qed

text \<open>The client on a pipe, whatever it reads from it.\<close>

lemma client_on_pipe:
  assumes "cr_keypair CR w = (kp, w1)" and "length spk = cr_pk_len CR" and "length n1 = cr_nonce_len CR"
    and "length n2 = cr_nonce_len CR" and "length sig = cr_sign_len CR" and "debug \<longrightarrow> n1 \<noteq> n2"
  shows "client_handshake CS CR pipe debug vk w (spk @ n1 @ n2 @ sig @ rest, sent) =
    (Returned (if cr_verify CR vk (spk @ n1 @ n2 @ cr_public CR kp) sig
       then Inr \<lparr>hs_send_key = cr_to_key CR (cr_dh CR kp spk) n2,
         hs_recv_key = cr_to_key CR (cr_dh CR kp spk) n1, hs_public_key = spk\<rparr>
       else Inl IncorrectSignature), w1, (rest, sent @ cr_public CR kp))"
proof -
  have "TO_SEND_LEN CR = length (spk @ n1 @ n2 @ sig)"
    using assms by (simp add: TO_SEND_LEN_def BASE_LEN_def)
  moreover have "take (length (spk @ n1 @ n2 @ sig)) (spk @ n1 @ n2 @ sig @ rest) = spk @ n1 @ n2 @ sig"
    "drop (length (spk @ n1 @ n2 @ sig)) (spk @ n1 @ n2 @ sig @ rest) = rest"
    by simp_all
  moreover note client_parse_bytes [of spk CR "cr_public CR kp" n1 n2 sig vk, OF assms(2) public_len assms(3-5)]
  ultimately show ?thesis
    using assms(1,6) by (auto simp: client_handshake_def pipe_def Let_def)
qed

lemma agreement:
  assumes ck: "cr_keypair CR cw = (ckp, cw1)" and sk: "cr_keypair CR sw = (skp, sw1)"
    and n1: "cr_nonce CR sw1 = (n1, sw2)" and n2: "cr_nonce CR sw2 = (n2, sw3)"
    and pair: "key_pair CR sk vk" and "debug \<longrightarrow> n1 \<noteq> n2"
  shows "\<exists>hs hc reply.
      server_handshake CS CR pipe debug sk sw (cr_public CR ckp @ inbound, []) = (Returned (Inr hs), sw3, (inbound, reply))
    \<and> client_handshake CS CR pipe debug vk cw (reply @ outbound, []) = (Returned (Inr hc), cw1, (outbound, cr_public CR ckp))
    \<and> hs_send_key hs = hs_recv_key hc \<and> hs_recv_key hs = hs_send_key hc
    \<and> hs_public_key hs = cr_public CR ckp \<and> hs_public_key hc = cr_public CR skp"
proof -
  have len: "length n1 = cr_nonce_len CR" "length n2 = cr_nonce_len CR"
    using nonce_len [of sw1] nonce_len [of sw2] n1 n2 by simp_all
  let ?sig = "cr_sign CR sk (cr_public CR skp @ n1 @ n2 @ cr_public CR ckp)"
  have "cr_verify CR vk (cr_public CR skp @ n1 @ n2 @ cr_public CR ckp) ?sig"
    using pair by (simp add: key_pair_def)
  with server_on_pipe [OF public_len sk n1 n2 assms(6), of sk ckp inbound "[]"]
    client_on_pipe [OF ck public_len len sign_len assms(6), of vk skp sk "cr_public CR skp @ n1 @ n2 @ cr_public CR ckp" outbound "[]"]
  show ?thesis by (simp add: dh_agree [of skp ckp])
qed

end

text \<open>A small instance, to see that the hypotheses can hold.\<close>

definition toy_crypto :: "(byte, byte, u64, byte, byte, byte) crypto" where
  "toy_crypto = \<lparr>cr_pk_len = 1, cr_nonce_len = 1, cr_sign_len = 2,
     cr_keypair = (\<lambda>w. (w, w + 1)),
     cr_public = (\<lambda>kp. [kp]),
     cr_nonce = (\<lambda>w. ([w], w + 1)),
     cr_sign = (\<lambda>sk m. [sk, fold (+) m sk]),
     cr_verify = (\<lambda>vk m sig. sig = [vk, fold (+) m vk]),
     cr_dh = (\<lambda>kp pk. kp * hd pk),
     cr_to_key = (\<lambda>ss n. ucast (ss + hd n))\<rparr>"

interpretation toy: handshake toy_crypto pair_cursor fst snd
  by (intro handshake.intro pair.array_cursor_axioms, unfold_locales)
    (simp_all add: toy_crypto_def mult.commute)

lemma toy_pair: "key_pair toy_crypto k k"
  by (simp add: key_pair_def toy_crypto_def)

text \<open>What the keys of a client are made of, on any stream.\<close>

lemma client_signed:
  assumes "array_cursor CS data pos" and "key_exchange CR"
    and "\<And>n io bs io'. dx_read_exact D n io = (Inr bs, io') \<Longrightarrow> length bs = n"
    and "client_handshake CS CR D debug vk w io = (Returned (Inr hc), w', io')"
  shows "\<exists>spk n1 n2 sig. let kp = fst (cr_keypair CR w) in
      cr_verify CR vk (spk @ n1 @ n2 @ cr_public CR kp) sig
    \<and> hc = \<lparr>hs_send_key = cr_to_key CR (cr_dh CR kp spk) n2, hs_recv_key = cr_to_key CR (cr_dh CR kp spk) n1,
             hs_public_key = spk\<rparr>"
proof -
  obtain kp w1 where kp: "cr_keypair CR w = (kp, w1)" by fastforce
  with assms(4) obtain io1 received io2 p m1 m2 where
    rd: "dx_read_exact D (TO_SEND_LEN CR) io1 = (Inr received, io2)"
    and parsed: "client_parse CS CR vk (cr_public CR kp) received = Inr (p, m1, m2)"
    and hc: "hc = \<lparr>hs_send_key = cr_to_key CR (cr_dh CR kp p) m2, hs_recv_key = cr_to_key CR (cr_dh CR kp p) m1,
      hs_public_key = p\<rparr>"
    by (auto simp: client_handshake_def Let_def split: prod.splits sum.splits if_splits)
  define spk where "spk = take (cr_pk_len CR) received"
  define n1 where "n1 = take (cr_nonce_len CR) (drop (cr_pk_len CR) received)"
  define n2 where "n2 = take (cr_nonce_len CR) (drop (cr_pk_len CR + cr_nonce_len CR) received)"
  define sig where "sig = drop (BASE_LEN CR) received"
  have len: "length received = BASE_LEN CR + cr_sign_len CR"
    using assms(3) [OF rd] by (simp add: TO_SEND_LEN_def)
  have lens: "length spk = cr_pk_len CR" "length n1 = cr_nonce_len CR" "length n2 = cr_nonce_len CR"
    "length sig = cr_sign_len CR"
    by (simp_all add: spk_def n1_def n2_def sig_def len BASE_LEN_def)
  have "received = spk @ n1 @ n2 @ sig"
    using drop_split [of 0 received "cr_pk_len CR"] drop_split [of "cr_pk_len CR" received "cr_nonce_len CR"]
      drop_split [of "cr_pk_len CR + cr_nonce_len CR" received "cr_nonce_len CR"]
    by (simp add: spk_def n1_def n2_def sig_def BASE_LEN_def mult_2_right add.assoc)
  with array_cursor.client_parse_bytes [OF assms(1) lens(1) key_exchange.public_len [OF assms(2)] lens(2-4)] parsed
  show ?thesis
    by (intro exI [of _ spk] exI [of _ n1] exI [of _ n2] exI [of _ sig]) (auto simp: kp hc split: if_splits)
qed

section \<open>Properties\<close>

text \<open>
  C33. The handshake agrees: if each side reads what the other has written, both succeed, the key
  the client sends with is the one the server receives with and the other way round, each
  knows the other's public key, and what follows on the two streams is left unread.
\<close>

theorem handshake_agrees:
  assumes "key_exchange CR" and "array_cursor CS data pos" and "key_pair CR sk vk"
    and "cr_keypair CR cw = (ckp, cw1)" and "cr_keypair CR sw = (skp, sw1)"
    and "cr_nonce CR sw1 = (n1, sw2)" and "cr_nonce CR sw2 = (n2, sw3)" and "debug \<longrightarrow> n1 \<noteq> n2"
  shows "\<exists>hs hc reply.
      server_handshake CS CR pipe debug sk sw (cr_public CR ckp @ inbound, []) = (Returned (Inr hs), sw3, (inbound, reply))
    \<and> client_handshake CS CR pipe debug vk cw (reply @ outbound, []) = (Returned (Inr hc), cw1, (outbound, cr_public CR ckp))
    \<and> hs_send_key hs = hs_recv_key hc \<and> hs_recv_key hs = hs_send_key hc
    \<and> hs_public_key hs = cr_public CR ckp \<and> hs_public_key hc = cr_public CR skp"
  using assms by (intro handshake.agreement handshake.intro) auto

text \<open>
  C17. The client uses only what was signed for this handshake: on any stream, whoever answers, if
  it succeeds then the signature of the server's key, of the two nonces and of the client's
  own new key was right, and its keys are made of exactly these.
\<close>

theorem client_keys_signed:
  assumes "array_cursor CS data pos" and "key_exchange CR"
    and "\<And>n io bs io'. dx_read_exact D n io = (Inr bs, io') \<Longrightarrow> length bs = n"
    and "client_handshake CS CR D debug vk w io = (Returned (Inr hc), w', io')"
  shows "\<exists>spk n1 n2 sig. let kp = fst (cr_keypair CR w) in
      cr_verify CR vk (spk @ n1 @ n2 @ cr_public CR kp) sig
    \<and> hc = \<lparr>hs_send_key = cr_to_key CR (cr_dh CR kp spk) n2, hs_recv_key = cr_to_key CR (cr_dh CR kp spk) n1,
             hs_public_key = spk\<rparr>"
  by (rule client_signed [OF assms])

section \<open>The properties on concrete values\<close>

theorem handshake_agrees_witness:
  "\<exists>hs hc reply.
      server_handshake pair_cursor toy_crypto pipe True 7 1 (cr_public toy_crypto 2 @ [9], []) = (Returned (Inr hs), 4, ([9], reply))
    \<and> client_handshake pair_cursor toy_crypto pipe True 7 2 (reply @ [8], []) = (Returned (Inr hc), 3, ([8], cr_public toy_crypto 2))
    \<and> hs_send_key hs = hs_recv_key hc \<and> hs_recv_key hs = hs_send_key hc
    \<and> hs_public_key hs = cr_public toy_crypto 2 \<and> hs_public_key hc = cr_public toy_crypto 1"
  by (rule handshake_agrees [OF toy.key_exchange_axioms pair.array_cursor_axioms toy_pair])
    (simp_all add: toy_crypto_def, code_simp)

theorem client_keys_signed_witness:
  "\<exists>spk n1 n2 sig. let kp = fst (cr_keypair toy_crypto 2) in
      cr_verify toy_crypto 7 (spk @ n1 @ n2 @ cr_public toy_crypto kp) sig
    \<and> \<lparr>hs_send_key = 5, hs_recv_key = 4, hs_public_key = [1]\<rparr>
      = \<lparr>hs_send_key = cr_to_key toy_crypto (cr_dh toy_crypto kp spk) n2,
         hs_recv_key = cr_to_key toy_crypto (cr_dh toy_crypto kp spk) n1, hs_public_key = spk\<rparr>"
proof (rule client_keys_signed [OF pair.array_cursor_axioms toy.key_exchange_axioms])
  show "client_handshake pair_cursor toy_crypto pipe False 7 2 ([1, 2, 3, 7, 15], [])
    = (Returned (Inr \<lparr>hs_send_key = 5, hs_recv_key = 4, hs_public_key = [1]\<rparr>), 3, ([], [2]))"
    by code_simp
  show "dx_read_exact pipe n io = (Inr bs, io') \<Longrightarrow> length bs = n" for n io bs io'
    by (auto simp: pipe_def split: prod.splits if_splits)
qed

end
