(* ===== verification/Session_Props.thy ===== *)
theory Session_Props
  imports Transport_Props Handshake_Props
begin

text \<open>
  A whole encrypted connection: both sides do the handshake over their byte streams and then send
  and receive in both directions.
\<close>

section \<open>The handshake on a byte stream\<close>

text \<open>What \<open>AsyncReadExt::read_exact\<close> documents.\<close>

locale exact_socket = socket_law S incoming outgoing
  for S :: "'s socket" and incoming outgoing +
  fixes read_exact :: "nat \<Rightarrow> 's timed \<Rightarrow> (io_error + byte list) \<times> 's timed"
  assumes exact_read: "read_exact n (sched, self) = (Inr bs, (sched', self')) \<Longrightarrow> length bs = n
    \<and> incoming (tr_stream self) = bs @ incoming (tr_stream self') \<and> outgoing (tr_stream self') = outgoing (tr_stream self)"
begin

lemma timed_exact: "read_exact n x = (Inr bs, x') \<Longrightarrow>
    length bs = n \<and> timed_in x = bs @ timed_in x' \<and> timed_out x' = timed_out x"
  using exact_read [of n "fst x" "snd x" bs "fst x'" "snd x'"] by (simp add: timed_in_def timed_out_def)

lemma client_handshake_io:
  assumes "key_exchange CR" and "array_cursor CS data pos"
    and run: "client_handshake CS CR (timed_duplex read_exact S) debug vk w x = (Returned (Inr h), w', x')"
  obtains spk n1 n2 sig where "length spk = cr_pk_len CR" and "length n1 = cr_nonce_len CR" and "length n2 = cr_nonce_len CR"
    and "length sig = cr_sign_len CR"
    and "timed_out x' = timed_out x @ cr_public CR (fst (cr_keypair CR w))"
    and "timed_in x = spk @ n1 @ n2 @ sig @ timed_in x'"
    and "h = \<lparr>hs_send_key = cr_to_key CR (cr_dh CR (fst (cr_keypair CR w)) spk) n2,
      hs_recv_key = cr_to_key CR (cr_dh CR (fst (cr_keypair CR w)) spk) n1, hs_public_key = spk\<rparr>"
proof -
  let ?kp = "fst (cr_keypair CR w)"
  from run obtain u x1 received p m1 m2 where
    wr: "sw_write_all (timed_writer S) (cr_public CR ?kp) x = (Inr u, x1)"
    and rd: "read_exact (TO_SEND_LEN CR) x1 = (Inr received, x')"
    and parsed: "client_parse CS CR vk (cr_public CR ?kp) received = Inr (p, m1, m2)"
    and h: "h = \<lparr>hs_send_key = cr_to_key CR (cr_dh CR ?kp p) m2, hs_recv_key = cr_to_key CR (cr_dh CR ?kp p) m1, hs_public_key = p\<rparr>"
    by (auto simp: client_handshake_def timed_duplex_def Let_def split: prod.splits sum.splits if_splits)
  define spk where "spk = take (cr_pk_len CR) received"
  define n1 where "n1 = take (cr_nonce_len CR) (drop (cr_pk_len CR) received)"
  define n2 where "n2 = take (cr_nonce_len CR) (drop (cr_pk_len CR + cr_nonce_len CR) received)"
  define sig where "sig = drop (BASE_LEN CR) received"
  have len: "length received = BASE_LEN CR + cr_sign_len CR" and got: "timed_in x1 = received @ timed_in x'" "timed_out x' = timed_out x1"
    using timed_exact [OF rd] by (simp_all add: TO_SEND_LEN_def)
  have lens: "length spk = cr_pk_len CR" "length n1 = cr_nonce_len CR" "length n2 = cr_nonce_len CR"
    "length sig = cr_sign_len CR"
    by (simp_all add: spk_def n1_def n2_def sig_def len BASE_LEN_def)
  have split: "received = spk @ n1 @ n2 @ sig"
    using drop_split [of 0 received "cr_pk_len CR"] drop_split [of "cr_pk_len CR" received "cr_nonce_len CR"]
      drop_split [of "cr_pk_len CR + cr_nonce_len CR" received "cr_nonce_len CR"]
    by (simp add: spk_def n1_def n2_def sig_def BASE_LEN_def mult_2_right add.assoc)
  have "p = spk" "m1 = n1" "m2 = n2"
    using array_cursor.client_parse_bytes [OF assms(2) lens(1) key_exchange.public_len [OF assms(1)] lens(2-4)] parsed
    by (auto simp: split split: if_splits)
  moreover have "timed_out x1 = timed_out x @ cr_public CR ?kp" "timed_in x1 = timed_in x"
    using timed_write [OF wr] by auto
  ultimately show ?thesis
    using that [OF lens] got split h by simp
qed

lemma server_handshake_io:
  assumes "key_exchange CR" and "array_cursor CS data pos"
    and run: "server_handshake CS CR (timed_duplex read_exact S) debug sk w x = (Returned (Inr h), w', x')"
  obtains kp cpk n1 n2 where "length cpk = cr_pk_len CR" and "length n1 = cr_nonce_len CR" and "length n2 = cr_nonce_len CR"
    and "timed_in x = cpk @ timed_in x'"
    and "timed_out x' = timed_out x @ cr_public CR kp @ n1 @ n2 @ cr_sign CR sk (cr_public CR kp @ n1 @ n2 @ cpk)"
    and "h = \<lparr>hs_send_key = cr_to_key CR (cr_dh CR kp cpk) n1, hs_recv_key = cr_to_key CR (cr_dh CR kp cpk) n2,
      hs_public_key = cpk\<rparr>"
proof -
  obtain kp w1 where kp: "cr_keypair CR w = (kp, w1)" by (rule prod.exhaust)
  obtain n1 w2 where n1: "cr_nonce CR w1 = (n1, w2)" by (rule prod.exhaust)
  obtain n2 w3 where n2: "cr_nonce CR w2 = (n2, w3)" by (rule prod.exhaust)
  from run kp n1 n2 obtain cpk x1 u where rd: "read_exact (cr_pk_len CR) x = (Inr cpk, x1)"
    and wr: "sw_write_all (timed_writer S) (server_message CS CR sk (cr_public CR kp) n1 n2 cpk) x1 = (Inr u, x')"
    and h: "h = \<lparr>hs_send_key = cr_to_key CR (cr_dh CR kp cpk) n1, hs_recv_key = cr_to_key CR (cr_dh CR kp cpk) n2,
      hs_public_key = cpk\<rparr>"
    by (auto simp: server_handshake_def timed_duplex_def Let_def split: prod.splits sum.splits if_splits)
  have lens: "length n1 = cr_nonce_len CR" "length n2 = cr_nonce_len CR"
    using key_exchange.nonce_len [OF assms(1), of w1] key_exchange.nonce_len [OF assms(1), of w2] n1 n2 by simp_all
  note got = timed_exact [OF rd]
  note msg = array_cursor.server_message_bytes [OF assms(2) key_exchange.public_len [OF assms(1)] conjunct1 [OF got]
      lens key_exchange.sign_len [OF assms(1)]]
  show ?thesis
    using that [OF conjunct1 [OF got] lens _ _ h] got timed_write [OF wr] by (auto simp: msg)
qed

end

section \<open>One direction\<close>

text \<open>The messages that were received, in terms of those that were sent.\<close>

definition received_of ::
    "'b packet_bytes \<Rightarrow> ('h receiver_error + ('a, 'b) message) polled list \<Rightarrow> ('a, 'b) message list \<Rightarrow> bool" where
  "received_of B got sent \<longleftrightarrow> (\<exists>k qs. got = map (\<lambda>q. Ready (Inr q)) qs \<and> map (content B) qs = map (sent_content B) (take k sent))"

lemma encrypted_one_way:
  assumes "int_codec N" and "action_law A" and SA: "socket_law SA in_a out_a" and SB: "socket_law SB in_b out_b"
    and C: "cipher C OFFSET"
    and a: "run_ops (encrypted_packet_stream OFFSET C SA (api_header N A) (api_packet N A (enc_packet_bytes OFFSET)))
      (encrypted_update_config SA) ops_a pa = (sent, got_a, pa')"
    and b: "run_ops (encrypted_packet_stream OFFSET C SB (api_header N A) (api_packet N A (enc_packet_bytes OFFSET)))
      (encrypted_update_config SB) ops_b pb = (sent_b, got, pb')"
    and keys: "es_recv_key pb = es_send_key pa"
    and new: "es_builder pb = receiver_new (api_header N A) (enc_packet_bytes OFFSET) limit"
    and connected: "socket_law.timed_out out_a (es_stream pa') =
      socket_law.timed_out out_a (es_stream pa) @ socket_law.timed_in in_b (es_stream pb) @ lost"
    and ok: "\<forall>msg\<in>set sent. enc_wf OFFSET HEADER_LEN (ms_bytes msg) \<and> sendable A (enc_packet_bytes OFFSET) limit msg"
    and limits: "\<And>cfg. ConfigOp cfg \<in> set ops_b \<Longrightarrow> cfg_body_limit cfg = limit"
  shows "received_of (enc_packet_bytes OFFSET) got sent"
proof -
  let ?B = "enc_packet_bytes OFFSET"
  let ?H = "api_header N A" and ?P = "api_packet N A ?B"
  let ?new = "receiver_new ?H ?B limit"
  obtain lost1 where sealed: "concat (seals (encrypted_seal OFFSET C ?P) (es_send_key pa) sent)
      = socket_law.timed_in in_b (es_stream pb) @ lost1"
    using sender.run_sends [OF socket_law.encrypted_sender [OF SA] a] connected by auto
  note framed = encrypted_framed [OF C socket_law.timed_byte_stream [OF SB]]
  obtain qs where framing: "framed_stream.framed ?B OFFSET ?H ?P (decrypt_header OFFSET C) (decrypt_body OFFSET C) limit (es_send_key pa)
      (seals (encrypted_seal OFFSET C ?P) (es_send_key pa) sent) qs"
    and qs: "map (content ?B) qs = map (sent_content ?B) sent"
    using encrypted_messages_framed [OF assms(1,2) socket_law.timed_byte_stream [OF SB] C ok] by blast
  from framed_stream.framed_prefix [OF framed header_len_pos framing sealed]
  obtain k where k: "framed_stream.expects ?B (enc_wf OFFSET) OFFSET ?H ?P (decrypt_header OFFSET C) (decrypt_body OFFSET C)
      ?new (es_send_key pa) (socket_law.timed_in in_b (es_stream pb)) (take k qs)" ..
  have "\<exists>j. got = map (\<lambda>q. Ready (Inr q)) (take j (take k qs))"
  proof (rule endpoint.run_receives [OF socket_law.encrypted_endpoint [OF SB C] b])
    show "pr_body_limit (es_builder pb) = limit" by (simp add: new receiver_new_def)
  qed (use k limits in \<open>simp_all add: new keys framed_stream.receiver_new_ok [OF framed] framed_stream.new_buffered [OF framed]\<close>)
  then obtain j where "got = map (\<lambda>q. Ready (Inr q)) (take (min j k) qs)" by auto
  moreover have "map (content ?B) (take (min j k) qs) = map (sent_content ?B) (take (min j k) sent)"
    by (simp only: take_map [symmetric] qs)
  ultimately show ?thesis
    unfolding received_of_def by blast
qed

section \<open>Both directions\<close>

lemma session_both_ways:
  assumes "key_exchange CR" and "array_cursor CS data pos" and "cipher C OFFSET" and "int_codec N" and "action_law A"
    and SC: "exact_socket SC in_c out_c exact_c" and SS: "exact_socket SS in_s out_s exact_s"
    and client: "encrypted_client OFFSET CS CR exact_c SC debug (api_header N A) sc vk cfg_c sched_c wc = (Returned (Inr pc), wc')"
    and server: "encrypted_server OFFSET CS CR exact_s SS debug (api_header N A) ss sk cfg_s sched_s ws = (Returned (Inr ps), ws')"
    and run_c: "run_ops (encrypted_packet_stream OFFSET C SC (api_header N A) (api_packet N A (enc_packet_bytes OFFSET)))
      (encrypted_update_config SC) ops_c pc = (sent_c, got_c, pc')"
    and run_s: "run_ops (encrypted_packet_stream OFFSET C SS (api_header N A) (api_packet N A (enc_packet_bytes OFFSET)))
      (encrypted_update_config SS) ops_s ps = (sent_s, got_s, ps')"
    and empty: "out_c sc = []" "out_s ss = []"
    and to_s: "out_c (tr_stream (snd (es_stream pc'))) = in_s ss @ lost_c"
    and to_c: "out_s (tr_stream (snd (es_stream ps'))) = in_c sc @ lost_s"
    and ok_c: "\<forall>msg\<in>set sent_c. enc_wf OFFSET HEADER_LEN (ms_bytes msg) \<and> sendable A (enc_packet_bytes OFFSET) (cfg_body_limit cfg_s) msg"
    and ok_s: "\<forall>msg\<in>set sent_s. enc_wf OFFSET HEADER_LEN (ms_bytes msg) \<and> sendable A (enc_packet_bytes OFFSET) (cfg_body_limit cfg_c) msg"
    and limits: "\<And>cfg. ConfigOp cfg \<in> set ops_c \<Longrightarrow> cfg_body_limit cfg = cfg_body_limit cfg_c"
      "\<And>cfg. ConfigOp cfg \<in> set ops_s \<Longrightarrow> cfg_body_limit cfg = cfg_body_limit cfg_s"
  shows "received_of (enc_packet_bytes OFFSET) got_s sent_c \<and> received_of (enc_packet_bytes OFFSET) got_c sent_s
    \<and> es_recv_key ps = es_send_key pc \<and> es_recv_key pc = es_send_key ps"
proof -
  note LC = exact_socket.axioms(1) [OF SC] and LS = exact_socket.axioms(1) [OF SS]
  let ?in_c = "socket_law.timed_in in_c" and ?out_c = "socket_law.timed_out out_c"
  let ?in_s = "socket_law.timed_in in_s" and ?out_s = "socket_law.timed_out out_s"
  let ?xc = "timed_new SC sc (cfg_timeout cfg_c) sched_c" and ?xs = "timed_new SS ss (cfg_timeout cfg_s) sched_s"
  note io = socket_law.timed_new_io [OF LC] socket_law.timed_new_io [OF LS]
  obtain hc wc1 xc where hc: "client_handshake CS CR (timed_duplex exact_c SC) debug vk wc ?xc = (Returned (Inr hc), wc1, xc)"
    and pc: "pc = \<lparr>es_stream = xc, es_send_key = hs_send_key hc, es_recv_key = hs_recv_key hc,
      es_builder = receiver_new (api_header N A) (enc_packet_bytes OFFSET) (cfg_body_limit cfg_c)\<rparr>"
    using client by (auto simp: encrypted_client_def encrypted_stream_of_def Let_def split: prod.splits outcome.splits sum.splits)
  obtain hs ws1 xs where hs: "server_handshake CS CR (timed_duplex exact_s SS) debug sk ws ?xs = (Returned (Inr hs), ws1, xs)"
    and ps: "ps = \<lparr>es_stream = xs, es_send_key = hs_send_key hs, es_recv_key = hs_recv_key hs,
      es_builder = receiver_new (api_header N A) (enc_packet_bytes OFFSET) (cfg_body_limit cfg_s)\<rparr>"
    using server by (auto simp: encrypted_server_def encrypted_stream_of_def Let_def split: prod.splits outcome.splits sum.splits)
  let ?ckp = "fst (cr_keypair CR wc)"
  obtain spk n1 n2 sig where c': "length spk = cr_pk_len CR" "length n1 = cr_nonce_len CR" "length n2 = cr_nonce_len CR"
      "length sig = cr_sign_len CR" "?out_c xc = ?out_c ?xc @ cr_public CR ?ckp" "?in_c ?xc = spk @ n1 @ n2 @ sig @ ?in_c xc"
      "hc = \<lparr>hs_send_key = cr_to_key CR (cr_dh CR ?ckp spk) n2, hs_recv_key = cr_to_key CR (cr_dh CR ?ckp spk) n1, hs_public_key = spk\<rparr>"
    by (rule exact_socket.client_handshake_io [OF SC assms(1,2) hc])
  note c = c' [unfolded io empty append_Nil]
  obtain skp cpk m1 m2 where s': "length cpk = cr_pk_len CR" "length m1 = cr_nonce_len CR" "length m2 = cr_nonce_len CR"
      "?in_s ?xs = cpk @ ?in_s xs"
      "?out_s xs = ?out_s ?xs @ cr_public CR skp @ m1 @ m2 @ cr_sign CR sk (cr_public CR skp @ m1 @ m2 @ cpk)"
      "hs = \<lparr>hs_send_key = cr_to_key CR (cr_dh CR skp cpk) m1, hs_recv_key = cr_to_key CR (cr_dh CR skp cpk) m2, hs_public_key = cpk\<rparr>"
    by (rule exact_socket.server_handshake_io [OF SS assms(1,2) hs])
  note s = s' [unfolded io empty append_Nil]
  obtain l1 where l1: "?out_c (es_stream pc') = ?out_c xc @ l1"
    using sender.run_grows [OF socket_law.encrypted_sender [OF LC] run_c] pc by auto
  obtain l2 where l2: "?out_s (es_stream ps') = ?out_s xs @ l2"
    using sender.run_grows [OF socket_law.encrypted_sender [OF LS] run_s] ps by auto
  have "cr_public CR ?ckp @ l1 = cpk @ ?in_s xs @ lost_c"
    using l1 c(5) to_s s(4) by (simp add: timed_parts [OF LC])
  then have ckp: "cpk = cr_public CR ?ckp" and in_s: "l1 = ?in_s xs @ lost_c"
    using s(1) key_exchange.public_len [OF assms(1), of ?ckp] by (auto simp: append_eq_append_conv)
  have "cr_public CR skp @ m1 @ m2 @ cr_sign CR sk (cr_public CR skp @ m1 @ m2 @ cpk) @ l2 = spk @ n1 @ n2 @ sig @ ?in_c xc @ lost_s"
    using l2 s(5) to_c c(6) by (simp add: timed_parts [OF LS])
  then have spk: "spk = cr_public CR skp" "n1 = m1" "n2 = m2" and in_c: "l2 = ?in_c xc @ lost_s"
    using c(1-4) s(2,3) key_exchange.public_len [OF assms(1), of skp] key_exchange.sign_len [OF assms(1)] by auto
  have keys: "es_recv_key ps = es_send_key pc" "es_recv_key pc = es_send_key ps"
    using key_exchange.dh_agree [OF assms(1), of skp ?ckp] by (simp_all add: pc ps c(7) s(6) spk ckp)
  moreover have "received_of (enc_packet_bytes OFFSET) got_s sent_c"
    using l1 in_s by (intro encrypted_one_way [OF assms(4,5) LC LS assms(3) run_c run_s keys(1) _ _ ok_c limits(2)])
      (simp_all add: pc ps)
  moreover have "received_of (enc_packet_bytes OFFSET) got_c sent_s"
    using l2 in_c by (intro encrypted_one_way [OF assms(4,5) LS LC assms(3) run_s run_c keys(2) _ _ ok_s limits(1)])
      (simp_all add: pc ps)
  ultimately show ?thesis by blast
qed

section \<open>Concrete values\<close>

definition test_exact ::
    "nat \<Rightarrow> ((nat list \<times> byte list) \<times> byte list) timed \<Rightarrow> (io_error + byte list) \<times> ((nat list \<times> byte list) \<times> byte list) timed" where
  "test_exact n x =
     (let bs = snd (fst (tr_stream (snd x)))
      in if length bs < n then (Inl IoUnexpectedEof, x)
         else (Inr (take n bs), fst x, (snd x)\<lparr>tr_stream := ((fst (fst (tr_stream (snd x))), drop n bs), snd (tr_stream (snd x)))\<rparr>))"

interpretation test_exact: exact_socket test_socket "\<lambda>s. snd (fst s)" snd test_exact
  by unfold_locales (auto simp: test_exact_def Let_def split: if_splits)

text \<open>A cipher whose Mac is one byte of the key.\<close>

definition light_cipher :: "u64 cipher_key" where
  "light_cipher = \<lparr>
     key_encrypt = (\<lambda>k pt. (map (\<lambda>b. b XOR ucast k) pt, [ucast k], k + 1)),
     key_decrypt = (\<lambda>k ct m. (if m = [ucast k] then Some (map (\<lambda>b. b XOR ucast k) ct) else None, k + 1))\<rparr>"

interpretation light_cipher: cipher light_cipher 1
  by unfold_locales (auto simp: light_cipher_def o_def xor.assoc split: if_splits)

interpretation test_encrypted: endpoint "enc_packet_bytes 1" "enc_wf 1" 1 "timed_read test_socket" test_socket.timed_in H P
    "decrypt_header 1 light_cipher" "decrypt_body 1 light_cipher" "encrypted_packet_stream 1 light_cipher test_socket H P"
    "encrypted_update_config test_socket" es_builder es_recv_key es_stream for H P
  by (rule test_socket.encrypted_endpoint) (rule light_cipher.cipher_axioms)

definition small_message :: "(some_action, encrypted_bytes) message" where
  "small_message = \<lparr>ms_header = header_empty\<lparr>hd_id := 7, hd_action := Action Act1\<rparr>,
     ms_bytes = \<lparr>e_bytes = replicate 14 0 @ [10], e_header_len = 12\<rparr>\<rparr>"

lemma small_message_ok:
  "enc_wf 1 HEADER_LEN (ms_bytes small_message) \<and> sendable some_action (enc_packet_bytes 1) 5 small_message"
  by (simp add: enc_wf_def small_message_def HEADER_LEN_def sendable_def enc_packet_bytes_def enc_body_def header_fits_def
      some_action_def)

end
