(* ===== verification/Startup_Props.thy ===== *)
theory Startup_Props
  imports Startup Closing_Props Session_Props
begin

text \<open>
  What holds of a connection from its start: a client runs a connection only on streams whose server
  has signed for them.
\<close>

section \<open>Verified streams\<close>

text \<open>
  The keys of a stream come from a handshake in which \<open>sign\<close> has signed the server's key, both
  nonces and the client's own new key.
\<close>

definition verified ::
    "('kp, 'ss, 'k, 'sk, 'vk, 'w) crypto \<Rightarrow> 'vk \<Rightarrow> ('s, 'h, 'k) encrypted_stream \<Rightarrow> bool" where
  "verified CR sign ps \<longleftrightarrow> (\<exists>w spk n1 n2 sig. let kp = fst (cr_keypair CR w) in
     cr_verify CR sign (spk @ n1 @ n2 @ cr_public CR kp) sig
     \<and> es_send_key ps = cr_to_key CR (cr_dh CR kp spk) n2
     \<and> es_recv_key ps = cr_to_key CR (cr_dh CR kp spk) n1)"

lemma client_stream_verified:
  assumes "array_cursor CS data pos" and "key_exchange CR"
    and "\<And>n io bs io'. read_exact n io = (Inr bs, io') \<Longrightarrow> length bs = n"
    and "encrypted_client OFFSET CS CR read_exact S debug H stream sign cfg sched w = (Returned (Inr ps), w')"
  shows "verified CR sign ps"
proof -
  let ?D = "timed_duplex read_exact S"
  let ?r = "client_handshake CS CR ?D debug sign w (timed_new S stream (cfg_timeout cfg) sched)"
  obtain hc w1 io1 where r: "?r = (Returned (Inr hc), w1, io1)"
      and ps: "es_send_key ps = hs_send_key hc" "es_recv_key ps = hs_recv_key hc"
    using assms(4)
    by (cases ?r) (auto simp: encrypted_client_def encrypted_stream_of_def Let_def split: outcome.splits sum.splits)
  have "\<exists>spk n1 n2 sig. let kp = fst (cr_keypair CR w) in
      cr_verify CR sign (spk @ n1 @ n2 @ cr_public CR kp) sig
    \<and> hc = \<lparr>hs_send_key = cr_to_key CR (cr_dh CR kp spk) n2, hs_recv_key = cr_to_key CR (cr_dh CR kp spk) n1,
        hs_public_key = spk\<rparr>"
    by (rule client_signed [OF assms(1,2) _ r]) (use assms(3) in \<open>simp add: timed_duplex_def\<close>)
  with ps show ?thesis
    unfolding verified_def Let_def by (metis handshake.select_convs(1,2))
qed

text \<open>Without an assertion that fails, making a stream does not panic.\<close>

lemma client_panics:
  assumes "encrypted_client OFFSET CS CR read_exact S debug H stream sign cfg sched w = (Panic msg, w')"
  shows "debug"
  using assms
  by (auto simp: encrypted_client_def encrypted_stream_of_def client_handshake_def Let_def
      split: outcome.splits sum.splits prod.splits if_splits)

section \<open>Properties\<close>

text \<open>
  C12. An encrypted client runs connections only with a server that it has verified, also after any
  number of reconnects: its task is the same whatever would be done on a stream whose keys were
  not signed for. Without a strategy, either it runs the one stream, which is verified, or it
  ends with an error and its handler is as it was made, or the debug assertion has failed.
\<close>

theorem runs_only_verified:
  assumes "array_cursor CS data pos" and "key_exchange CR"
    and "\<And>n io bs io'. read_exact n io = (Inr bs, io') \<Longrightarrow> length bs = n"
    and "\<And>ps. verified CR sign ps \<Longrightarrow>
      f ps = run_bg_stream (encrypted_packet_stream OFFSET C S H P) H P T (encrypted_update_config S) E ps"
  shows "let task = st_task (encrypted_client_start OFFSET C CS CR read_exact debug N S H P T E stream cfg recon_strat sign) w
    in task = bg_stream_reconnect
         ((encrypted_reconnect OFFSET C CS CR read_exact debug S H P T E sign recon_strat)\<lparr>rc_bg := f\<rparr>)
         (Some stream) (handler_new False) w
      \<and> (recon_strat = None \<longrightarrow>
          (\<exists>ps w'. verified CR sign ps \<and> task = map_option task_result
             (run_bg_stream (encrypted_packet_stream OFFSET C S H P) H P T (encrypted_update_config S) E ps (handler_new False) w'))
          \<or> (\<exists>e w'. task = Some (Returned (Inl e, handler_new False, w')))
          \<or> debug \<and> (\<exists>msg. task = Some (Panic msg)))"
proof -
  let ?R = "encrypted_reconnect OFFSET C CS CR read_exact debug S H P T E sign recon_strat"
  have made: "verified CR sign ps" if "rc_new_stream ?R s c w = (Returned (Inr ps), w')" for s c w ps w'
    using client_stream_verified [OF assms(1-3)] that by (simp add: encrypted_reconnect_def)
  then have like: "runs_like ?R (?R\<lparr>rc_bg := f\<rparr>)"
    using assms(4) by (auto simp: runs_like_def encrypted_reconnect_def)
  obtain new w1 where new: "rc_new_stream ?R stream (rc_newest ?R w) w = (new, w1)" by fastforce
  then have panic: "debug" if "new = Panic msg" for msg
    using that new by (auto simp: encrypted_reconnect_def intro: client_panics)
  have bg: "rc_bg ?R = run_bg_stream (encrypted_packet_stream OFFSET C S H P) H P T (encrypted_update_config S) E"
    by (simp add: encrypted_reconnect_def)
  let ?task = "bg_stream_reconnect ?R (Some stream) (handler_new False) w"
  have "(\<exists>ps w'. verified CR sign ps \<and> ?task = map_option task_result (rc_bg ?R ps (handler_new False) w'))
      \<or> (\<exists>e w'. ?task = Some (Returned (Inl e, handler_new False, w'))) \<or> debug \<and> (\<exists>msg. ?task = Some (Panic msg))"
    if "recon_strat = None"
  proof -
    from that have strat: "rc_strat ?R = None" by (simp add: encrypted_reconnect_def)
    show ?thesis
    proof (cases new)
      case (Panic msg)
      with panic new strat show ?thesis by (simp add: no_strategy)
    next
      case (Returned x)
      with new strat made [of stream "rc_newest ?R w" w _ w1] show ?thesis
        by (cases x) (auto simp: no_strategy)
    qed
  qed
  then show ?thesis
    unfolding bg by (simp add: encrypted_client_start_def reconnect_cong [OF like])
qed

section \<open>The property on concrete values\<close>

text \<open>A server that answers with a signature that is not right.\<close>

definition no_events :: "(nat \<times> (some_action, encrypted_bytes) message internal_request list
    \<times> (chan \<times> (request_error + (some_action, encrypted_bytes) message)) list, config, byte) surroundings" where
  "no_events = \<lparr>sr_runtime = (\<lambda>_. (0, [], [])), sr_put = (\<lambda>_ w. w), sr_events = (\<lambda>_. []),
     sr_terminated = (\<lambda>_. False), sr_newest = (\<lambda>_. test_config), sr_orders = (\<lambda>_. ([], [])),
     sr_sched = (\<lambda>_. [Some 1, None, Some 2, Some 3])\<rparr>"

abbreviation test_api_header where
  "test_api_header \<equiv> api_header be_ints some_action"

abbreviation test_api_packet where
  "test_api_packet \<equiv> api_packet be_ints some_action (enc_packet_bytes 1)"

lemma wrong_signature:
  "encrypted_client 1 pair_cursor toy_crypto test_exact test_socket False test_api_header
    (([0, 1], [1, 2, 3, 7, 16]), []) 7 test_config [Some 1, None, Some 2, Some 3] 2 = (Returned (Inl IncorrectSignature), 3)"
  by code_simp

text \<open>What is run on a stream that is not verified panics.\<close>

theorem runs_only_verified_witness:
  "bg_stream_reconnect
      ((encrypted_reconnect 1 light_cipher pair_cursor toy_crypto test_exact False test_socket test_api_header test_api_packet
          log_tokio no_events 7 None)
        \<lparr>rc_bg := (\<lambda>ps h w. if verified toy_crypto 7 ps
           then run_bg_stream (encrypted_packet_stream 1 light_cipher test_socket test_api_header test_api_packet)
             test_api_header test_api_packet log_tokio (encrypted_update_config test_socket) no_events ps h w
           else Some (Panic ''not verified''))\<rparr>)
      (Some (([0, 1], [1, 2, 3, 7, 16]), [])) (handler_new False) 2
    = Some (Returned (Inl IncorrectSignature, handler_new False, 3))"
  (is "bg_stream_reconnect (?R\<lparr>rc_bg := ?f\<rparr>) (Some ?s) _ _ = ?r")
proof -
  let ?task = "st_task (encrypted_client_start 1 light_cipher pair_cursor toy_crypto test_exact False counting test_socket
      test_api_header test_api_packet log_tokio no_events ?s test_config None 7) 2"
  have "?task = bg_stream_reconnect (?R\<lparr>rc_bg := ?f\<rparr>) (Some ?s) (handler_new False) 2"
  proof (rule runs_only_verified [OF pair.array_cursor_axioms toy.key_exchange_axioms, unfolded Let_def, THEN conjunct1])
    show "test_exact n io = (Inr bs, io') \<Longrightarrow> length bs = n" for n io bs io'
      using test_exact.timed_exact [of n io bs io'] by simp
  qed auto
  moreover have "?task = ?r"
    using wrong_signature by (simp add: encrypted_client_start_def no_strategy encrypted_reconnect_def no_events_def)
  ultimately show ?thesis by simp
qed

end
