(* ===== verification/Injection.thy ===== *)
theory Injection
  imports Handler
begin

text \<open>
  What an API handler gets as its arguments: \<open>Data\<close> of \<open>lafere-api/src/request_handlers.rs\<close>,
  \<open>Session\<close> of \<open>lafere-api/src/server.rs\<close>, the checks and accessors of
  \<open>lafere-api/src/util.rs\<close>, and the code that the macro \<open>api\<close> of \<open>lafere-api-codegen\<close>
  generates for a list of parameters. A \<open>TypeId\<close> is a name for a type; a value that is stored
  under the id of its type has this type, so that downcasting it succeeds.
\<close>

section \<open>Data and sessions\<close>

datatype type_id = TypeSession | TypeData | TypeOf nat

record 'v data =
  dt_inner :: "type_id \<rightharpoonup> 'v"

definition data_new :: "'v data" where
  "data_new = \<lparr>dt_inner = Map.empty\<rparr>"

definition data_exists :: "type_id \<Rightarrow> 'v data \<Rightarrow> bool" where
  "data_exists D data \<longleftrightarrow> D = TypeSession \<or> dt_inner data D \<noteq> None"

definition data_insert :: "type_id \<Rightarrow> 'v \<Rightarrow> 'v data \<Rightarrow> 'v data" where
  "data_insert D v data = data\<lparr>dt_inner := (dt_inner data)(D \<mapsto> v)\<rparr>"

definition data_get :: "type_id \<Rightarrow> 'v data \<Rightarrow> 'v option" where
  "data_get D data = dt_inner data D"

record 'v session =
  ss_addr :: string
  ss_data :: "type_id \<rightharpoonup> 'v"

definition session_new :: "string \<Rightarrow> 'v session" where
  "session_new addr = \<lparr>ss_addr = addr, ss_data = Map.empty\<rparr>"

definition session_set :: "type_id \<Rightarrow> 'v \<Rightarrow> 'v session \<Rightarrow> 'v session" where
  "session_set D v s = s\<lparr>ss_data := (ss_data s)(D \<mapsto> v)\<rparr>"

definition session_get :: "type_id \<Rightarrow> 'v session \<Rightarrow> 'v option" where
  "session_get D s = ss_data s D"

definition session_take :: "type_id \<Rightarrow> 'v session \<Rightarrow> 'v option \<times> 'v session" where
  "session_take D s = (ss_data s D, s\<lparr>ss_data := (ss_data s)(D := None)\<rparr>)"

section \<open>The request in its \<open>RefCell\<close>\<close>

text \<open>A borrow that \<open>as_ref\<close> takes is never given back.\<close>

record 'r data_manager =
  dm_inner :: "'r option"
  dm_borrows :: nat

definition dm_new :: "'r \<Rightarrow> 'r data_manager" where
  "dm_new val = \<lparr>dm_inner = Some val, dm_borrows = 0\<rparr>"

definition dm_take :: "'r data_manager \<Rightarrow> ('r \<times> 'r data_manager) outcome" where
  "dm_take self =
     (if dm_borrows self \<noteq> 0 then Panic ''already borrowed''
      else case dm_inner self of
        None \<Rightarrow> Panic ''unwrap on None''
      | Some v \<Rightarrow> Returned (v, self\<lparr>dm_inner := None\<rparr>))"

definition dm_as_ref :: "'r data_manager \<Rightarrow> ('r \<times> 'r data_manager) outcome" where
  "dm_as_ref self =
     (case dm_inner self of
        None \<Rightarrow> Panic ''unwrap on None''
      | Some v \<Rightarrow> Returned (v, self\<lparr>dm_borrows := dm_borrows self + 1\<rparr>))"

definition dm_take_owned :: "'r data_manager \<Rightarrow> 'r outcome" where
  "dm_take_owned self = (case dm_inner self of None \<Rightarrow> Panic ''unwrap on None'' | Some v \<Rightarrow> Returned v)"

section \<open>Arguments\<close>

definition is_req :: "type_id \<Rightarrow> type_id \<Rightarrow> bool" where
  "is_req T R \<longleftrightarrow> T = R"

definition is_session :: "type_id \<Rightarrow> bool" where
  "is_session T \<longleftrightarrow> T = TypeSession"

definition is_data :: "type_id \<Rightarrow> bool" where
  "is_data T \<longleftrightarrow> T = TypeData"

definition valid_data_as_ref :: "type_id \<Rightarrow> type_id \<Rightarrow> 'v data \<Rightarrow> bool" where
  "valid_data_as_ref T R data \<longleftrightarrow> is_req T R \<or> is_session T \<or> is_data T \<or> data_exists T data"

definition valid_data_as_owned :: "type_id \<Rightarrow> type_id \<Rightarrow> 'v data \<Rightarrow> bool" where
  "valid_data_as_owned T R data \<longleftrightarrow> is_req T R"

datatype ('r, 'v) argument = ArgRequest 'r | ArgSession "'v session" | ArgData "'v data" | ArgValue 'v

definition get_data_as_ref ::
    "type_id \<Rightarrow> type_id \<Rightarrow> 'v data \<Rightarrow> 'v session \<Rightarrow> 'r data_manager
      \<Rightarrow> (('r, 'v) argument \<times> 'r data_manager) outcome" where
  "get_data_as_ref T R data session req =
     (if is_req T R then
        (case dm_as_ref req of Panic msg \<Rightarrow> Panic msg | Returned (v, req) \<Rightarrow> Returned (ArgRequest v, req))
      else if is_session T then Returned (ArgSession session, req)
      else if is_data T then Returned (ArgData data, req)
      else case data_get T data of
        None \<Rightarrow> Panic ''unwrap on None''
      | Some v \<Rightarrow> Returned (ArgValue v, req))"

definition get_data_as_owned ::
    "type_id \<Rightarrow> type_id \<Rightarrow> 'v data \<Rightarrow> 'v session \<Rightarrow> 'r data_manager
      \<Rightarrow> (('r, 'v) argument \<times> 'r data_manager) outcome" where
  "get_data_as_owned T R data session req =
     (if is_req T R then
        (case dm_take req of Panic msg \<Rightarrow> Panic msg | Returned (v, req) \<Rightarrow> Returned (ArgRequest v, req))
      else Panic ''unreachable'')"

section \<open>What the macro generates\<close>

text \<open>A parameter is a reference or not.\<close>

datatype param = ByRef type_id | Owned type_id

fun valid_param :: "type_id \<Rightarrow> 'v data \<Rightarrow> param \<Rightarrow> bool" where
  "valid_param R data (ByRef T) = valid_data_as_ref T R data"
| "valid_param R data (Owned T) = valid_data_as_owned T R data"

text \<open>\<open>validate_data\<close>: one assertion for each parameter.\<close>

definition validate_data :: "type_id \<Rightarrow> param list \<Rightarrow> 'v data \<Rightarrow> bool" where
  "validate_data R params data \<longleftrightarrow> list_all (valid_param R data) params"

fun get_param ::
    "type_id \<Rightarrow> 'v data \<Rightarrow> 'v session \<Rightarrow> param \<Rightarrow> 'r data_manager
      \<Rightarrow> (('r, 'v) argument \<times> 'r data_manager) outcome" where
  "get_param R data session (ByRef T) req = get_data_as_ref T R data session req"
| "get_param R data session (Owned T) req = get_data_as_owned T R data session req"

text \<open>The variables \<open>handler_arg_0, ...\<close>, in order.\<close>

fun handler_args ::
    "type_id \<Rightarrow> 'v data \<Rightarrow> 'v session \<Rightarrow> param list \<Rightarrow> 'r data_manager \<Rightarrow> ('r, 'v) argument list outcome" where
  "handler_args R data session [] req = Returned []"
| "handler_args R data session (p # ps) req =
     (case get_param R data session p req of
        Panic msg \<Rightarrow> Panic msg
      | Returned (a, req) \<Rightarrow>
          (case handler_args R data session ps req of
             Panic msg \<Rightarrow> Panic msg
           | Returned as \<Rightarrow> Returned (a # as)))"

section \<open>When the arguments are there\<close>

fun returned :: "'a outcome \<Rightarrow> bool" where
  "returned (Returned x) = True"
| "returned (Panic msg) = False"

definition owned_uses :: "type_id \<Rightarrow> param list \<Rightarrow> nat" where
  "owned_uses R ps = count_list ps (Owned R)"

definition ref_uses :: "type_id \<Rightarrow> param list \<Rightarrow> nat" where
  "ref_uses R ps = count_list ps (ByRef R)"

lemma uses_simps [simp]:
  "owned_uses R [] = 0" "ref_uses R [] = 0"
  "owned_uses R (p # ps) = (if p = Owned R then Suc (owned_uses R ps) else owned_uses R ps)"
  "ref_uses R (p # ps) = (if p = ByRef R then Suc (ref_uses R ps) else ref_uses R ps)"
  by (simp_all add: owned_uses_def ref_uses_def)

text \<open>Data that is registered later does not make a valid handler invalid.\<close>

lemma valid_insert: "validate_data R params data \<Longrightarrow> validate_data R params (data_insert D v data)"
proof -
  have "valid_param R data p \<Longrightarrow> valid_param R (data_insert D v data) p" for p
    by (cases p) (auto simp: valid_data_as_ref_def valid_data_as_owned_def data_exists_def data_insert_def)
  then show "validate_data R params data \<Longrightarrow> validate_data R params (data_insert D v data)"
    by (auto simp: validate_data_def list_all_iff)
qed

lemma returned_Cons [simp]:
  "returned (case r of Panic msg \<Rightarrow> Panic msg | Returned as \<Rightarrow> Returned (a # as)) \<longleftrightarrow> returned r"
  by (cases r) simp_all

lemma handler_args_return:
  assumes "validate_data R params data"
  shows "returned (handler_args R data session params req) \<longleftrightarrow>
    (case dm_inner req of
       None \<Rightarrow> owned_uses R params = 0 \<and> ref_uses R params = 0
     | Some v \<Rightarrow> owned_uses R params = 0
         \<or> owned_uses R params = 1 \<and> ref_uses R params = 0 \<and> dm_borrows req = 0)"
  using assms
proof (induction params arbitrary: req)
  case Nil
  then show ?case by (simp split: option.split)
next
  case (Cons p ps)
  then have valid: "valid_param R data p" "validate_data R ps data"
    by (simp_all add: validate_data_def)
  show ?case
  proof (cases p)
    case (ByRef T)
    show ?thesis
    proof (cases "T = R")
      case True
      with ByRef Cons.IH [OF valid(2)] show ?thesis
        by (auto simp: get_data_as_ref_def is_req_def dm_as_ref_def split: option.split)
    next
      case False
      with ByRef valid(1) have "\<exists>a. get_param R data session p req = Returned (a, req)"
        by (auto simp: get_data_as_ref_def is_req_def is_session_def is_data_def valid_data_as_ref_def
            data_exists_def data_get_def)
      with Cons.IH [OF valid(2), of req] ByRef False show ?thesis
        by (auto split: option.split)
    qed
  next
    case (Owned T)
    with valid(1) have "T = R" by (simp add: valid_data_as_owned_def is_req_def)
    with Owned Cons.IH [OF valid(2)] show ?thesis
      by (auto simp: get_data_as_owned_def is_req_def dm_take_def split: option.split)
  qed
qed

end
