(* ===== verification/Bytes_Api.thy ===== *)
theory Bytes_Api
  imports Prelude
begin

text \<open>
  The interface of the third-party crate \<open>simple-bytes\<close> (\<open>bytes\<close> in the manifests), as
  far as \<open>protopuffer\<close> uses it. Its code is not part of the repository, so a reader and
  a writer are records of operations that the model takes as arguments, and the two
  locales state the documented behaviour the code relies on: reading takes bytes off
  the front of \<open>remaining()\<close> or fails with \<open>ReadError\<close> (\<open>None\<close>) when there are too few;
  writing appends to \<open>as_bytes()\<close> or fails with \<open>WriteError\<close> when there is no room.
\<close>

section \<open>Readers: \<open>Bytes\<close>, \<open>BytesRead\<close>, \<open>BytesReadRef\<close>\<close>

record 'r bytes_read =
  br_from :: "byte list \<Rightarrow> 'r"
  br_remaining :: "'r \<Rightarrow> byte list"
  br_try_read_u8 :: "'r \<Rightarrow> (byte \<times> 'r) option"
  br_try_read_le_u32 :: "'r \<Rightarrow> (u32 \<times> 'r) option"
  br_try_read_le_u64 :: "'r \<Rightarrow> (u64 \<times> 'r) option"
  br_try_read_ref :: "'r \<Rightarrow> nat \<Rightarrow> (byte list \<times> 'r) option"

text \<open>
  \<open>reads r n f res\<close>: \<open>res\<close> is what taking \<open>n\<close> bytes off \<open>r\<close> and converting them with \<open>f\<close>
  gives.
\<close>

definition reads :: "'r bytes_read \<Rightarrow> 'r \<Rightarrow> nat \<Rightarrow> (byte list \<Rightarrow> 'a) \<Rightarrow> ('a \<times> 'r) option \<Rightarrow> bool" where
  "reads R r n f res \<longleftrightarrow>
     (case res of
        None \<Rightarrow> length (br_remaining R r) < n
      | Some (x, r') \<Rightarrow> n \<le> length (br_remaining R r) \<and> x = f (take n (br_remaining R r))
          \<and> br_remaining R r' = drop n (br_remaining R r))"

locale bytes_reader =
  fixes R :: "'r bytes_read"
  assumes remaining_from: "br_remaining R (br_from R bs) = bs"
    and read_u8: "reads R r 1 hd (br_try_read_u8 R r)"
    and read_le_u32: "reads R r 4 le_word (br_try_read_le_u32 R r)"
    and read_le_u64: "reads R r 8 le_word (br_try_read_le_u64 R r)"
    and read_ref: "reads R r n (\<lambda>bs. bs) (br_try_read_ref R r n)"

lemma reads_Some:
  assumes "reads R r n f res" and "n \<le> length (br_remaining R r)"
  obtains r' where "res = Some (f (take n (br_remaining R r)), r')"
    and "br_remaining R r' = drop n (br_remaining R r)"
  using assms by (auto simp: reads_def split: option.splits prod.splits)

lemma reads_None: "reads R r n f res \<Longrightarrow> length (br_remaining R r) < n \<Longrightarrow> res = None"
  by (auto simp: reads_def split: option.splits prod.splits)

lemma reads_SomeD:
  "reads R r n f (Some (x, r')) \<Longrightarrow>
     n \<le> length (br_remaining R r) \<and> x = f (take n (br_remaining R r))
     \<and> br_remaining R r' = drop n (br_remaining R r)"
  by (simp add: reads_def)

section \<open>Writers: \<open>BytesWrite\<close> and \<open>BytesOwned\<close>\<close>

record 'w bytes_write =
  bw_new :: 'w
  bw_as_bytes :: "'w \<Rightarrow> byte list"
  bw_try_write :: "'w \<Rightarrow> byte list \<Rightarrow> 'w option"
  bw_try_write_u8 :: "'w \<Rightarrow> byte \<Rightarrow> 'w option"
  bw_try_write_le_u32 :: "'w \<Rightarrow> u32 \<Rightarrow> 'w option"
  bw_try_write_le_u64 :: "'w \<Rightarrow> u64 \<Rightarrow> 'w option"

text \<open>
  \<open>appends W room w bs res\<close>: \<open>res\<close> is what writing \<open>bs\<close> to \<open>w\<close> gives, \<open>room w\<close> being the number
  of bytes \<open>w\<close> can still take (\<open>\<infinity>\<close> for a buffer that grows).
\<close>

definition appends ::
    "'w bytes_write \<Rightarrow> ('w \<Rightarrow> enat) \<Rightarrow> 'w \<Rightarrow> byte list \<Rightarrow> 'w option \<Rightarrow> bool" where
  "appends W room w bs res \<longleftrightarrow>
     (case res of
        None \<Rightarrow> room w < enat (length bs)
      | Some w' \<Rightarrow> enat (length bs) \<le> room w \<and> bw_as_bytes W w' = bw_as_bytes W w @ bs
          \<and> room w' = room w - enat (length bs))"

locale bytes_writer =
  fixes W :: "'w bytes_write" and room :: "'w \<Rightarrow> enat"
  assumes write_slice: "appends W room w bs (bw_try_write W w bs)"
    and write_u8: "appends W room w [b] (bw_try_write_u8 W w b)"
    and write_le_u32: "appends W room w (le_bytes 4 v) (bw_try_write_le_u32 W w v)"
    and write_le_u64: "appends W room w (le_bytes 8 x) (bw_try_write_le_u64 W w x)"

text \<open>\<open>BytesOwned\<close>: starts empty and grows as needed.\<close>

locale bytes_owned = bytes_writer +
  assumes new_empty: "bw_as_bytes W (bw_new W) = []"
    and grows: "room w = \<infinity>"
begin

lemma appends_owned: "appends W room w bs res \<Longrightarrow> \<exists>w'. res = Some w' \<and> bw_as_bytes W w' = bw_as_bytes W w @ bs"
  by (auto simp: appends_def grows split: option.splits)

end

text \<open>
  Writing in pieces: if the pieces are written one after the other, the whole is written,
  and the first failure is the failure of the whole.
\<close>

lemma enat_diff_diff: "(r :: enat) - enat a - enat b = r - enat (a + b)"
  by (cases r) simp_all

lemma enat_le_diff: "enat a \<le> r \<Longrightarrow> enat b \<le> r - enat a \<longleftrightarrow> enat (a + b) \<le> r"
  by (cases r) auto

lemma appends_Nil [simp]: "appends W room w [] (Some w)"
  by (cases "room w") (simp_all add: appends_def zero_enat_def [symmetric])

lemma appends_bind:
  assumes "appends W room w as m"
    and "\<And>w'. m = Some w' \<Longrightarrow> appends W room w' bs (f w')"
  shows "appends W room w (as @ bs) (Option.bind m f)"
proof (cases m)
  case None
  with assms(1) show ?thesis
    by (cases "room w") (auto simp: appends_def)
next
  case (Some w')
  with assms(1) have m: "enat (length as) \<le> room w" "bw_as_bytes W w' = bw_as_bytes W w @ as"
      "room w' = room w - enat (length as)"
    by (auto simp: appends_def)
  have "appends W room w' bs (f w')"
    using assms(2) Some by simp
  with m Some show ?thesis
    by (cases "room w")
      (auto simp: appends_def enat_diff_diff split: option.splits)
qed

section \<open>A concrete reader and writer\<close>

text \<open>
  Slices and vectors as byte lists: they satisfy the two interfaces, so the interfaces are
  consistent, and closed examples evaluate with them.
\<close>

definition slice_reader :: "byte list bytes_read" where
  "slice_reader = \<lparr>
     br_from = (\<lambda>bs. bs),
     br_remaining = (\<lambda>bs. bs),
     br_try_read_u8 = (\<lambda>bs. case bs of [] \<Rightarrow> None | b # bs' \<Rightarrow> Some (b, bs')),
     br_try_read_le_u32 = (\<lambda>bs. if length bs < 4 then None else Some (le_word (take 4 bs), drop 4 bs)),
     br_try_read_le_u64 = (\<lambda>bs. if length bs < 8 then None else Some (le_word (take 8 bs), drop 8 bs)),
     br_try_read_ref = (\<lambda>bs n. if length bs < n then None else Some (take n bs, drop n bs))\<rparr>"

definition vec_writer :: "byte list bytes_write" where
  "vec_writer = \<lparr>
     bw_new = [],
     bw_as_bytes = (\<lambda>w. w),
     bw_try_write = (\<lambda>w bs. Some (w @ bs)),
     bw_try_write_u8 = (\<lambda>w b. Some (w @ [b])),
     bw_try_write_le_u32 = (\<lambda>w v. Some (w @ le_bytes 4 v)),
     bw_try_write_le_u64 = (\<lambda>w v. Some (w @ le_bytes 8 v))\<rparr>"

definition unbounded :: "'w \<Rightarrow> enat" where
  "unbounded w = \<infinity>"

text \<open>A writer over a buffer of \<open>n\<close> bytes: the state is what has been written.\<close>

definition fixed_room :: "nat \<Rightarrow> byte list \<Rightarrow> enat" where
  "fixed_room n w = enat (n - length w)"

definition fixed_put :: "nat \<Rightarrow> byte list \<Rightarrow> byte list \<Rightarrow> byte list option" where
  "fixed_put n w bs = (if n - length w < length bs then None else Some (w @ bs))"

definition fixed_writer :: "nat \<Rightarrow> byte list bytes_write" where
  "fixed_writer n = \<lparr>
     bw_new = [],
     bw_as_bytes = (\<lambda>w. w),
     bw_try_write = fixed_put n,
     bw_try_write_u8 = (\<lambda>w b. fixed_put n w [b]),
     bw_try_write_le_u32 = (\<lambda>w v. fixed_put n w (le_bytes 4 v)),
     bw_try_write_le_u64 = (\<lambda>w v. fixed_put n w (le_bytes 8 v))\<rparr>"

lemma take_1_hd: "xs \<noteq> [] \<Longrightarrow> take (Suc 0) xs = [hd xs]"
  by (cases xs) simp_all

interpretation slice: bytes_reader slice_reader
  by unfold_locales (auto simp: reads_def slice_reader_def take_1_hd drop_Suc split: list.splits)

interpretation vec: bytes_owned vec_writer unbounded
  by unfold_locales (simp_all add: appends_def vec_writer_def unbounded_def)

interpretation fixed: bytes_writer "fixed_writer n" "fixed_room n" for n
  by unfold_locales (auto simp: appends_def fixed_writer_def fixed_room_def fixed_put_def)

end
