(* ===== verification/Varint.thy ===== *)
theory Varint
  imports Bytes_Api
begin

unbundle bit_operations_syntax

text \<open>
  \<open>protopuffer/src/varint.rs\<close>: base-128 integers. \<open>varint_read\<close>, \<open>varint_write\<close> and
  \<open>varint_size\<close> are the three methods of \<open>Varint\<close>; \<open>varint_bytes\<close> is the specification
  of the encoding, which all three are related to.
\<close>

section \<open>The code\<close>

text \<open>
  One round of \<open>for i in 0..10\<close>: the list holds the values of \<open>i\<close> that are left, \<open>val\<close> and
  \<open>msb\<close> are the loop's variables. \<open>None\<close> is \<open>Err(ReadError)\<close>.
\<close>

fun varint_read_loop ::
    "'r bytes_read \<Rightarrow> nat list \<Rightarrow> u64 \<Rightarrow> bool \<Rightarrow> 'r \<Rightarrow> (u64 \<times> bool \<times> 'r) option" where
  "varint_read_loop R [] val msb r = Some (val, msb, r)"
| "varint_read_loop R (i # is) val msb r =
     (case br_try_read_u8 R r of
        None \<Rightarrow> None
      | Some (b, r') \<Rightarrow>
          let val' = val OR push_bit (i * 7) (ucast (b AND 0x7F) :: u64);
              msb' = (b AND 0x80 > 0)
          in if \<not> msb' then Some (val', msb', r')
             else varint_read_loop R is val' msb' r')"

definition varint_read :: "'r bytes_read \<Rightarrow> 'r \<Rightarrow> (u64 \<times> 'r) option" where
  "varint_read R r =
     (case varint_read_loop R [0..<10] 0 False r of
        None \<Rightarrow> None
      | Some (val, msb, r') \<Rightarrow> if msb then None else Some (val, r'))"

text \<open>The rounds of \<open>for _ in 1..=10\<close> that are left, and the part of the value not yet written.\<close>

fun varint_write_loop :: "'w bytes_write \<Rightarrow> nat \<Rightarrow> u64 \<Rightarrow> 'w \<Rightarrow> 'w option" where
  "varint_write_loop W 0 val w = Some w"
| "varint_write_loop W (Suc n) val w =
     (let b = (ucast val :: byte) AND 0x7F;
          val' = drop_bit 7 val;
          msb = val' > 0;
          b' = (if msb then b OR 0x80 else b)
      in case bw_try_write_u8 W w b' of
           None \<Rightarrow> None
         | Some w' \<Rightarrow> if \<not> msb then Some w' else varint_write_loop W n val' w')"

definition varint_write :: "'w bytes_write \<Rightarrow> u64 \<Rightarrow> 'w \<Rightarrow> 'w option" where
  "varint_write W v w = varint_write_loop W 10 v w"

text \<open>
  \<open>u64::leading_zeros\<close> counts the zero bits above the highest set bit.
\<close>

fun significant_bits :: "nat \<Rightarrow> nat" where
  "significant_bits n = (if n = 0 then 0 else Suc (significant_bits (n div 2)))"

declare significant_bits.simps [simp del]

definition leading_zeros :: "u64 \<Rightarrow> nat" where
  "leading_zeros v = 64 - significant_bits (unat v)"

text \<open>
  \<open>(bits as f32 / 7f32).ceil()\<close>: \<open>bits\<close> is at most 64, and in that range the division in
  \<open>f32\<close> is exact on the multiples of 7 and stays strictly between two integers elsewhere,
  so the ceiling is that of the exact quotient.
\<close>

definition varint_size :: "u64 \<Rightarrow> u64" where
  "varint_size v =
     (let bits = 64 - leading_zeros v;
          bytes = nat \<lceil>rat_of_nat bits / 7\<rceil>
      in of_nat (max bytes 1))"

section \<open>The encoding\<close>

fun varint_digits :: "nat \<Rightarrow> u64 \<Rightarrow> byte list" where
  "varint_digits 0 v = []"
| "varint_digits (Suc n) v =
     (if drop_bit 7 v > 0
      then (ucast v AND 0x7F OR 0x80) # varint_digits n (drop_bit 7 v)
      else [ucast v AND 0x7F])"

definition varint_bytes :: "u64 \<Rightarrow> byte list" where
  "varint_bytes v = varint_digits 10 v"

lemma varint_digits_not_Nil: "0 < n \<Longrightarrow> varint_digits n v \<noteq> []"
  by (cases n) simp_all

lemma varint_bytes_not_Nil [simp]: "varint_bytes v \<noteq> []"
  by (simp add: varint_bytes_def varint_digits_not_Nil)

section \<open>Writing\<close>

context bytes_writer
begin

lemma write_loop_appends:
  "appends W room w (varint_digits n v) (varint_write_loop W n v w)"
proof (induction n arbitrary: v w)
  case 0
  show ?case by simp
next
  case (Suc n)
  let ?b = "ucast v AND (0x7F :: byte)"
  show ?case
  proof (cases "drop_bit 7 v > 0")
    case False
    then show ?thesis
      using write_u8 [of w ?b]
      by (cases "bw_try_write_u8 W w ?b") (simp_all add: Let_def)
  next
    case True
    have "appends W room w ([?b OR 0x80] @ varint_digits n (drop_bit 7 v))
            (Option.bind (bw_try_write_u8 W w (?b OR 0x80)) (varint_write_loop W n (drop_bit 7 v)))"
      by (rule appends_bind [OF write_u8]) (rule Suc)
    with True show ?thesis
      by (simp add: Let_def bind_split split: option.splits)
  qed
qed

lemma varint_write_appends: "appends W room w (varint_bytes v) (varint_write W v w)"
  by (simp add: varint_write_def varint_bytes_def write_loop_appends)

end

section \<open>Reading back\<close>

lemma unat_u64_less: "unat (v :: u64) < 2 ^ 64"
proof -
  have "unat v < 2 ^ LENGTH(64)"
    by (rule unsigned_less)
  then show ?thesis by simp
qed

lemma unat_drop7: "unat (drop_bit 7 (v :: u64)) = unat v div 128"
  by (simp only: unat_drop_bit_eq) (simp only: drop_bit_eq_div, simp)

lemma drop7_pos: "drop_bit 7 (v :: u64) > 0 \<longleftrightarrow> 128 \<le> unat v"
  by (simp only: word_less_nat_alt unat_drop7) (simp add: div_greater_zero_iff)

lemma unat_drop7_less: "unat (v :: u64) < 2 ^ (7 * Suc n) \<Longrightarrow> unat (drop_bit 7 v) < 2 ^ (7 * n)"
  unfolding unat_drop7 by (simp add: less_mult_imp_div_less power_add mult.commute)

lemma bit_low7 [simp]: "bit (0x7F :: int) n \<longleftrightarrow> n < 7"
proof -
  have "(0x7F :: int) = mask 7"
    by (simp add: mask_eq_exp_minus_1)
  then show ?thesis
    by (simp only: bit_mask_iff) simp
qed

lemma bit_high [simp]: "bit (0x80 :: int) n \<longleftrightarrow> n = 7"
proof -
  have "(0x80 :: int) = push_bit 7 1"
    by simp
  then show ?thesis
    by (simp only: bit_push_bit_iff bit_1_iff) auto
qed

lemma low_digit:
  "ucast (ucast v AND 0x7F :: byte) = (take_bit 7 v :: u64)"
  "ucast ((ucast v AND 0x7F OR 0x80) AND 0x7F :: byte) = (take_bit 7 v :: u64)"
  by (rule bit_eqI; auto simp: bit_simps)+

lemma high_digit:
  "\<not> ((ucast v AND 0x7F) AND 0x80 > (0 :: byte))"
  "(ucast v AND 0x7F OR 0x80) AND 0x80 > (0 :: byte)"
proof -
  have "(ucast v AND 0x7F) AND 0x80 = (0 :: byte)"
    by (rule bit_eqI) (auto simp: bit_simps)
  then show "\<not> ((ucast v AND 0x7F) AND 0x80 > (0 :: byte))" by simp
  have "(ucast v AND 0x7F OR 0x80) AND 0x80 = (0x80 :: byte)"
    by (rule bit_eqI) (auto simp: bit_simps)
  then show "(ucast v AND 0x7F OR 0x80) AND 0x80 > (0 :: byte)" by simp
qed

lemma join_digit:
  "push_bit i (take_bit 7 v) OR push_bit (i + 7) (drop_bit 7 v) = push_bit i (v :: u64)"
  by (rule bit_eqI) (auto simp: bit_simps not_less intro: arg_cong [where f = "bit v", THEN iffD1])

lemma last_digit: "drop_bit 7 v = 0 \<Longrightarrow> take_bit 7 v = (v :: u64)"
  by (metis bits_ident push_bit_of_0 add_0)

lemma varint_read_loop_more:
  "br_try_read_u8 R r = Some (b, r') \<Longrightarrow> b AND 0x80 > 0 \<Longrightarrow>
     varint_read_loop R (i # is) acc m r
       = varint_read_loop R is (acc OR push_bit (i * 7) (ucast (b AND 0x7F))) True r'"
  by (simp add: Let_def)

lemma varint_read_loop_stop:
  "br_try_read_u8 R r = Some (b, r') \<Longrightarrow> \<not> b AND 0x80 > 0 \<Longrightarrow>
     varint_read_loop R (i # is) acc m r
       = Some (acc OR push_bit (i * 7) (ucast (b AND 0x7F)), False, r')"
  by (simp add: Let_def)

text \<open>
  From round \<open>i\<close> on, the loop reads back the digits of \<open>v\<close> and adds them at bit \<open>7 * i\<close>, as
  long as the digits fit in the rounds that are left.
\<close>

context bytes_reader
begin

lemma read_loop_digits:
  assumes "i + n = 10" and "0 < n" and "unat v < 2 ^ (7 * n)"
    and "br_remaining R r = varint_digits n v @ rest"
  shows "\<exists>r'. varint_read_loop R [i..<10] acc m r = Some (acc OR push_bit (i * 7) v, False, r')
           \<and> br_remaining R r' = rest"
  using assms
proof (induction n arbitrary: i v acc m r)
  case 0
  then show ?case by simp
next
  case (Suc n)
  let ?b = "ucast v AND (0x7F :: byte)"
  have i: "[i..<10] = i # [Suc i..<10]"
    using Suc.prems(1) by (simp add: upt_rec)
  show ?case
  proof (cases "drop_bit 7 v > 0")
    case False
    then have rem: "br_remaining R r = ?b # rest"
      using Suc.prems(4) by simp
    obtain r' where r': "br_try_read_u8 R r = Some (?b, r')" "br_remaining R r' = rest"
      using reads_Some [OF read_u8, of r] rem by auto
    have "take_bit 7 v = v"
      using False by (intro last_digit) (simp add: word_gt_0)
    with r' show ?thesis
      by (simp only: i varint_read_loop_stop [OF r'(1) high_digit(1)] low_digit and.assoc and.idem) simp
  next
    case True
    then have rem: "br_remaining R r = (?b OR 0x80) # (varint_digits n (drop_bit 7 v) @ rest)"
      using Suc.prems(4) by simp
    obtain r' where r': "br_try_read_u8 R r = Some (?b OR 0x80, r')"
        "br_remaining R r' = varint_digits n (drop_bit 7 v) @ rest"
      using reads_Some [OF read_u8, of r] rem by auto
    have small: "unat (drop_bit 7 v) < 2 ^ (7 * n)"
      using Suc.prems(3) by (rule unat_drop7_less)
    have "0 < n"
    proof (rule ccontr)
      assume "\<not> 0 < n"
      with small have "unat (drop_bit 7 v) = 0" by simp
      with True show False by (simp add: word_gt_0 unat_eq_zero)
    qed
    with Suc.IH [of "Suc i" "drop_bit 7 v" r' "acc OR push_bit (i * 7) (take_bit 7 v)" True]
      Suc.prems(1) small r'
    obtain r'' where "varint_read_loop R [Suc i..<10] (acc OR push_bit (i * 7) (take_bit 7 v)) True r'
        = Some ((acc OR push_bit (i * 7) (take_bit 7 v)) OR push_bit (Suc i * 7) (drop_bit 7 v), False, r'')"
        "br_remaining R r'' = rest"
      by auto
    then show ?thesis
      using join_digit [of "i * 7" v]
      by (simp only: i varint_read_loop_more [OF r'(1) high_digit(2)] low_digit)
        (simp add: or.assoc add.commute)
  qed
qed

lemma varint_read_bytes:
  assumes "br_remaining R r = varint_bytes v @ rest"
  shows "\<exists>r'. varint_read R r = Some (v, r') \<and> br_remaining R r' = rest"
proof -
  have "unat v < 2 ^ (7 * 10)"
    using unat_u64_less [of v] by simp
  then show ?thesis
    using read_loop_digits [of 0 10 v r rest 0 False] assms
    by (auto simp: varint_read_def varint_bytes_def simp del: upt_rec_numeral upt_conv_Cons)
qed

end

section \<open>Size\<close>

text \<open>The number of base-128 digits of a number.\<close>

fun digits128 :: "nat \<Rightarrow> nat" where
  "digits128 n = (if n < 128 then 1 else Suc (digits128 (n div 128)))"

declare digits128.simps [simp del]

lemma significant_bits_128: "128 \<le> n \<Longrightarrow> significant_bits n = 7 + significant_bits (n div 128)"
  by (simp add: significant_bits.simps [of n] significant_bits.simps [of "n div 2"]
      significant_bits.simps [of "n div 4"] significant_bits.simps [of "n div 8"]
      significant_bits.simps [of "n div 16"] significant_bits.simps [of "n div 32"]
      significant_bits.simps [of "n div 64"] div_eq_0_iff flip: div_mult2_eq)

lemma significant_bits_less: "n < 2 ^ k \<Longrightarrow> significant_bits n \<le> k"
proof (induction k arbitrary: n)
  case 0
  then show ?case by (simp add: significant_bits.simps)
next
  case (Suc k)
  then have "significant_bits (n div 2) \<le> k"
    by (intro Suc.IH) simp
  then show ?case by (simp add: significant_bits.simps [of n])
qed

lemma ceil_div_7: "nat \<lceil>rat_of_nat b / 7\<rceil> = (b + 6) div 7"
proof -
  define q where "q = (b + 6) div 7"
  have "b \<le> 7 * q" and "7 * q < b + 7"
    by (simp_all add: q_def)
  then have "rat_of_nat b \<le> rat_of_nat (7 * q)" and "rat_of_nat (7 * q) < rat_of_nat (b + 7)"
    by (simp_all only: of_nat_le_iff of_nat_less_iff)
  then have "\<lceil>rat_of_nat b / 7\<rceil> = int q"
    by (intro ceiling_unique) simp_all
  then show ?thesis by (simp add: q_def)
qed

lemma digits128_bits: "digits128 n = max ((significant_bits n + 6) div 7) 1"
proof (induction n rule: digits128.induct)
  case (1 n)
  show ?case
  proof (cases "n < 128")
    case True
    then have "significant_bits n \<le> 7"
      by (intro significant_bits_less) simp
    with True show ?thesis by (simp add: digits128.simps [of n])
  next
    case False
    moreover have "0 < significant_bits (n div 128)"
      using False by (simp add: significant_bits.simps [of "n div 128"] div_greater_zero_iff)
    ultimately show ?thesis
      using 1 by (simp add: digits128.simps [of n] significant_bits_128)
  qed
qed

lemma length_varint_digits:
  "0 < n \<Longrightarrow> unat v < 2 ^ (7 * n) \<Longrightarrow> length (varint_digits n v) = digits128 (unat v)"
proof (induction n arbitrary: v)
  case 0
  then show ?case by simp
next
  case (Suc n)
  have small: "unat (drop_bit 7 v) < 2 ^ (7 * n)"
    using Suc.prems(2) by (rule unat_drop7_less)
  show ?case
  proof (cases "n = 0")
    case True
    with Suc.prems(2) show ?thesis by (simp add: digits128.simps [of "unat v"] drop7_pos)
  next
    case False
    with small Suc.IH [of "drop_bit 7 v"] show ?thesis
      by (simp add: digits128.simps [of "unat v"] drop7_pos unat_drop7 not_less)
  qed
qed

lemma length_varint_bytes: "length (varint_bytes v) = digits128 (unat v)"
proof -
  have "unat v < 2 ^ (7 * 10)"
    using unat_u64_less [of v] by simp
  then show ?thesis
    by (simp add: varint_bytes_def length_varint_digits)
qed

lemma significant_bits_u64: "significant_bits (unat (v :: u64)) \<le> 64"
  by (rule significant_bits_less) (rule unat_u64_less)

lemma varint_size_bytes: "varint_size v = of_nat (length (varint_bytes v))"
  using significant_bits_u64 [of v]
  by (simp add: varint_size_def leading_zeros_def ceil_div_7 length_varint_bytes digits128_bits Let_def)

lemma length_varint_bytes_bounds: "1 \<le> length (varint_bytes v) \<and> length (varint_bytes v) \<le> 10"
  using significant_bits_u64 [of v] by (auto simp: length_varint_bytes digits128_bits)

section \<open>Independence of the reader\<close>

text \<open>
  What an operation gives depends on the bytes that remain only: reading through any
  reader and looking at its remaining bytes is reading from the slice.
\<close>

definition on_slice :: "'r bytes_read \<Rightarrow> ('a \<times> 'r) option \<Rightarrow> ('a \<times> byte list) option" where
  "on_slice R = map_option (\<lambda>(x, r). (x, br_remaining R r))"

lemma on_slice_simps [simp]:
  "on_slice R None = None"
  "on_slice R (Some (x, r)) = Some (x, br_remaining R r)"
  by (simp_all add: on_slice_def)

lemma on_slice_eq_Some: "on_slice R m = Some (x, bs) \<longleftrightarrow> (\<exists>r. m = Some (x, r) \<and> br_remaining R r = bs)"
  by (auto simp: on_slice_def)

lemma slice_remaining [simp]:
  "br_remaining slice_reader bs = bs" "br_from slice_reader bs = bs"
  by (simp_all add: slice_reader_def)

lemma reads_on_slice:
  "reads R r n f res \<Longrightarrow>
     on_slice R res = (if length (br_remaining R r) < n then None
       else Some (f (take n (br_remaining R r)), drop n (br_remaining R r)))"
  by (auto simp: reads_def on_slice_def split: option.splits)

context bytes_reader
begin

lemma u8_on_slice: "on_slice R (br_try_read_u8 R r) = br_try_read_u8 slice_reader (br_remaining R r)"
  using reads_on_slice [OF read_u8, of r] reads_on_slice [OF slice.read_u8, of "br_remaining R r"]
  by (auto simp: on_slice_def slice_reader_def split: list.splits)

lemma le_u32_on_slice:
  "on_slice R (br_try_read_le_u32 R r) = br_try_read_le_u32 slice_reader (br_remaining R r)"
  using reads_on_slice [OF read_le_u32, of r] by (simp add: slice_reader_def)

lemma le_u64_on_slice:
  "on_slice R (br_try_read_le_u64 R r) = br_try_read_le_u64 slice_reader (br_remaining R r)"
  using reads_on_slice [OF read_le_u64, of r] by (simp add: slice_reader_def)

lemma ref_on_slice:
  "on_slice R (br_try_read_ref R r n) = br_try_read_ref slice_reader (br_remaining R r) n"
  using reads_on_slice [OF read_ref, of r n] by (simp add: slice_reader_def)

lemma read_loop_on_slice:
  "map_option (\<lambda>(v, m, r). (v, m, br_remaining R r)) (varint_read_loop R is val msb r)
     = varint_read_loop slice_reader is val msb (br_remaining R r)"
proof (induction "is" arbitrary: val msb r)
  case Nil
  show ?case by simp
next
  case (Cons i "is")
  show ?case
    by (cases "br_try_read_u8 R r") (auto simp: Let_def Cons simp flip: u8_on_slice)
qed

lemma varint_read_on_slice:
  "on_slice R (varint_read R r) = varint_read slice_reader (br_remaining R r)"
  by (cases "varint_read_loop R [0..<10] 0 False r")
    (auto simp: varint_read_def simp del: upt_rec_numeral simp flip: read_loop_on_slice)

end

text \<open>A varint takes at least one byte off the reader, and the bytes behind it stay.\<close>

lemma slice_read_loop_suffix:
  "varint_read_loop slice_reader is val msb bs = Some (v, m, bs') \<Longrightarrow>
     \<exists>k \<le> length is. (is \<noteq> [] \<longrightarrow> 0 < k) \<and> bs' = drop k bs \<and> k \<le> length bs"
proof (induction "is" arbitrary: val msb bs)
  case Nil
  then show ?case by auto
next
  case (Cons i "is")
  then obtain b bs1 where bs: "bs = b # bs1"
    by (auto simp: slice_reader_def split: list.splits)
  show ?case
  proof (cases "b AND 0x80 > 0")
    case False
    with Cons.prems bs show ?thesis
      by (intro exI [of _ 1]) (auto simp: slice_reader_def Let_def)
  next
    case True
    with Cons.prems bs have "varint_read_loop slice_reader is
        (val OR push_bit (i * 7) (ucast (b AND 0x7F))) True bs1 = Some (v, m, bs')"
      by (subst (asm) varint_read_loop_more) (simp_all add: slice_reader_def)
    from Cons.IH [OF this] obtain k where "k \<le> length is" "bs' = drop k bs1" "k \<le> length bs1"
      by blast
    with bs show ?thesis
      by (intro exI [of _ "Suc k"]) auto
  qed
qed

lemma slice_varint_shorter:
  assumes "varint_read slice_reader bs = Some (v, bs')"
  shows "length bs' < length bs"
proof -
  from assms have "varint_read_loop slice_reader [0..<10] 0 False bs = Some (v, False, bs')"
    by (auto simp: varint_read_def simp del: upt_rec_numeral split: option.splits if_splits)
  from slice_read_loop_suffix [OF this] show ?thesis
    by auto
qed

end
