(* ===== verification/Wire.thy ===== *)
theory Wire
  imports Varint
begin

unbundle bit_operations_syntax

text \<open>
  \<open>WireType\<close> of \<open>protopuffer/src/lib.rs\<close> and the message decoder of
  \<open>protopuffer/src/decode.rs\<close>: the errors, the kinds of a field, and \<open>MessageDecoder\<close>
  with its methods. A decoder is its inner reader.
\<close>

section \<open>Wire types\<close>

datatype wire_type = WVarint | WI32 | WI64 | WLen

datatype decode_error =
    UnexpectedEof
  | ExpectedEof
  | InvalidVarint
  | InvalidWireType byte
  | WireTypeMismatch
  | ExpectedVarintWireType
  | ExpectedI32WireType
  | ExpectedI64WireType
  | ExpectedLenWireType
  | ExpectedUtf8
  | ExpectedArrayLen nat
  | OtherDecodeError string

definition from_tag :: "u64 \<Rightarrow> decode_error + wire_type" where
  "from_tag tag =
     (let b = (ucast tag :: byte) AND 0x07
      in if b = 0 then Inr WVarint
         else if b = 1 then Inr WI64
         else if b = 2 then Inr WLen
         else if b = 5 then Inr WI32
         else Inl (InvalidWireType b))"

fun as_num :: "wire_type \<Rightarrow> byte" where
  "as_num WVarint = 0"
| "as_num WI64 = 1"
| "as_num WLen = 2"
| "as_num WI32 = 5"

fun can_be_packed :: "wire_type \<Rightarrow> bool" where
  "can_be_packed WVarint = True"
| "can_be_packed WI32 = True"
| "can_be_packed WI64 = True"
| "can_be_packed WLen = False"

lemma can_be_packed_iff: "can_be_packed t \<longleftrightarrow> t \<noteq> WLen"
  by (cases t) simp_all

section \<open>Fields\<close>

datatype field_kind = KVarint u64 | KI32 u32 | KI64 u64 | KLen "byte list"

record field =
  number :: u64
  kind :: field_kind

fun is_len :: "field_kind \<Rightarrow> bool" where
  "is_len (KLen _) = True"
| "is_len _ = False"

fun kind_wire_type :: "field_kind \<Rightarrow> wire_type" where
  "kind_wire_type (KVarint _) = WVarint"
| "kind_wire_type (KI32 _) = WI32"
| "kind_wire_type (KI64 _) = WI64"
| "kind_wire_type (KLen _) = WLen"

fun try_unwrap_varint :: "field_kind \<Rightarrow> decode_error + u64" where
  "try_unwrap_varint (KVarint n) = Inr n"
| "try_unwrap_varint _ = Inl ExpectedVarintWireType"

fun try_unwrap_i32 :: "field_kind \<Rightarrow> decode_error + u32" where
  "try_unwrap_i32 (KI32 n) = Inr n"
| "try_unwrap_i32 _ = Inl ExpectedI32WireType"

fun try_unwrap_i64 :: "field_kind \<Rightarrow> decode_error + u64" where
  "try_unwrap_i64 (KI64 n) = Inr n"
| "try_unwrap_i64 _ = Inl ExpectedI64WireType"

fun try_unwrap_len :: "field_kind \<Rightarrow> decode_error + byte list" where
  "try_unwrap_len (KLen b) = Inr b"
| "try_unwrap_len _ = Inl ExpectedLenWireType"

section \<open>The message decoder\<close>

text \<open>\<open>MessageDecoder::new\<close> and \<open>MessageDecoder::try_from_kind\<close>.\<close>

definition decoder_new :: "'r bytes_read \<Rightarrow> byte list \<Rightarrow> 'r" where
  "decoder_new R bs = br_from R bs"

definition try_from_kind :: "'r bytes_read \<Rightarrow> field_kind \<Rightarrow> decode_error + 'r" where
  "try_from_kind R k = rbind (try_unwrap_len k) (\<lambda>bs. Inr (decoder_new R bs))"

definition next_varint :: "'r bytes_read \<Rightarrow> 'r \<Rightarrow> decode_error + u64 \<times> 'r" where
  "next_varint R d = or_err InvalidVarint (varint_read R d)"

text \<open>\<open>len as usize\<close>: a \<open>usize\<close> has 64 bits on the targets considered.\<close>

definition next_kind :: "'r bytes_read \<Rightarrow> wire_type \<Rightarrow> 'r \<Rightarrow> decode_error + field_kind \<times> 'r" where
  "next_kind R ty d =
     (case ty of
        WVarint \<Rightarrow> rbind (next_varint R d) (\<lambda>(n, d'). Inr (KVarint n, d'))
      | WI64 \<Rightarrow> rbind (or_err UnexpectedEof (br_try_read_le_u64 R d)) (\<lambda>(n, d'). Inr (KI64 n, d'))
      | WI32 \<Rightarrow> rbind (or_err UnexpectedEof (br_try_read_le_u32 R d)) (\<lambda>(n, d'). Inr (KI32 n, d'))
      | WLen \<Rightarrow> rbind (next_varint R d) (\<lambda>(len, d').
                  rbind (or_err UnexpectedEof (br_try_read_ref R d' (unat len))) (\<lambda>(bs, d'').
                    Inr (KLen bs, d''))))"

definition maybe_next_kind ::
    "'r bytes_read \<Rightarrow> wire_type \<Rightarrow> 'r \<Rightarrow> decode_error + field_kind option \<times> 'r" where
  "maybe_next_kind R ty d =
     (if br_remaining R d = [] then Inr (None, d)
      else rbind (next_kind R ty d) (\<lambda>(k, d'). Inr (Some k, d')))"

definition next_field :: "'r bytes_read \<Rightarrow> 'r \<Rightarrow> decode_error + field option \<times> 'r" where
  "next_field R d =
     (if br_remaining R d = [] then Inr (None, d)
      else rbind (next_varint R d) (\<lambda>(tag, d1).
             rbind (from_tag tag) (\<lambda>wtype.
               rbind (next_kind R wtype d1) (\<lambda>(k, d2).
                 Inr (Some \<lparr>number = drop_bit 3 tag, kind = k\<rparr>, d2)))))"

definition finish :: "'r bytes_read \<Rightarrow> 'r \<Rightarrow> decode_error + unit" where
  "finish R d = (if br_remaining R d = [] then Inr () else Inl ExpectedEof)"

section \<open>What a field looks like on the wire\<close>

definition tag_of :: "u64 \<Rightarrow> wire_type \<Rightarrow> u64" where
  "tag_of num t = push_bit 3 num OR ucast (as_num t)"

fun kind_bytes :: "field_kind \<Rightarrow> byte list" where
  "kind_bytes (KVarint n) = varint_bytes n"
| "kind_bytes (KI32 n) = le_bytes 4 n"
| "kind_bytes (KI64 n) = le_bytes 8 n"
| "kind_bytes (KLen bs) = varint_bytes (of_nat (length bs)) @ bs"

definition field_bytes :: "u64 \<Rightarrow> field_kind \<Rightarrow> byte list" where
  "field_bytes num k = varint_bytes (tag_of num (kind_wire_type k)) @ kind_bytes k"

text \<open>A field number has 61 bits, and the length of a slice fits \<open>u64\<close>.\<close>

definition num_ok :: "u64 \<Rightarrow> bool" where
  "num_ok num \<longleftrightarrow> unat num < 2 ^ 61"

fun kind_ok :: "field_kind \<Rightarrow> bool" where
  "kind_ok (KLen bs) \<longleftrightarrow> length bs < 2 ^ 64"
| "kind_ok _ \<longleftrightarrow> True"

lemma from_tag_of [simp]: "from_tag (tag_of num t) = Inr t"
proof -
  have "(ucast (tag_of num t) :: byte) AND 0x07 = as_num t"
  proof -
    have low: "bit (7 :: int) n \<longleftrightarrow> n < 3" for n
    proof -
      have "(7 :: int) = mask 3" by (simp add: mask_eq_exp_minus_1)
      then show ?thesis by (simp only: bit_mask_iff) simp
    qed
    have "as_num t AND 0x07 = as_num t"
      by (cases t) simp_all
    moreover have "(ucast (tag_of num t) :: byte) AND 0x07 = as_num t AND 0x07"
      by (rule bit_eqI) (auto simp: tag_of_def bit_simps low)
    ultimately show ?thesis by simp
  qed
  then show ?thesis
    by (cases t) (simp_all add: from_tag_def Let_def)
qed

lemma drop_tag_of: "num_ok num \<Longrightarrow> drop_bit 3 (tag_of num t) = num"
proof (rule bit_word_eqI)
  fix n
  assume "num_ok num" and n: "n < LENGTH(64)"
  have "\<not> bit num n" if "61 \<le> n"
  proof -
    have "(2 :: nat) ^ 61 \<le> 2 ^ n"
      by (rule power_increasing) (use that in simp_all)
    with \<open>num_ok num\<close> have "unat num < 2 ^ n"
      unfolding num_ok_def by (rule less_le_trans)
    then have "\<not> bit (unat num) n"
      by (simp add: bit_iff_odd)
    then show ?thesis
      by (auto simp: bit_simps dest: bit_imp_le_length)
  qed
  then have high: "bit num n \<Longrightarrow> n < 61"
    by (meson not_less)
  have num3: "\<not> bit (as_num t) (3 + n)"
    by (cases t) (auto simp: bit_simps numeral_eq_Suc)
  show "bit (drop_bit 3 (tag_of num t)) n \<longleftrightarrow> bit num n"
    using n high num3 by (auto simp: tag_of_def bit_simps)
qed

section \<open>Reading a field back\<close>

context bytes_reader
begin

lemma next_varint_bytes:
  "br_remaining R d = varint_bytes v @ rest \<Longrightarrow>
     \<exists>d'. next_varint R d = Inr (v, d') \<and> br_remaining R d' = rest"
  using varint_read_bytes [of d v rest] by (auto simp: next_varint_def)

lemma next_kind_bytes:
  assumes "kind_ok k" and "br_remaining R d = kind_bytes k @ rest"
  shows "\<exists>d'. next_kind R (kind_wire_type k) d = Inr (k, d') \<and> br_remaining R d' = rest"
proof (cases k)
  case (KVarint n)
  with assms next_varint_bytes [of d n rest] show ?thesis
    by (auto simp: next_kind_def)
next
  case (KI32 n)
  with assms have "4 \<le> length (br_remaining R d)" by simp
  with KI32 assms obtain d' where "br_try_read_le_u32 R d = Some (n, d')" "br_remaining R d' = rest"
    using reads_Some [OF read_le_u32, of d] by auto
  with KI32 show ?thesis
    by (auto simp: next_kind_def)
next
  case (KI64 n)
  with assms have "8 \<le> length (br_remaining R d)" by simp
  with KI64 assms obtain d' where "br_try_read_le_u64 R d = Some (n, d')" "br_remaining R d' = rest"
    using reads_Some [OF read_le_u64, of d] by auto
  with KI64 show ?thesis
    by (auto simp: next_kind_def)
next
  case (KLen bs)
  with assms obtain d1 where d1: "next_varint R d = Inr (of_nat (length bs), d1)"
      "br_remaining R d1 = bs @ rest"
    using next_varint_bytes [of d "of_nat (length bs)" "bs @ rest"] by auto
  have len: "unat (of_nat (length bs) :: u64) = length bs"
    using assms(1) KLen by (simp add: unat_of_nat_u64)
  obtain d2 where "br_try_read_ref R d1 (length bs) = Some (bs, d2)" "br_remaining R d2 = rest"
    using reads_Some [OF read_ref, of "length bs" d1] d1 by auto
  with d1 len KLen show ?thesis
    by (auto simp: next_kind_def)
qed

lemma next_field_bytes:
  assumes "num_ok num" and "kind_ok k" and "br_remaining R d = field_bytes num k @ rest"
  shows "\<exists>d'. next_field R d = Inr (Some \<lparr>number = num, kind = k\<rparr>, d') \<and> br_remaining R d' = rest"
proof -
  obtain d1 where d1: "next_varint R d = Inr (tag_of num (kind_wire_type k), d1)"
      "br_remaining R d1 = kind_bytes k @ rest"
    using assms(3) next_varint_bytes [of d "tag_of num (kind_wire_type k)"]
    by (auto simp: field_bytes_def)
  obtain d2 where "next_kind R (kind_wire_type k) d1 = Inr (k, d2)" "br_remaining R d2 = rest"
    using next_kind_bytes [OF assms(2) d1(2)] by auto
  with d1 assms show ?thesis
    by (auto simp: next_field_def field_bytes_def drop_tag_of)
qed

end

section \<open>Independence of the reader\<close>

definition slice_res :: "'r bytes_read \<Rightarrow> 'e + 'a \<times> 'r \<Rightarrow> 'e + 'a \<times> byte list" where
  "slice_res R = map_sum (\<lambda>e. e) (\<lambda>(x, r). (x, br_remaining R r))"

lemma slice_res_simps [simp]:
  "slice_res R (Inl e) = Inl e"
  "slice_res R (Inr (x, r)) = Inr (x, br_remaining R r)"
  by (simp_all add: slice_res_def)

lemma slice_res_or_err: "slice_res R (or_err e m) = or_err e (on_slice R m)"
  by (cases m) auto

lemma slice_res_rbind:
  assumes "slice_res R m = m'"
    and "\<And>x d. slice_res R (f x d) = f' x (br_remaining R d)"
  shows "slice_res R (rbind m (\<lambda>(x, d). f x d)) = rbind m' (\<lambda>(x, bs). f' x bs)"
  using assms by (cases m) auto

context bytes_reader
begin

lemma next_varint_on_slice: "slice_res R (next_varint R d) = next_varint slice_reader (br_remaining R d)"
  by (simp add: next_varint_def slice_res_or_err varint_read_on_slice)

lemma next_kind_on_slice: "slice_res R (next_kind R ty d) = next_kind slice_reader ty (br_remaining R d)"
proof (cases ty)
  case WVarint
  show ?thesis
    unfolding next_kind_def WVarint wire_type.case
    by (rule slice_res_rbind [OF next_varint_on_slice]) simp
next
  case WI32
  show ?thesis
    unfolding next_kind_def WI32 wire_type.case
    by (rule slice_res_rbind) (simp_all add: slice_res_or_err le_u32_on_slice)
next
  case WI64
  show ?thesis
    unfolding next_kind_def WI64 wire_type.case
    by (rule slice_res_rbind) (simp_all add: slice_res_or_err le_u64_on_slice)
next
  case WLen
  show ?thesis
    unfolding next_kind_def WLen wire_type.case
    by (rule slice_res_rbind [OF next_varint_on_slice], rule slice_res_rbind)
      (simp_all add: slice_res_or_err ref_on_slice)
qed

lemma next_field_on_slice: "slice_res R (next_field R d) = next_field slice_reader (br_remaining R d)"
proof (cases "br_remaining R d = []")
  case True
  then show ?thesis by (simp add: next_field_def)
next
  case False
  show ?thesis
    unfolding next_field_def if_not_P [OF False] slice_remaining
  proof (rule slice_res_rbind [OF next_varint_on_slice])
    fix tag d1
    show "slice_res R (rbind (from_tag tag) (\<lambda>wtype. rbind (next_kind R wtype d1)
        (\<lambda>(k, d2). Inr (Some \<lparr>number = drop_bit 3 tag, kind = k\<rparr>, d2))))
      = rbind (from_tag tag) (\<lambda>wtype. rbind (next_kind slice_reader wtype (br_remaining R d1))
        (\<lambda>(k, d2). Inr (Some \<lparr>number = drop_bit 3 tag, kind = k\<rparr>, d2)))"
      by (cases "from_tag tag") (simp_all add: slice_res_rbind [OF next_kind_on_slice])
  qed
qed

lemma maybe_next_kind_on_slice:
  "slice_res R (maybe_next_kind R ty d) = maybe_next_kind slice_reader ty (br_remaining R d)"
  by (simp add: maybe_next_kind_def slice_res_rbind [OF next_kind_on_slice])

end

section \<open>Progress\<close>

lemma slice_next_kind_shorter:
  "next_kind slice_reader ty bs = Inr (k, bs') \<Longrightarrow> length bs' < length bs"
  by (cases ty)
    (fastforce simp: next_kind_def next_varint_def rbind_eq_Inr slice_reader_def
      dest: slice_varint_shorter [unfolded slice_reader_def] split: if_splits)+

lemma slice_next_field_shorter:
  "next_field slice_reader bs = Inr (Some f, bs') \<Longrightarrow> length bs' < length bs"
  by (fastforce simp: next_field_def next_varint_def rbind_eq_Inr
      dest: slice_varint_shorter slice_next_kind_shorter split: if_splits)

lemma slice_maybe_next_kind_shorter:
  "maybe_next_kind slice_reader ty bs = Inr (Some k, bs') \<Longrightarrow> length bs' < length bs"
  by (auto simp: maybe_next_kind_def rbind_eq_Inr dest: slice_next_kind_shorter split: if_splits)

end
