(* ===== verification/Field_Loops.thy ===== *)
theory Field_Loops
  imports Wire
begin

text \<open>
  The loops every \<open>DecodeMessage::merge\<close> of \<open>protopuffer\<close> runs over a decoder:
  \<open>while let Some(field) = parser.next()?\<close> and, for packed values,
  \<open>while let Some(k) = parser.maybe_next_kind(ty)?\<close>, each followed by \<open>parser.finish()\<close>.
  They stop only because a read takes bytes off the reader, which is the reader's
  promise; so they are partial functions, and the lemmas show that with any lawful
  reader they return what folding the body over the fields of the bytes gives.
\<close>

section \<open>The loops\<close>

partial_function (option) fields_loop ::
    "'r bytes_read \<Rightarrow> ('s \<Rightarrow> field \<Rightarrow> (decode_error + 's) option) \<Rightarrow> 's \<Rightarrow> 'r
       \<Rightarrow> (decode_error + 's \<times> 'r) option" where
  "fields_loop R body s d =
     tbind (Some (next_field R d)) (\<lambda>fd.
       case fst fd of
         None \<Rightarrow> Some (Inr (s, snd fd))
       | Some f \<Rightarrow> tbind (body s f) (\<lambda>s'. fields_loop R body s' (snd fd)))"

partial_function (option) kinds_loop ::
    "'r bytes_read \<Rightarrow> wire_type \<Rightarrow> ('s \<Rightarrow> field_kind \<Rightarrow> (decode_error + 's) option) \<Rightarrow> 's \<Rightarrow> 'r
       \<Rightarrow> (decode_error + 's \<times> 'r) option" where
  "kinds_loop R ty body s d =
     tbind (Some (maybe_next_kind R ty d)) (\<lambda>kd.
       case fst kd of
         None \<Rightarrow> Some (Inr (s, snd kd))
       | Some k \<Rightarrow> tbind (body s k) (\<lambda>s'. kinds_loop R ty body s' (snd kd)))"

text \<open>\<open>MessageDecoder::try_from_kind(kind)?\<close>, the loop, \<open>parser.finish()\<close>.\<close>

definition decode_fields ::
    "'r bytes_read \<Rightarrow> ('s \<Rightarrow> field \<Rightarrow> (decode_error + 's) option) \<Rightarrow> 's \<Rightarrow> field_kind
       \<Rightarrow> (decode_error + 's) option" where
  "decode_fields R body s k =
     tbind (Some (try_from_kind R k)) (\<lambda>parser.
       tbind (fields_loop R body s parser) (\<lambda>(s', parser').
         tbind (Some (finish R parser')) (\<lambda>_. Some (Inr s'))))"

definition decode_packed ::
    "'r bytes_read \<Rightarrow> wire_type \<Rightarrow> ('s \<Rightarrow> field_kind \<Rightarrow> (decode_error + 's) option) \<Rightarrow> 's \<Rightarrow> field_kind
       \<Rightarrow> (decode_error + 's) option" where
  "decode_packed R ty body s k =
     tbind (Some (try_from_kind R k)) (\<lambda>parser.
       tbind (kinds_loop R ty body s parser) (\<lambda>(s', parser').
         tbind (Some (finish R parser')) (\<lambda>_. Some (Inr s'))))"

section \<open>The fields of a byte string\<close>

text \<open>
  The fields that can be read from the front, and the error that stops the reading, if
  one does.
\<close>

function fields_of :: "byte list \<Rightarrow> field list \<times> decode_error option" where
  "fields_of bs =
     (case next_field slice_reader bs of
        Inl e \<Rightarrow> ([], Some e)
      | Inr (None, bs') \<Rightarrow> ([], None)
      | Inr (Some f, bs') \<Rightarrow> (case fields_of bs' of (fs, e) \<Rightarrow> (f # fs, e)))"
  by pat_completeness auto
termination
  by (relation "measure length") (auto dest: slice_next_field_shorter)

function kinds_of :: "wire_type \<Rightarrow> byte list \<Rightarrow> field_kind list \<times> decode_error option" where
  "kinds_of ty bs =
     (case maybe_next_kind slice_reader ty bs of
        Inl e \<Rightarrow> ([], Some e)
      | Inr (None, bs') \<Rightarrow> ([], None)
      | Inr (Some k, bs') \<Rightarrow> (case kinds_of ty bs' of (ks, e) \<Rightarrow> (k # ks, e)))"
  by pat_completeness auto
termination
  by (relation "measure (length \<circ> snd)") (auto dest: slice_maybe_next_kind_shorter)

declare fields_of.simps [simp del] kinds_of.simps [simp del]

lemma fields_of_Nil [simp]: "fields_of [] = ([], None)"
  by (simp add: fields_of.simps [of "[]"] next_field_def)

lemma kinds_of_Nil [simp]: "kinds_of ty [] = ([], None)"
  by (simp add: kinds_of.simps [of ty "[]"] maybe_next_kind_def)

lemma fields_of_field_bytes [simp]:
  assumes "num_ok num" and "kind_ok k"
  shows "fields_of (field_bytes num k @ bs)
     = (\<lparr>number = num, kind = k\<rparr> # fst (fields_of bs), snd (fields_of bs))"
  using slice.next_field_bytes [OF assms, of "field_bytes num k @ bs" bs]
  by (simp add: fields_of.simps [of "field_bytes num k @ bs"] split: prod.split)

lemma kind_bytes_not_Nil [simp]: "kind_bytes k \<noteq> []"
  by (cases k) simp_all

lemma kinds_of_kind_bytes [simp]:
  assumes "kind_ok k" and "kind_wire_type k = ty"
  shows "kinds_of ty (kind_bytes k @ bs) = (k # fst (kinds_of ty bs), snd (kinds_of ty bs))"
  using slice.next_kind_bytes [OF assms(1), of "kind_bytes k @ bs" bs] assms(2)
  by (simp add: kinds_of.simps [of ty "kind_bytes k @ bs"] maybe_next_kind_def split: prod.split)

definition with_number :: "u64 \<Rightarrow> field_kind \<Rightarrow> field" where
  "with_number num k = \<lparr>number = num, kind = k\<rparr>"

lemma with_number_simps [simp]:
  "number (with_number num k) = num" "kind (with_number num k) = k"
  by (simp_all add: with_number_def)

lemma fields_of_concat:
  assumes "num_ok num" and "list_all kind_ok ks"
  shows "fields_of (concat (map (field_bytes num) ks) @ bs)
     = (map (with_number num) ks @ fst (fields_of bs), snd (fields_of bs))"
  using assms by (induction ks) (simp_all add: with_number_def)

lemma kinds_of_concat:
  assumes "list_all kind_ok ks" and "\<forall>k \<in> set ks. kind_wire_type k = ty"
  shows "kinds_of ty (concat (map kind_bytes ks)) = (ks, None)"
  using assms by (induction ks) simp_all

definition bytes_of_field :: "field \<Rightarrow> byte list" where
  "bytes_of_field f = field_bytes (number f) (kind f)"

definition field_ok :: "field \<Rightarrow> bool" where
  "field_ok f \<longleftrightarrow> num_ok (number f) \<and> kind_ok (kind f)"

lemma fields_of_bytes: "list_all field_ok fs \<Longrightarrow> fields_of (concat (map bytes_of_field fs)) = (fs, None)"
  by (induction fs) (simp_all add: bytes_of_field_def field_ok_def)

lemma bytes_of_with_number [simp]: "bytes_of_field (with_number n k) = field_bytes n k"
  by (simp add: bytes_of_field_def)

section \<open>The loops fold their body\<close>

fun tfold :: "('s \<Rightarrow> 'b \<Rightarrow> ('e + 's) option) \<Rightarrow> 's \<Rightarrow> 'b list \<Rightarrow> ('e + 's) option" where
  "tfold f s [] = Some (Inr s)"
| "tfold f s (x # xs) = tbind (f s x) (\<lambda>s'. tfold f s' xs)"

lemma tfold_append: "tfold f s (xs @ ys) = tbind (tfold f s xs) (\<lambda>s'. tfold f s' ys)"
  by (induction xs arbitrary: s) simp_all

lemma tfold_None:
  assumes "\<And>s x. f s x \<noteq> None"
  shows "tfold f s xs \<noteq> None"
  using assms by (induction xs arbitrary: s) (simp_all add: tbind_eq_None)

definition then_stop :: "('e + 's) option \<Rightarrow> 'e option \<Rightarrow> ('e + 's) option" where
  "then_stop m e = tbind m (\<lambda>s. case e of None \<Rightarrow> Some (Inr s) | Some err \<Rightarrow> Some (Inl err))"

lemma then_stop_None [simp]: "then_stop m None = m"
  by (cases m) (auto simp: then_stop_def tbind_def split: sum.splits)

lemma then_stop_total: "m \<noteq> None \<Longrightarrow> then_stop m e \<noteq> None"
  by (auto simp: then_stop_def tbind_eq_None split: option.splits)

context bytes_reader
begin

lemma fields_loop_fold:
  "tbind (fields_loop R body s d) (\<lambda>(s', d'). tbind (Some (finish R d')) (\<lambda>_. Some (Inr s')))
     = then_stop (tfold body s (fst (fields_of (br_remaining R d)))) (snd (fields_of (br_remaining R d)))"
proof (induction "length (br_remaining R d)" arbitrary: s d rule: less_induct)
  case less
  have slice: "next_field slice_reader (br_remaining R d) = slice_res R (next_field R d)"
    by (simp add: next_field_on_slice)
  show ?case
  proof (cases "next_field R d")
    case (Inl e)
    with slice show ?thesis
      by (simp add: fields_loop.simps [of R body s d] fields_of.simps [of "br_remaining R d"] then_stop_def)
  next
    case (Inr fd)
    then obtain f d' where fd: "next_field R d = Inr (f, d')"
      by (cases fd) simp
    show ?thesis
    proof (cases f)
      case None
      with fd have "br_remaining R d' = []"
        by (auto simp: next_field_def rbind_eq_Inr split: if_splits)
      with None fd slice show ?thesis
        by (simp add: fields_loop.simps [of R body s d] fields_of.simps [of "br_remaining R d"]
            finish_def)
    next
      case (Some fl)
      with fd slice have shorter: "length (br_remaining R d') < length (br_remaining R d)"
        by (auto intro: slice_next_field_shorter)
      with Some fd slice less [OF shorter] show ?thesis
        by (auto simp: fields_loop.simps [of R body s d] fields_of.simps [of "br_remaining R d"]
            then_stop_def split: prod.split)
    qed
  qed
qed

lemma kinds_loop_fold:
  "tbind (kinds_loop R ty body s d) (\<lambda>(s', d'). tbind (Some (finish R d')) (\<lambda>_. Some (Inr s')))
     = then_stop (tfold body s (fst (kinds_of ty (br_remaining R d)))) (snd (kinds_of ty (br_remaining R d)))"
proof (induction "length (br_remaining R d)" arbitrary: s d rule: less_induct)
  case less
  have slice: "maybe_next_kind slice_reader ty (br_remaining R d) = slice_res R (maybe_next_kind R ty d)"
    by (simp add: maybe_next_kind_on_slice)
  show ?case
  proof (cases "maybe_next_kind R ty d")
    case (Inl e)
    with slice show ?thesis
      by (simp add: kinds_loop.simps [of R ty body s d] kinds_of.simps [of ty "br_remaining R d"] then_stop_def)
  next
    case (Inr kd)
    then obtain k d' where kd: "maybe_next_kind R ty d = Inr (k, d')"
      by (cases kd) simp
    show ?thesis
    proof (cases k)
      case None
      with kd have "br_remaining R d' = []"
        by (auto simp: maybe_next_kind_def rbind_eq_Inr split: if_splits)
      with None kd slice show ?thesis
        by (simp add: kinds_loop.simps [of R ty body s d] kinds_of.simps [of ty "br_remaining R d"]
            finish_def)
    next
      case (Some k')
      with kd slice have shorter: "length (br_remaining R d') < length (br_remaining R d)"
        by (auto intro: slice_maybe_next_kind_shorter)
      with Some kd slice less [OF shorter] show ?thesis
        by (auto simp: kinds_loop.simps [of R ty body s d] kinds_of.simps [of ty "br_remaining R d"]
            then_stop_def split: prod.split)
    qed
  qed
qed

text \<open>The two facts the decoders below rest on.\<close>

lemma decode_fields_fold [codec_simps]:
  "decode_fields R body s (KLen bs) = then_stop (tfold body s (fst (fields_of bs))) (snd (fields_of bs))"
  using fields_loop_fold [of body s "br_from R bs"]
  by (simp add: decode_fields_def try_from_kind_def decoder_new_def remaining_from)

lemma decode_packed_fold [codec_simps]:
  "decode_packed R ty body s (KLen bs)
     = then_stop (tfold body s (fst (kinds_of ty bs))) (snd (kinds_of ty bs))"
  using kinds_loop_fold [of ty body s "br_from R bs"]
  by (simp add: decode_packed_def try_from_kind_def decoder_new_def remaining_from)

lemma decode_fields_total:
  "(\<And>s f. body s f \<noteq> None) \<Longrightarrow> decode_fields R body s k \<noteq> None"
proof (cases k)
  case (KLen bs)
  assume "\<And>s f. body s f \<noteq> None"
  then show ?thesis
    unfolding KLen decode_fields_fold by (intro then_stop_total tfold_None)
qed (simp_all add: decode_fields_def try_from_kind_def)

lemma decode_packed_total:
  "(\<And>s f. body s f \<noteq> None) \<Longrightarrow> decode_packed R ty body s k \<noteq> None"
proof (cases k)
  case (KLen bs)
  assume "\<And>s f. body s f \<noteq> None"
  then show ?thesis
    unfolding KLen decode_packed_fold by (intro then_stop_total tfold_None)
qed (simp_all add: decode_packed_def try_from_kind_def)

end

lemma decode_fields_not_len [simp]: "\<not> is_len k \<Longrightarrow> decode_fields R body s k = Some (Inl ExpectedLenWireType)"
  by (cases k) (simp_all add: decode_fields_def try_from_kind_def)

end
