(* ===== verification/Encoder.thy ===== *)
theory Encoder
  imports Field_Loops
begin

unbundle bit_operations_syntax

text \<open>
  \<open>MessageEncoder\<close>, \<open>SizeBuilder\<close> and \<open>FieldOpt\<close> of \<open>protopuffer/src/encode.rs\<close>. An encoder is
  its inner writer; a size builder is its \<open>u64\<close> counter, whose additions wrap.
\<close>

section \<open>The code\<close>

datatype encode_error = BufferExausted | OtherEncodeError string

record field_opt =
  num :: u64
  is_nested :: bool

definition field_opt_new :: "u64 \<Rightarrow> field_opt" where
  "field_opt_new n = \<lparr>num = n, is_nested = False\<rparr>"

subsection \<open>\<open>MessageEncoder\<close>\<close>

definition write_tag :: "'w bytes_write \<Rightarrow> u64 \<Rightarrow> wire_type \<Rightarrow> 'w \<Rightarrow> encode_error + 'w" where
  "write_tag W fieldnum wtype w =
     (let tag = push_bit 3 fieldnum;
          tag' = tag OR ucast (as_num wtype)
      in or_err BufferExausted (varint_write W tag' w))"

definition write_len :: "'w bytes_write \<Rightarrow> u64 \<Rightarrow> 'w \<Rightarrow> encode_error + 'w" where
  "write_len W len w = or_err BufferExausted (varint_write W len w)"

definition write_bytes :: "'w bytes_write \<Rightarrow> byte list \<Rightarrow> 'w \<Rightarrow> encode_error + 'w" where
  "write_bytes W bs w = or_err BufferExausted (bw_try_write W w bs)"

definition written_len :: "'w bytes_write \<Rightarrow> 'w \<Rightarrow> u64" where
  "written_len W w = of_nat (length (bw_as_bytes W w))"

definition write_varint :: "'w bytes_write \<Rightarrow> u64 \<Rightarrow> 'w \<Rightarrow> encode_error + 'w" where
  "write_varint W val w = or_err BufferExausted (varint_write W val w)"

definition write_i32 :: "'w bytes_write \<Rightarrow> u32 \<Rightarrow> 'w \<Rightarrow> encode_error + 'w" where
  "write_i32 W val w = or_err BufferExausted (bw_try_write_le_u32 W w val)"

definition write_i64 :: "'w bytes_write \<Rightarrow> u64 \<Rightarrow> 'w \<Rightarrow> encode_error + 'w" where
  "write_i64 W val w = or_err BufferExausted (bw_try_write_le_u64 W w val)"

definition write_empty_field :: "'w bytes_write \<Rightarrow> u64 \<Rightarrow> 'w \<Rightarrow> encode_error + 'w" where
  "write_empty_field W fieldnum w =
     rbind (write_tag W fieldnum WLen w) (\<lambda>w'. write_len W 0 w')"

subsection \<open>\<open>SizeBuilder\<close>\<close>

type_synonym size_builder = u64

definition size_write_tag :: "u64 \<Rightarrow> wire_type \<Rightarrow> size_builder \<Rightarrow> size_builder" where
  "size_write_tag fieldnum wtype b = b + varint_size (push_bit 3 fieldnum)"

definition size_write_varint :: "u64 \<Rightarrow> size_builder \<Rightarrow> size_builder" where
  "size_write_varint val b = b + varint_size val"

definition size_write_len :: "u64 \<Rightarrow> size_builder \<Rightarrow> size_builder" where
  "size_write_len len b = size_write_varint len b"

definition size_write_i32 :: "u32 \<Rightarrow> size_builder \<Rightarrow> size_builder" where
  "size_write_i32 val b = b + 4"

definition size_write_i64 :: "u64 \<Rightarrow> size_builder \<Rightarrow> size_builder" where
  "size_write_i64 val b = b + 8"

definition size_write_bytes :: "u64 \<Rightarrow> size_builder \<Rightarrow> size_builder" where
  "size_write_bytes len b = b + len"

definition size_write_empty_field :: "u64 \<Rightarrow> size_builder \<Rightarrow> size_builder" where
  "size_write_empty_field fieldnum b = size_write_len 0 (size_write_tag fieldnum WLen b)"

section \<open>What is written\<close>

text \<open>
  \<open>wrote W room w bs r\<close>: the operation with result \<open>r\<close> wrote exactly \<open>bs\<close> behind what \<open>w\<close>
  held, or it failed with \<open>BufferExausted\<close> because \<open>bs\<close> does not fit.
\<close>

definition wrote ::
    "'w bytes_write \<Rightarrow> ('w \<Rightarrow> enat) \<Rightarrow> 'w \<Rightarrow> byte list \<Rightarrow> encode_error + 'w \<Rightarrow> bool" where
  "wrote W room w bs r \<longleftrightarrow>
     (case r of
        Inl e \<Rightarrow> e = BufferExausted \<and> room w < enat (length bs)
      | Inr w' \<Rightarrow> enat (length bs) \<le> room w \<and> bw_as_bytes W w' = bw_as_bytes W w @ bs
          \<and> room w' = room w - enat (length bs))"

lemma wrote_or_err: "appends W room w bs m \<Longrightarrow> wrote W room w bs (or_err BufferExausted m)"
  by (cases m) (simp_all add: wrote_def appends_def)

lemma wrote_Nil [simp]: "wrote W room w [] (Inr w)"
  by (cases "room w") (simp_all add: wrote_def zero_enat_def [symmetric])

lemma wrote_bind:
  assumes "wrote W room w as m"
    and "\<And>w'. m = Inr w' \<Longrightarrow> wrote W room w' bs (f w')"
  shows "wrote W room w (as @ bs) (rbind m f)"
proof (cases m)
  case (Inl e)
  with assms(1) show ?thesis
    by (cases "room w") (auto simp: wrote_def)
next
  case (Inr w')
  with assms(1) have m: "enat (length as) \<le> room w" "bw_as_bytes W w' = bw_as_bytes W w @ as"
      "room w' = room w - enat (length as)"
    by (auto simp: wrote_def)
  have "wrote W room w' bs (f w')"
    using assms(2) Inr by simp
  with m Inr show ?thesis
    by (cases "room w") (auto simp: wrote_def split: sum.splits)
qed

lemma wrote_bindI:
  assumes "wrote W room w as m" and "bs = as @ cs"
    and "\<And>w'. m = Inr w' \<Longrightarrow> wrote W room w' cs (f w')"
  shows "wrote W room w bs (rbind m f)"
  using wrote_bind [OF assms(1,3)] assms(2) by simp

lemma wrote_Inr:
  "wrote W room w bs (Inr w') \<Longrightarrow> bw_as_bytes W w' = bw_as_bytes W w @ bs"
  by (simp add: wrote_def)

text \<open>The length that a \<open>debug_assert\<close> of the encoders compares with the computed size.\<close>

lemma wrote_written_len:
  "wrote W room w bs (Inr w') \<Longrightarrow> written_len W w' - written_len W w = of_nat (length bs)"
  by (simp add: wrote_def written_len_def)

context bytes_writer
begin

lemma write_tag_wrote: "wrote W room w (varint_bytes (tag_of n t)) (write_tag W n t w)"
  by (simp add: write_tag_def tag_of_def Let_def wrote_or_err varint_write_appends)

lemma write_len_wrote: "wrote W room w (varint_bytes n) (write_len W n w)"
  by (simp add: write_len_def wrote_or_err varint_write_appends)

lemma write_varint_wrote: "wrote W room w (varint_bytes n) (write_varint W n w)"
  by (simp add: write_varint_def wrote_or_err varint_write_appends)

lemma write_bytes_wrote: "wrote W room w bs (write_bytes W bs w)"
  by (simp add: write_bytes_def wrote_or_err write_slice)

lemma write_i32_wrote: "wrote W room w (le_bytes 4 v) (write_i32 W v w)"
  unfolding write_i32_def by (rule wrote_or_err) (rule write_le_u32)

lemma write_i64_wrote: "wrote W room w (le_bytes 8 v) (write_i64 W v w)"
  unfolding write_i64_def by (rule wrote_or_err) (rule write_le_u64)

lemma write_empty_field_wrote: "wrote W room w (field_bytes n (KLen [])) (write_empty_field W n w)"
  unfolding write_empty_field_def
  by (rule wrote_bindI [OF write_tag_wrote _ write_len_wrote]) (simp add: field_bytes_def)

lemmas encoder_wrote =
  write_tag_wrote write_len_wrote write_varint_wrote write_bytes_wrote
  write_i32_wrote write_i64_wrote write_empty_field_wrote

end

section \<open>Sizes are lengths\<close>

lemma digits128_div: "a div 128 = b div 128 \<Longrightarrow> digits128 a = digits128 b"
  by (simp add: digits128.simps [of a] digits128.simps [of b] flip: div_eq_0_iff [of _ 128, simplified])

lemma drop7_tag_of: "drop_bit 7 (tag_of n t) = drop_bit 7 (push_bit 3 n)"
proof (rule bit_word_eqI)
  fix i
  have "\<not> bit (as_num t) (7 + i)"
    by (cases t) (auto simp: bit_simps numeral_eq_Suc)
  then show "bit (drop_bit 7 (tag_of n t)) i \<longleftrightarrow> bit (drop_bit 7 (push_bit 3 n)) i"
    by (auto simp: tag_of_def bit_simps)
qed

text \<open>
  The size builder leaves the wire type out of the tag it measures; that does not change
  the number of digits.
\<close>

lemma size_tag: "size_write_tag n t b = b + of_nat (length (varint_bytes (tag_of n t)))"
proof -
  have "unat (drop_bit 7 (tag_of n t)) = unat (drop_bit 7 (push_bit 3 n))"
    by (simp only: drop7_tag_of)
  then have "digits128 (unat (tag_of n t)) = digits128 (unat (push_bit 3 n))"
    unfolding unat_drop7 by (rule digits128_div)
  then show ?thesis
    by (simp add: size_write_tag_def varint_size_bytes length_varint_bytes)
qed

lemma encoder_sizes [codec_simps]:
  "size_write_tag n t b = b + of_nat (length (varint_bytes (tag_of n t)))"
  "size_write_len v b = b + of_nat (length (varint_bytes v))"
  "size_write_varint v b = b + of_nat (length (varint_bytes v))"
  "size_write_i32 x b = b + of_nat (length (le_bytes 4 x))"
  "size_write_i64 v b = b + of_nat (length (le_bytes 8 v))"
  "size_write_bytes v b = b + v"
  "size_write_empty_field n b = b + of_nat (length (field_bytes n (KLen [])))"
  by (simp_all add: size_tag size_write_len_def size_write_varint_def size_write_i32_def
      size_write_i64_def size_write_bytes_def size_write_empty_field_def varint_size_bytes
      field_bytes_def)

end
