(* ===== verification/Codec.thy ===== *)
theory Codec
  imports Encoder
begin

text \<open>
  The traits \<open>EncodeMessage\<close> and \<open>DecodeMessage\<close> of \<open>protopuffer\<close>, as records of their
  constants and methods, and the contract between the two: what an encoder writes, and
  that the decoder reads it back. \<open>&mut self\<close> of the encoding methods is not changed by any
  implementation in the repository, so they take the value only; \<open>merge\<close> returns the merged
  value.
\<close>

section \<open>The traits\<close>

record ('a, 'w) encode_message =
  em_wire_type :: wire_type
  em_is_default :: "'a \<Rightarrow> bool"
  em_encoded_size :: "'a \<Rightarrow> field_opt option \<Rightarrow> size_builder \<Rightarrow> encode_error + size_builder"
  em_encode :: "'a \<Rightarrow> field_opt option \<Rightarrow> 'w \<Rightarrow> encode_error + 'w"

record 'a decode_message =
  dm_wire_type :: wire_type
  dm_decode_default :: 'a
  dm_merge :: "'a \<Rightarrow> field_kind \<Rightarrow> bool \<Rightarrow> (decode_error + 'a) option"

text \<open>The provided methods of the traits and the functions of the crate's root.\<close>

definition write_to_bytes :: "'w bytes_write \<Rightarrow> ('a, 'w) encode_message \<Rightarrow> 'a \<Rightarrow> encode_error + byte list" where
  "write_to_bytes W E x = rbind (em_encode E x None (bw_new W)) (\<lambda>encoder. Inr (bw_as_bytes W encoder))"

definition parse_from_bytes :: "'a decode_message \<Rightarrow> byte list \<Rightarrow> (decode_error + 'a) option" where
  "parse_from_bytes D b = tbind (dm_merge D (dm_decode_default D) (KLen b) False) (\<lambda>this. Some (Inr this))"

definition from_slice :: "'a decode_message \<Rightarrow> byte list \<Rightarrow> (decode_error + 'a) option" where
  "from_slice D bs = parse_from_bytes D bs"

definition to_vec :: "'w bytes_write \<Rightarrow> ('a, 'w) encode_message \<Rightarrow> 'a \<Rightarrow> encode_error + byte list" where
  "to_vec W E msg = write_to_bytes W E msg"

definition to_bytes_writer :: "('a, 'w) encode_message \<Rightarrow> 'a \<Rightarrow> 'w \<Rightarrow> encode_error + 'w" where
  "to_bytes_writer E msg w = em_encode E msg None w"

section \<open>What an encoder writes\<close>

text \<open>
  A value has two encodings: \<open>flds x\<close>, the kinds of the fields it becomes where its number
  may repeat, and \<open>nkind x\<close>, the kind of the one field it becomes where it may not
  (\<open>is_nested\<close>). Without a number, only the inside of that one field is written.
\<close>

fun body_of :: "field_kind \<Rightarrow> byte list" where
  "body_of (KLen bs) = bs"
| "body_of k = kind_bytes k"

definition enc_bytes ::
    "('a \<Rightarrow> field_kind list) \<Rightarrow> ('a \<Rightarrow> field_kind) \<Rightarrow> 'a \<Rightarrow> field_opt option \<Rightarrow> byte list" where
  "enc_bytes flds nkind x field =
     (case field of
        None \<Rightarrow> body_of (nkind x)
      | Some f \<Rightarrow> if is_nested f then field_bytes (num f) (nkind x)
          else concat (map (field_bytes (num f)) (flds x)))"

lemma enc_bytes_simps [simp]:
  "enc_bytes flds nkind x None = body_of (nkind x)"
  "enc_bytes flds nkind x (Some \<lparr>num = n, is_nested = True\<rparr>) = field_bytes n (nkind x)"
  "enc_bytes flds nkind x (Some (field_opt_new n)) = concat (map (field_bytes n) (flds x))"
  by (simp_all add: enc_bytes_def field_opt_new_def)

lemma body_of_not_len: "kind_wire_type k \<noteq> WLen \<Longrightarrow> body_of k = kind_bytes k"
  by (cases k) simp_all

lemma body_of_len: "kind_wire_type k = WLen \<Longrightarrow> k = KLen (body_of k)"
  by (cases k) simp_all

lemma is_len_wire_type [simp]: "is_len k \<longleftrightarrow> kind_wire_type k = WLen"
  by (cases k) simp_all

locale encodes = bytes_writer W room for W :: "'w bytes_write" and room +
  fixes E :: "('a, 'w) encode_message"
    and flds :: "'a \<Rightarrow> field_kind list"
    and nkind :: "'a \<Rightarrow> field_kind"
  assumes size_law: "em_encoded_size E x field b = Inr (b + of_nat (length (enc_bytes flds nkind x field)))"
    and encode_law: "wrote W room w (enc_bytes flds nkind x field) (em_encode E x field w)"
    and nkind_wire: "kind_wire_type (nkind x) = em_wire_type E"
begin

text \<open>
  The size that the code computes beforehand is the number of bytes it then writes: the
  \<open>debug_assert\<close>s of the encoders do not fire.
\<close>

lemma size_is_length:
  assumes "em_encode E x field w = Inr w'"
  shows "em_encoded_size E x field 0 = Inr (written_len W w' - written_len W w)"
  using encode_law [of w x field] assms wrote_written_len [of W room w _ w']
  by (simp add: size_law)

lemma encode_fits:
  "enat (length (enc_bytes flds nkind x field)) \<le> room w \<Longrightarrow> \<exists>w'. em_encode E x field w = Inr w'"
  using encode_law [of w x field] by (auto simp: wrote_def split: sum.splits)

lemma encode_no_room:
  "room w < enat (length (enc_bytes flds nkind x field)) \<Longrightarrow> em_encode E x field w = Inl BufferExausted"
  using encode_law [of w x field] by (auto simp: wrote_def split: sum.splits)

end

text \<open>Loops over elements.\<close>

lemma rfold_size:
  assumes "\<And>x b. x \<in> set xs \<Longrightarrow> f x b = Inr (b + of_nat (length (g x)))"
  shows "rfold f xs b = Inr (b + of_nat (length (concat (map g xs))))"
  using assms by (induction xs arbitrary: b) (simp_all add: add.assoc)

lemma rfold_wrote:
  assumes "\<And>x w. x \<in> set xs \<Longrightarrow> wrote W room w (g x) (f x w)"
  shows "wrote W room w (concat (map g xs)) (rfold f xs w)"
  using assms by (induction xs arbitrary: w) (simp_all add: wrote_bind)

section \<open>What a decoder reads back\<close>

text \<open>
  \<open>ok x\<close> are the values whose encoding is decoded to \<open>dec x\<close>: \<open>x\<close> itself, or the owned value
  for a borrowed \<open>x\<close>.
\<close>

locale decodes =
  fixes D :: "'b decode_message"
    and flds :: "'a \<Rightarrow> field_kind list"
    and nkind :: "'a \<Rightarrow> field_kind"
    and ok :: "'a \<Rightarrow> bool"
    and dec :: "'a \<Rightarrow> 'b"
  assumes total: "dm_merge D s k is_field \<noteq> None"
    and read_nested: "ok x \<Longrightarrow> dm_merge D (dm_decode_default D) (nkind x) False = Some (Inr (dec x))"
    and read_fields: "ok x \<Longrightarrow> tfold (\<lambda>s k. dm_merge D s k True) (dm_decode_default D) (flds x) = Some (Inr (dec x))"
    and nkind_ok: "ok x \<Longrightarrow> kind_ok (nkind x)"
    and flds_ok: "ok x \<Longrightarrow> list_all kind_ok (flds x)"

locale codec = encodes W room E flds nkind + decodes D flds nkind ok dec
  for W :: "'w bytes_write" and room and E :: "('a, 'w) encode_message"
    and D :: "'b decode_message" and flds nkind ok dec +
  assumes same_wire: "em_wire_type E = dm_wire_type D"
    and default_law: "ok x \<Longrightarrow> em_is_default E x \<Longrightarrow> dec x = dm_decode_default D"
begin

lemma parse_total: "parse_from_bytes D bs \<noteq> None"
  by (simp add: parse_from_bytes_def tbind_eq_None total)

lemma parse_nested:
  assumes "ok x" and "dm_wire_type D = WLen"
  shows "parse_from_bytes D (body_of (nkind x)) = Some (Inr (dec x))"
proof -
  have "KLen (body_of (nkind x)) = nkind x"
    using assms(2) by (intro body_of_len [symmetric]) (simp add: nkind_wire same_wire)
  then show ?thesis
    using read_nested [OF assms(1)] by (simp add: parse_from_bytes_def)
qed

end

text \<open>The round trip of a whole message through the growable buffer.\<close>

lemma codec_roundtrip:
  assumes c: "codec W room E D flds nkind ok dec" and o: "bytes_owned W room"
    and ok: "ok x" and wire: "dm_wire_type D = WLen"
  shows "\<exists>bs. write_to_bytes W E x = Inr bs \<and> parse_from_bytes D bs = Some (Inr (dec x))"
proof -
  have "wrote W room (bw_new W) (enc_bytes flds nkind x None) (em_encode E x None (bw_new W))"
    using c by (intro encodes.encode_law) (rule codec.axioms)
  moreover have "room (bw_new W) = \<infinity>" "bw_as_bytes W (bw_new W) = []"
    using o by (simp_all add: bytes_owned.grows bytes_owned.new_empty)
  ultimately obtain w' where "em_encode E x None (bw_new W) = Inr w'" "bw_as_bytes W w' = body_of (nkind x)"
    by (auto simp: wrote_def split: sum.splits)
  then show ?thesis
    using codec.parse_nested [OF c ok wire] by (simp add: write_to_bytes_def)
qed

end
