(* ===== verification/Requests.thy ===== *)
theory Requests
  imports Injection Message Codec
begin

text \<open>
  \<open>lafere-api\<close>: how values become messages (\<open>encdec.rs\<close>), how a request is made
  (\<open>client.rs\<close>, \<open>requestor.rs\<close>, \<open>server.rs\<close>), how it is handled (\<open>request_handlers.rs\<close>), and the
  handler that the macro \<open>api\<close> of \<open>lafere-api-codegen\<close> generates from a function.
\<close>

section \<open>Asynchronous functions\<close>

text \<open>
  A function that acts on the world \<open>'w\<close>: it may not return (\<open>None\<close>), panic, or return.
\<close>

type_synonym ('a, 'w) task = "'w \<Rightarrow> ('a outcome \<times> 'w) option"

definition task_return :: "'a \<Rightarrow> ('a, 'w) task" where
  "task_return x w = Some (Returned x, w)"

definition task_panic :: "string \<Rightarrow> ('a, 'w) task" where
  "task_panic msg w = Some (Panic msg, w)"

definition task_of :: "'a option \<Rightarrow> ('a, 'w) task" where
  "task_of x w = map_option (\<lambda>x. (Returned x, w)) x"

definition task_then :: "('a, 'w) task \<Rightarrow> ('a \<Rightarrow> ('b, 'w) task) \<Rightarrow> ('b, 'w) task" where
  "task_then m f w =
     (case m w of
        None \<Rightarrow> None
      | Some (Panic msg, w) \<Rightarrow> Some (Panic msg, w)
      | Some (Returned x, w) \<Rightarrow> f x w)"

text \<open>The \<open>?\<close> operator.\<close>

definition task_try :: "('e + 'a, 'w) task \<Rightarrow> ('a \<Rightarrow> ('e + 'b, 'w) task) \<Rightarrow> ('e + 'b, 'w) task" where
  "task_try m f = task_then m (\<lambda>r. case r of Inl e \<Rightarrow> task_return (Inl e) | Inr x \<Rightarrow> f x)"

lemma task_then_simps [simp]:
  "task_then (task_return x) f = f x"
  "task_then (task_panic msg) f = task_panic msg"
  "task_try (task_return (Inr x)) g = g x"
  "task_try (task_return (Inl e)) g = task_return (Inl e)"
  "task_of (Some x) = task_return x"
  by (simp_all add: task_then_def task_try_def task_return_def task_panic_def task_of_def fun_eq_iff)

lemma task_run:
  "m w = Some (Returned x, w') \<Longrightarrow> task_then m f w = f x w'"
  "m w = Some (Panic msg, w') \<Longrightarrow> task_then m f w = Some (Panic msg, w')"
  "t w = Some (Returned (Inr y), w') \<Longrightarrow> task_try t g w = g y w'"
  "t w = Some (Returned (Inl e), w') \<Longrightarrow> task_try t g w = Some (Returned (Inl e), w')"
  by (simp_all add: task_then_def task_try_def task_return_def)

section \<open>Values and messages\<close>

text \<open>\<open>serde_json\<close> is an argument where it is used; its errors are their text.\<close>

datatype message_error = Json string | EncodeError encode_error | DecodeError decode_error | Other string

datatype api_crate_error = MessageError message_error

text \<open>The traits \<open>IntoMessage\<close> and \<open>FromMessage\<close>, and \<open>ApiError\<close>.\<close>

record ('t, 'a, 'b) as_message =
  into_message :: "'t \<Rightarrow> message_error + ('a, 'b) message"
  from_message :: "('a, 'b) message \<Rightarrow> (message_error + 't) option"

record 'e api_error =
  from_request_error :: "request_error \<Rightarrow> 'e"
  from_message_error :: "message_error \<Rightarrow> 'e"

definition map_err :: "('e \<Rightarrow> 'f) \<Rightarrow> 'e + 'a \<Rightarrow> 'f + 'a" where
  "map_err f r = (case r of Inl e \<Rightarrow> Inl (f e) | Inr x \<Rightarrow> Inr x)"

lemma map_err_simps [simp]: "map_err f (Inl e) = Inl (f e)" "map_err f (Inr x) = Inr x"
  by (simp_all add: map_err_def)

text \<open>Module \<open>protobuf\<close> of \<open>encdec.rs\<close>; \<open>W\<close> is the empty body as a writer.\<close>

definition protobuf_encode ::
    "'m bytes_write \<Rightarrow> 'b packet_bytes \<Rightarrow> ('t, 'm) encode_message \<Rightarrow> 't \<Rightarrow> message_error + ('a, 'b) message" where
  "protobuf_encode W B E value =
     (let msg = message_empty B
      in map_err EncodeError (rbind (em_encode E value None (bw_new W)) (\<lambda>encoder.
           Inr (msg\<lparr>ms_bytes := pb_set_body B (bw_as_bytes W encoder) (ms_bytes msg)\<rparr>))))"

definition protobuf_decode ::
    "'b packet_bytes \<Rightarrow> 't decode_message \<Rightarrow> ('a, 'b) message \<Rightarrow> (message_error + 't) option" where
  "protobuf_decode B D msg = map_option (map_err DecodeError) (parse_from_bytes D (pb_body B (ms_bytes msg)))"

text \<open>What \<open>derive(IntoMessage, FromMessage)\<close> generates for \<open>message(protobuf)\<close>.\<close>

definition protobuf_message ::
    "'m bytes_write \<Rightarrow> 'b packet_bytes \<Rightarrow> ('t, 'm) encode_message \<Rightarrow> 't decode_message \<Rightarrow> ('t, 'a, 'b) as_message" where
  "protobuf_message W B E D =
     \<lparr>into_message = protobuf_encode W B E, from_message = protobuf_decode B D\<rparr>"

text \<open>Module \<open>json\<close>: \<open>to_writer\<close> and \<open>from_slice\<close> of \<open>serde_json\<close>.\<close>

definition json_encode ::
    "('t \<Rightarrow> string + byte list) \<Rightarrow> 'b packet_bytes \<Rightarrow> 't \<Rightarrow> message_error + ('a, 'b) message" where
  "json_encode to_writer B value =
     (let msg = message_empty B
      in map_err Json (rbind (to_writer value) (\<lambda>written.
           Inr (msg\<lparr>ms_bytes := pb_set_body B written (ms_bytes msg)\<rparr>))))"

definition json_decode ::
    "(byte list \<Rightarrow> string + 't) \<Rightarrow> 'b packet_bytes \<Rightarrow> ('a, 'b) message \<Rightarrow> message_error + 't" where
  "json_decode read_slice B msg = map_err Json (read_slice (pb_body B (ms_bytes msg)))"

section \<open>Making a request\<close>

definition message_set_action :: "'a \<Rightarrow> ('a, 'b) message \<Rightarrow> ('a, 'b) message" where
  "message_set_action a msg = msg\<lparr>ms_header := set_action a (ms_header msg)\<rparr>"

text \<open>The trait \<open>Request\<close> with the conversions of its types.\<close>

record ('r, 't, 'e, 'a, 'b) request =
  rq_action :: 'a
  rq_request :: "('r, 'a, 'b) as_message"
  rq_response :: "('t, 'a, 'b) as_message"
  rq_error :: "('e, 'a, 'b) as_message"
  rq_api_error :: "'e api_error"

text \<open>The end of the three functions \<open>request\<close>.\<close>

definition read_response ::
    "('r, 't, 'e, 'a, 'b) request \<Rightarrow> ('a, 'b) message \<Rightarrow> ('e + 't) option" where
  "read_response R res =
     (if message_is_success res
      then map_option (map_err (from_message_error (rq_api_error R))) (from_message (rq_response R) res)
      else map_option (\<lambda>r. case r of
             Inl m \<Rightarrow> Inl (from_message_error (rq_api_error R) m)
           | Inr e \<Rightarrow> Inl e) (from_message (rq_error R) res))"

text \<open>\<open>send\<close> is \<open>self.inner.request\<close> of the connection, with what is on the other side of it.\<close>

definition client_request ::
    "(('a, 'b) message \<Rightarrow> (request_error + ('a, 'b) message, 'w) task) \<Rightarrow> ('r, 't, 'e, 'a, 'b) request \<Rightarrow> 'r
      \<Rightarrow> ('e + 't, 'w) task" where
  "client_request send R r =
     task_try (task_return (map_err (from_message_error (rq_api_error R)) (into_message (rq_request R) r))) (\<lambda>msg.
       let msg = message_set_action (rq_action R) msg
       in task_try (task_then (send msg) (\<lambda>res. task_return (map_err (from_request_error (rq_api_error R)) res))) (\<lambda>res.
            task_of (read_response R res)))"

definition requestor_request ::
    "(('a, 'b) message \<Rightarrow> (request_error + ('a, 'b) message, 'w) task) \<Rightarrow> ('r, 't, 'e, 'a, 'b) request \<Rightarrow> 'r
      \<Rightarrow> ('e + 't, 'w) task" where
  "requestor_request send R r =
     task_try (task_return (map_err (from_message_error (rq_api_error R)) (into_message (rq_request R) r))) (\<lambda>msg.
       let msg = message_set_action (rq_action R) msg
       in task_try (task_then (send msg) (\<lambda>res. task_return (map_err (from_request_error (rq_api_error R)) res))) (\<lambda>res.
            task_of (read_response R res)))"

section \<open>Handling requests\<close>

record ('a, 'b, 'v, 'w) request_handler =
  rh_action :: 'a
  rh_validate :: "'v data \<Rightarrow> bool"
  rh_handle :: "('a, 'b) message \<Rightarrow> 'v data \<Rightarrow> 'v session \<Rightarrow> (api_crate_error + ('a, 'b) message, 'w) task"

text \<open>\<open>'q\<close> is the requestor that such a handler is given.\<close>

record ('q, 'v, 'w) enable_handler =
  eh_validate :: "'v data \<Rightarrow> bool"
  eh_handle :: "'q \<Rightarrow> 'v data \<Rightarrow> 'v session \<Rightarrow> (api_crate_error + unit, 'w) task"

record ('a, 'b, 'q, 'v, 'w) handlers =
  hr_inner :: "'a \<rightharpoonup> ('a, 'b, 'v, 'w) request_handler"
  hr_enable :: "('q, 'v, 'w) enable_handler option"
  hr_data :: "'v data"

definition handlers_new :: "('a, 'b, 'q, 'v, 'w) handlers" where
  "handlers_new = \<lparr>hr_inner = Map.empty, hr_enable = None, hr_data = data_new\<rparr>"

definition register_data :: "type_id \<Rightarrow> 'v \<Rightarrow> ('a, 'b, 'q, 'v, 'w) handlers \<Rightarrow> ('a, 'b, 'q, 'v, 'w) handlers" where
  "register_data D v self = self\<lparr>hr_data := data_insert D v (hr_data self)\<rparr>"

text \<open>\<open>validate_data\<close> asserts.\<close>

definition register_request ::
    "('a, 'b, 'v, 'w) request_handler \<Rightarrow> ('a, 'b, 'q, 'v, 'w) handlers \<Rightarrow> ('a, 'b, 'q, 'v, 'w) handlers outcome" where
  "register_request handler self =
     (if rh_validate handler (hr_data self)
      then Returned (self\<lparr>hr_inner := (hr_inner self)(rh_action handler \<mapsto> handler)\<rparr>)
      else Panic ''could not find'')"

definition register_enable_server_requests ::
    "('q, 'v, 'w) enable_handler \<Rightarrow> ('a, 'b, 'q, 'v, 'w) handlers \<Rightarrow> ('a, 'b, 'q, 'v, 'w) handlers outcome" where
  "register_enable_server_requests handler self =
     (if eh_validate handler (hr_data self) then Returned (self\<lparr>hr_enable := Some handler\<rparr>)
      else Panic ''could not find'')"

definition get_handler :: "'a \<Rightarrow> ('a, 'b, 'q, 'v, 'w) handlers \<Rightarrow> ('a, 'b, 'v, 'w) request_handler option" where
  "get_handler action self = hr_inner self action"

text \<open>
  One round of the loop of \<open>handle_connection\<close>: the task it spawns, if any. Its result is what is
  sent to the response's channel; without one the channel is dropped, and a panic ends only
  the task.
\<close>

datatype ('a, 'b) dispatched = RunRequest 'a "('a, 'b) message" chan | RunEnable | Skipped

definition dispatch :: "('a, 'b) message user_request \<Rightarrow> ('a, 'b) dispatched" where
  "dispatch req =
     (case req of
        Request msg resp \<Rightarrow>
          (case message_action msg of
             Some action \<Rightarrow> RunRequest action msg resp
           | None \<Rightarrow> Skipped)
      | EnableServerRequests \<Rightarrow> RunEnable
      | _ \<Rightarrow> Skipped)"

definition run_request ::
    "('a, 'b, 'q, 'v, 'w) handlers \<Rightarrow> 'v session \<Rightarrow> 'a \<Rightarrow> ('a, 'b) message \<Rightarrow> 'w
      \<Rightarrow> (('a, 'b) message option \<times> 'w) option" where
  "run_request self session action msg w =
     (case get_handler action self of
        None \<Rightarrow> Some (None, w)
      | Some handler \<Rightarrow>
          (case rh_handle handler msg (hr_data self) session w of
             None \<Rightarrow> None
           | Some (Panic _, w) \<Rightarrow> Some (None, w)
           | Some (Returned (Inr msg), w) \<Rightarrow> Some (Some (message_set_action action msg), w)
           | Some (Returned (Inl e), w) \<Rightarrow> Some (None, w)))"

definition run_enable ::
    "('a, 'b, 'q, 'v, 'w) handlers \<Rightarrow> 'v session \<Rightarrow> 'q \<Rightarrow> (unit, 'w) task" where
  "run_enable self session requestor =
     (case hr_enable self of
        None \<Rightarrow> task_return ()
      | Some handler \<Rightarrow> task_then (eh_handle handler requestor (hr_data self) session) (\<lambda>_. task_return ()))"

text \<open>What answers a request: the message in the response's channel, or none.\<close>

definition respond ::
    "('a, 'b, 'q, 'v, 'w) handlers \<Rightarrow> 'v session \<Rightarrow> ('a, 'b) message \<Rightarrow> 'w \<Rightarrow> (('a, 'b) message option \<times> 'w) option" where
  "respond self session msg w =
     (case dispatch (Request msg 0) of
        RunRequest action msg _ \<Rightarrow> run_request self session action msg w
      | _ \<Rightarrow> Some (None, w))"

text \<open>\<open>BuiltServer::request\<close>: the same without a connection.\<close>

definition built_request ::
    "('a, 'b, 'q, 'v, 'w) handlers \<Rightarrow> ('r, 't, 'e, 'a, 'b) request \<Rightarrow> 'r \<Rightarrow> 'v session \<Rightarrow> ('e + 't, 'w) task" where
  "built_request self R r session =
     task_try (task_return (map_err (from_message_error (rq_api_error R)) (into_message (rq_request R) r))) (\<lambda>msg.
       let msg = message_set_action (rq_action R) msg
       in case message_action msg of
            None \<Rightarrow> task_panic ''unwrap on None''
          | Some action \<Rightarrow>
              (case get_handler action self of
                 None \<Rightarrow> task_return (Inl (from_request_error (rq_api_error R) NoResponse))
               | Some handler \<Rightarrow>
                   task_then (rh_handle handler msg (hr_data self) session) (\<lambda>r. case r of
                     Inl e \<Rightarrow> task_return (Inl (from_request_error (rq_api_error R) NoResponse))
                   | Inr msg \<Rightarrow> task_of (read_response R (message_set_action action msg)))))"

section \<open>The generated handler\<close>

text \<open>\<open>handle_with_api_err\<close>; \<open>handler\<close> is the function under the macro.\<close>

definition handle_with_api_err ::
    "type_id \<Rightarrow> ('r, 't, 'e, 'a, 'b) request \<Rightarrow> param list \<Rightarrow> (('r, 'v) argument list \<Rightarrow> ('e + 't, 'w) task)
      \<Rightarrow> ('a, 'b) message \<Rightarrow> 'v data \<Rightarrow> 'v session \<Rightarrow> ('e + ('a, 'b) message, 'w) task" where
  "handle_with_api_err T R params handler msg data session =
     task_try (task_of (map_option (map_err (from_message_error (rq_api_error R))) (from_message (rq_request R) msg))) (\<lambda>req.
       case handler_args T data session params (dm_new req) of
         Panic msg \<Rightarrow> task_panic msg
       | Returned args \<Rightarrow> task_try (handler args) (\<lambda>resp.
           task_return (map_err (from_message_error (rq_api_error R)) (into_message (rq_response R) resp))))"

definition api_handle ::
    "type_id \<Rightarrow> ('r, 't, 'e, 'a, 'b) request \<Rightarrow> param list \<Rightarrow> (('r, 'v) argument list \<Rightarrow> ('e + 't, 'w) task)
      \<Rightarrow> ('a, 'b) message \<Rightarrow> 'v data \<Rightarrow> 'v session \<Rightarrow> (api_crate_error + ('a, 'b) message, 'w) task" where
  "api_handle T R params handler msg data session =
     task_then (handle_with_api_err T R params handler msg data session) (\<lambda>r. task_return (case r of
       Inr m \<Rightarrow> Inr m
     | Inl e \<Rightarrow> map_err MessageError (rbind (into_message (rq_error R) e) (\<lambda>msg. Inr (message_set_success False msg)))))"

definition api_handler ::
    "type_id \<Rightarrow> ('r, 't, 'e, 'a, 'b) request \<Rightarrow> param list \<Rightarrow> (('r, 'v) argument list \<Rightarrow> ('e + 't, 'w) task)
      \<Rightarrow> ('a, 'b, 'v, 'w) request_handler" where
  "api_handler T R params handler = \<lparr>
     rh_action = rq_action R,
     rh_validate = validate_data T params,
     rh_handle = api_handle T R params handler\<rparr>"

end
