(* ===== verification/Serving.thy ===== *)
theory Serving
  imports Requests Endpoints
begin

text \<open>
  How requests are taken from a connection: \<open>RequestHandlers::handle_connection\<close>
  (\<open>lafere-api/src/request_handlers.rs\<close>), the loop of a server (\<open>server.rs\<close>), and attaching handlers to a
  client (\<open>client.rs\<close>); and the handler that the macro \<open>enable_server_requests\<close> of
  \<open>lafere-api-codegen\<close> generates from a function.
\<close>

section \<open>Taking requests\<close>

text \<open>
  \<open>spawn\<close> starts the task of a request, \<open>skip\<close> drops a request and with it the ends of its channels.
  The loop ends when the connection has, or when its own task is dropped.
\<close>

partial_function (option) handle_connection ::
    "('st, ('a, 'b) message) channels \<Rightarrow> (('a, 'b) dispatched \<Rightarrow> 'st \<Rightarrow> 'st)
      \<Rightarrow> (('a, 'b) message user_request \<Rightarrow> 'st \<Rightarrow> 'st) \<Rightarrow> 'st \<Rightarrow> 'st option" where
  "handle_connection C spawn skip st =
     (case receiver_receive C st of
        (Ready (Some req), st) \<Rightarrow>
          (case dispatch req of
             Skipped \<Rightarrow> handle_connection C spawn skip (skip req st)
           | d \<Rightarrow> handle_connection C spawn skip (spawn d st))
      | (_, st) \<Rightarrow> Some st)"

text \<open>
  What the task of a request does: \<open>resp_send\<close> and \<open>resp_drop\<close> are the two ends of a oneshot channel.
\<close>

definition request_task ::
    "('a, 'b, 'q, 'v, 'w) handlers \<Rightarrow> 'v session \<Rightarrow> (chan \<Rightarrow> ('a, 'b) message \<Rightarrow> 'st \<Rightarrow> 'st) \<Rightarrow> (chan \<Rightarrow> 'st \<Rightarrow> 'st)
      \<Rightarrow> 'a \<Rightarrow> ('a, 'b) message \<Rightarrow> chan \<Rightarrow> 'w \<times> 'st \<Rightarrow> ('w \<times> 'st) option" where
  "request_task self session resp_send resp_drop action msg resp = (\<lambda>(w, st).
     case run_request self session action msg w of
       None \<Rightarrow> None
     | Some (Some msg, w) \<Rightarrow> Some (w, resp_send resp msg st)
     | Some (None, w) \<Rightarrow> Some (w, resp_drop resp st))"

section \<open>A server\<close>

text \<open>
  The task that \<open>run_raw\<close> spawns for a connection. \<open>take_receiver().unwrap()\<close> is in this task.
\<close>

definition connection_task ::
    "('st, ('a, 'b) message) channels \<Rightarrow> (('a, 'b) dispatched \<Rightarrow> 'st \<Rightarrow> 'st)
      \<Rightarrow> (('a, 'b) message user_request \<Rightarrow> 'st \<Rightarrow> 'st) \<Rightarrow> server_connection \<Rightarrow> 'st \<Rightarrow> 'st outcome option" where
  "connection_task C spawn skip con st =
     (case server_take_receiver con of
        (False, con) \<Rightarrow> Some (Panic ''unwrap on None'')
      | (True, con) \<Rightarrow> map_option Returned (handle_connection C spawn skip st))"

text \<open>
  \<open>accept\<close> is that of the listener, which may wait for ever, \<open>new_connection\<close> starts a connection and returns the value of its
  configurator, and \<open>spawn\<close> starts its task with its session.
\<close>

partial_function (option) run_raw ::
    "('w \<Rightarrow> ((io_error + 's \<times> string) \<times> 'w) option) \<Rightarrow> ('s \<Rightarrow> 'w \<Rightarrow> server_connection \<times> 'v \<times> 'w) \<Rightarrow> type_id
      \<Rightarrow> ('v session \<Rightarrow> server_connection \<Rightarrow> 'w \<Rightarrow> 'w) \<Rightarrow> 'w \<Rightarrow> (io_error \<times> 'w) option" where
  "run_raw accept new_connection D spawn w =
     (case accept w of
        None \<Rightarrow> None
      | Some (Inl e, w) \<Rightarrow> Some (e, w)
      | Some (Inr (stream, addr), w) \<Rightarrow>
          (case new_connection stream w of
             (con, configurator, w) \<Rightarrow>
               run_raw accept new_connection D spawn
                 (spawn (session_set D configurator (session_new addr)) con w)))"

section \<open>A client\<close>

definition attach_request_handlers ::
    "('st, 'p) channels \<Rightarrow> type_id \<Rightarrow> 'v \<Rightarrow> ('v session \<Rightarrow> 'st \<Rightarrow> 'st) \<Rightarrow> client_connection \<Rightarrow> 'st
      \<Rightarrow> (request_error + unit) polled \<times> client_connection \<times> 'st" where
  "attach_request_handlers C D configurator spawn con st =
     (case (if \<not> client_is_server_requests_enabled con then client_enable_server_requests C con st
            else (Ready (Inr ()), con, st)) of
        (Ready (Inr _), con, st) \<Rightarrow>
          let session = session_set D configurator (session_new ''0.0.0.0:0'')
          in (case client_take_receiver con of
                Panic msg \<Rightarrow> (Panicked, con, st)
              | Returned (False, con) \<Rightarrow> (Panicked, con, st)
              | Returned (True, con) \<Rightarrow> (Ready (Inr ()), con, spawn session st))
      | res \<Rightarrow> res)"

section \<open>Handlers for server requests\<close>

text \<open>
  What \<open>enable_server_requests\<close> generates: \<open>T\<close> is the type of the requestor, \<open>into\<close> the conversion
  of the function's error.
\<close>

definition enable_handle ::
    "type_id \<Rightarrow> param list \<Rightarrow> ('e \<Rightarrow> api_crate_error) \<Rightarrow> (('q, 'v) argument list \<Rightarrow> ('e + unit, 'w) task)
      \<Rightarrow> 'q \<Rightarrow> 'v data \<Rightarrow> 'v session \<Rightarrow> (api_crate_error + unit, 'w) task" where
  "enable_handle T params into handler sender data session =
     (let sender = dm_new sender
      in case handler_args T data session params sender of
           Panic msg \<Rightarrow> task_panic msg
         | Returned args \<Rightarrow> task_then (handler args) (\<lambda>r. task_return (map_err into r)))"

definition enable_handler_of ::
    "type_id \<Rightarrow> param list \<Rightarrow> ('e \<Rightarrow> api_crate_error) \<Rightarrow> (('q, 'v) argument list \<Rightarrow> ('e + unit, 'w) task)
      \<Rightarrow> ('q, 'v, 'w) enable_handler" where
  "enable_handler_of T params into handler =
     \<lparr>eh_validate = validate_data T params, eh_handle = enable_handle T params into handler\<rparr>"

end
