(* ===== verification/Derive.thy ===== *)
theory Derive
  imports Serving
begin

text \<open>
  The procedural macros of \<open>lafere-api-codegen\<close> that look at what they are applied to: \<open>derive(Action)\<close>
  (\<open>action.rs\<close>) and the checks of \<open>util.rs\<close> that \<open>api\<close> and \<open>enable_server_requests\<close> begin with. Of the
  syntax trees of \<open>syn\<close> only what the macros read is kept; an error is its text.
\<close>

section \<open>Functions under a macro\<close>

text \<open>A reference with whether it is mutable and has a lifetime, or another type.\<close>

datatype syn_type = TypeReference bool bool type_id | TypeOther type_id

datatype fn_arg = ArgReceiver | ArgTyped syn_type

record signature =
  sg_constness :: bool
  sg_unsafety :: bool
  sg_abi :: bool
  sg_generics :: bool
  sg_variadic :: bool
  sg_inputs :: "fn_arg list"

definition validate_signature :: "signature \<Rightarrow> string + unit" where
  "validate_signature sig =
     (if sg_constness sig then Inl ''const not allowed''
      else if sg_unsafety sig then Inl ''unsafe not allowed''
      else if sg_abi sig then Inl ''abi not allowed''
      else if sg_generics sig then Inl ''generics not allowed''
      else if sg_variadic sig then Inl ''variadic not allowed''
      else Inr ())"

fun ref_type :: "syn_type \<Rightarrow> (bool \<times> bool \<times> type_id) option" where
  "ref_type (TypeReference mutability lifetime elem) = Some (mutability, lifetime, elem)"
| "ref_type _ = None"

fun validate_inputs :: "fn_arg list \<Rightarrow> string + syn_type list" where
  "validate_inputs [] = Inr []"
| "validate_inputs (ArgReceiver # inputs) = Inl ''self not allowed''"
| "validate_inputs (ArgTyped ty # inputs) =
     (case ref_type ty of
        Some (mutability, lifetime, elem) \<Rightarrow>
          if mutability then Inl ''&mut not supported''
          else if lifetime then Inl ''lifetimes not supported''
          else rbind (validate_inputs inputs) (\<lambda>v. Inr (ty # v))
      | None \<Rightarrow> rbind (validate_inputs inputs) (\<lambda>v. Inr (ty # v)))"

text \<open>How the generated code reads a parameter.\<close>

fun param_of :: "syn_type \<Rightarrow> param" where
  "param_of (TypeReference _ _ elem) = ByRef elem"
| "param_of (TypeOther ty) = Owned ty"

definition expand_params :: "signature \<Rightarrow> string + param list" where
  "expand_params sig =
     rbind (validate_signature sig) (\<lambda>_. rbind (validate_inputs (sg_inputs sig)) (\<lambda>tys. Inr (map param_of tys)))"

text \<open>The two macros; \<open>req_ty\<close> and \<open>requestor_ty\<close> are named by the attribute.\<close>

definition api_expand ::
    "type_id \<Rightarrow> ('r, 't, 'e, 'a, 'b) request \<Rightarrow> signature \<Rightarrow> (('r, 'v) argument list \<Rightarrow> ('e + 't, 'w) task)
      \<Rightarrow> string + ('a, 'b, 'v, 'w) request_handler" where
  "api_expand req_ty R sig handler =
     rbind (expand_params sig) (\<lambda>params. Inr (api_handler req_ty R params handler))"

definition enable_expand ::
    "type_id \<Rightarrow> signature \<Rightarrow> ('e \<Rightarrow> api_crate_error) \<Rightarrow> (('q, 'v) argument list \<Rightarrow> ('e + unit, 'w) task)
      \<Rightarrow> string + ('q, 'v, 'w) enable_handler" where
  "enable_expand requestor_ty sig into handler =
     rbind (expand_params sig) (\<lambda>params. Inr (enable_handler_of requestor_ty params into handler))"

section \<open>Actions\<close>

datatype discriminant = LitInt nat | OtherExpr

record variant =
  va_ident :: string
  va_discriminant :: "discriminant option"
  va_unit :: bool

text \<open>\<open>ai_repr\<close> are the arguments of the attributes \<open>repr\<close>; \<open>ai_data\<close> is \<open>None\<close> for what is no enum.\<close>

record action_input =
  ai_repr :: "string list"
  ai_generics :: bool
  ai_data :: "variant list option"

definition repr_as_u16 :: "string list \<Rightarrow> string + bool" where
  "repr_as_u16 attrs =
     (case fold (\<lambda>ty repr_as. Some ty) attrs None of
        Some path \<Rightarrow> if path \<noteq> ''u16'' then Inl ''expected u16'' else Inr True
      | None \<Rightarrow> Inr False)"

definition variant_no_fields :: "variant \<Rightarrow> string + nat \<times> string" where
  "variant_no_fields v =
     (case va_discriminant v of
        None \<Rightarrow> Inl ''needs to have a field number `Ident = x`''
      | Some OtherExpr \<Rightarrow> Inl ''expected = int''
      | Some (LitInt fieldnum) \<Rightarrow>
          if fieldnum = 0 then Inl ''zero not allowed''
          else if \<not> va_unit v then Inl ''no fields allowed''
          else Inr (fieldnum, va_ident v))"

fun variants_no_fields :: "variant list \<Rightarrow> string + (nat \<times> string) list" where
  "variants_no_fields [] = Inr []"
| "variants_no_fields (v # vs) =
     rbind (variant_no_fields v) (\<lambda>x. rbind (variants_no_fields vs) (\<lambda>xs. Inr (x # xs)))"

text \<open>The generated functions: matches with one arm for each variant.\<close>

definition derived_from_u16 :: "(nat \<times> string) list \<Rightarrow> nat \<Rightarrow> string option" where
  "derived_from_u16 variants u = map_option snd (find (\<lambda>(n, ident). n = u) variants)"

definition derived_as_u16 :: "(nat \<times> string) list \<Rightarrow> string \<Rightarrow> nat option" where
  "derived_as_u16 variants self = map_option fst (find (\<lambda>(n, ident). ident = self) variants)"

definition action_expand :: "action_input \<Rightarrow> string + (nat \<times> string) list" where
  "action_expand input =
     (case ai_data input of
        None \<Rightarrow> Inl ''only enums supported''
      | Some variants \<Rightarrow>
          rbind (repr_as_u16 (ai_repr input)) (\<lambda>ok.
            if \<not> ok then Inl ''#[repr(u16)] required''
            else if ai_generics input then Inl ''generics not supported''
            else variants_no_fields variants))"

text \<open>
  What the compiler asks of the enum: the names and the numbers of its variants differ, and the
  numbers fit into \<open>u16\<close>.
\<close>

definition rust_enum :: "variant list \<Rightarrow> bool" where
  "rust_enum vs \<longleftrightarrow> distinct (map va_ident vs) \<and> distinct (map va_discriminant vs)
     \<and> (\<forall>n. Some (LitInt n) \<in> set (map va_discriminant vs) \<longrightarrow> n < 2 ^ 16)"

text \<open>The trait's implementation, for a type whose values are the variants.\<close>

definition derived_action :: "(nat \<times> string) list \<Rightarrow> ('a \<Rightarrow> string) \<Rightarrow> (string \<Rightarrow> 'a) \<Rightarrow> 'a action" where
  "derived_action variants name val = \<lparr>
     ac_from_u16 = (\<lambda>u. map_option val (derived_from_u16 variants (unat u))),
     ac_as_u16 = (\<lambda>a. case derived_as_u16 variants (name a) of Some n \<Rightarrow> of_nat n | None \<Rightarrow> 0),
     ac_max_body_size = (\<lambda>_. None)\<rparr>"

section \<open>The table of the variants\<close>

lemma variants_table:
  "variants_no_fields vs = Inr xs \<Longrightarrow> map snd xs = map va_ident vs
    \<and> map (\<lambda>x. Some (LitInt (fst x))) xs = map va_discriminant vs \<and> (\<forall>n i. (n, i) \<in> set xs \<longrightarrow> n \<noteq> 0)"
  by (induction vs arbitrary: xs)
    ((auto simp: variant_no_fields_def rbind_eq_Inr split: option.splits discriminant.splits if_splits; blast))+

lemma find_only: "distinct (map f xs) \<Longrightarrow> x \<in> set xs \<Longrightarrow> find (\<lambda>y. f y = f x) xs = Some x"
  by (induction xs) (auto simp: image_iff)

lemma find_member: "find Q xs = Some x \<Longrightarrow> x \<in> set xs \<and> Q x"
  by (induction xs) (auto split: if_splits)

lemma derived_inverse:
  assumes "variants_no_fields vs = Inr xs" and "rust_enum vs" and "(n, i) \<in> set xs"
  shows "derived_from_u16 xs n = Some i \<and> derived_as_u16 xs i = Some n \<and> n \<noteq> 0 \<and> n < 2 ^ 16"
proof -
  note table = variants_table [OF assms(1)]
  have "distinct (map (\<lambda>n. Some (LitInt n)) (map fst xs))"
    using table assms(2) by (simp add: rust_enum_def comp_def)
  then have "distinct (map snd xs)" "distinct (map fst xs)"
    using table assms(2) by (auto simp only: rust_enum_def distinct_map [of "\<lambda>n. Some (LitInt n)"])
  then have "derived_from_u16 xs n = Some i" "derived_as_u16 xs i = Some n"
    using find_only [of fst xs "(n, i)"] find_only [of snd xs "(n, i)"] assms(3)
    by (simp_all add: derived_from_u16_def derived_as_u16_def split_def)
  moreover have "Some (LitInt n) \<in> set (map va_discriminant vs)"
    using assms(3) table by (metis (no_types, lifting) fst_conv imageI list.set_map)
  ultimately show ?thesis
    using assms(2,3) table by (fastforce simp: rust_enum_def)
qed

end
