(* ===== verification/Exchange_Props.thy ===== *)
theory Exchange_Props
  imports Handler_Props
begin

text \<open>
  A request and its answer across the two handlers of a connection, with anything else going on in
  between.
\<close>

section \<open>Steps that are about other requests\<close>

text \<open>
  What a handler does that does not receive or send a packet with the id \<open>i\<close> and does not close
  the connection.
\<close>

inductive other_step ::
    "'h packet_header \<Rightarrow> ('p, 'h, 'b) packet \<Rightarrow> ('st, 'p) tokio \<Rightarrow> u32 \<Rightarrow> handler \<times> 'st \<Rightarrow> handler \<times> 'st \<Rightarrow> bool"
  for H P T i where
  receive: "ph_id H (pk_header P pkt) \<noteq> i \<Longrightarrow> handler_send H P T pkt h st = (res, h', st') \<Longrightarrow>
      other_step H P T i (h, st) (h', st')"
| malformed: "ph_id H header \<noteq> i \<Longrightarrow> packet_error H P T header e h st = (res, h', st') \<Longrightarrow>
      other_step H P T i (h, st) (h', st')"
| transmit: "handler_to_send H P T user_first order h st = Returned (res, h', st') \<Longrightarrow>
      (\<And>p. res = SendThis p \<Longrightarrow> ph_id H (pk_header P p) \<noteq> i) \<Longrightarrow> other_step H P T i (h, st) (h', st')"
| user: "other_step H P T i (h, st) (h, st')"

inductive_cases other_stepE: "other_step H P T i (h, st) s'"

lemma other_send_keeps:
  assumes "handler_send H P T pkt h st = (res, h', st')" and "ph_id H (pk_header P pkt) \<noteq> i"
  shows "waiting_on_stream h' i = waiting_on_stream h i \<and> waiting_on_user h' i = waiting_on_user h i"
  using assms
  by (auto simp: handler_send_def Let_def to_user_def user_insert_def answer_def stream_remove_def
      split: if_splits option.splits prod.splits bool.splits stream_response.splits sum.splits)

lemma other_error_keeps:
  assumes "packet_error H P T header e h st = (res, h', st')" and "ph_id H header \<noteq> i"
  shows "waiting_on_stream h' i = waiting_on_stream h i \<and> waiting_on_user h' i = waiting_on_user h i"
  using assms
  by (auto simp: packet_error_def Let_def answer_def stream_remove_def
      split: if_splits option.splits stream_response.splits)

lemma start_keeps:
  assumes "start_request H P T req h st = Returned (res, h', st')"
  shows "(waiting_on_stream h i \<noteq> None \<longrightarrow> waiting_on_stream h' i = waiting_on_stream h i)
    \<and> (waiting_on_user h i \<noteq> None \<longrightarrow> waiting_on_user h' i = waiting_on_user h i)"
  using assms
  by (auto simp: start_request_def Let_def user_insert_def
      split: outcome.splits option.splits prod.splits internal_request.splits if_splits sum.splits)

lemma request_branch_keeps:
  assumes "request_branch H P T can h st = Returned (r, h', st')"
  shows "(waiting_on_stream h i \<noteq> None \<longrightarrow> waiting_on_stream h' i = waiting_on_stream h i)
    \<and> (waiting_on_user h i \<noteq> None \<longrightarrow> waiting_on_user h' i = waiting_on_user h i)"
  using assms start_keeps [of H P T _ h _ _ h' st' i]
  by (auto simp: request_branch_def split: if_splits prod.splits poll_result.splits outcome.splits)

context packet_laws
begin

lemma polled_id:
  assumes "poll_users H P T order h st = (Some (p, Some j), st')"
  shows "ph_id H (pk_header P p) = j"
  using assms
  by (induction order arbitrary: st)
    (auto simp: handler_simps split: option.splits user_response.splits prod.splits poll_result.splits)

lemma user_branch_keeps:
  assumes "user_branch H P T order h st = (r, h', st')"
    and "\<And>p. r = Taken p \<Longrightarrow> ph_id H (pk_header P p) \<noteq> i"
  shows "waiting_on_stream h' i = waiting_on_stream h i \<and> waiting_on_user h' i = waiting_on_user h i"
  using assms polled_id [of T order h st]
  by (fastforce simp: user_branch_def split: if_splits prod.splits option.splits)

lemma to_send_keeps:
  assumes sent: "handler_to_send H P T user_first order h st = Returned (res, h', st')"
    and other: "\<And>p. res = SendThis p \<Longrightarrow> ph_id H (pk_header P p) \<noteq> i"
  shows "(waiting_on_stream h i \<noteq> None \<longrightarrow> waiting_on_stream h' i = waiting_on_stream h i)
    \<and> (waiting_on_user h i \<noteq> None \<longrightarrow> waiting_on_user h' i = waiting_on_user h i)"
proof (cases user_first)
  case True
  obtain u h1 st1 where u: "user_branch H P T order h st = (u, h1, st1)" by (rule prod_cases3)
  show ?thesis
  proof (cases u)
    case (Taken p)
    with sent True u other user_branch_keeps [OF u, of i] show ?thesis
      by (simp add: handler_to_send_def)
  next
    case Disabled
    with sent True u user_branch_keeps [OF u, of i] show ?thesis
      by (auto simp: handler_to_send_def split: outcome.splits prod.splits branch.splits
          dest!: request_branch_keeps [of H P T _ _ _ _ _ _ i])
  next
    case Waiting
    with sent True u user_branch_keeps [OF u, of i] show ?thesis
      by (auto simp: handler_to_send_def split: outcome.splits prod.splits branch.splits
          dest!: request_branch_keeps [of H P T _ _ _ _ _ _ i])
  qed
next
  case False
  let ?r = "request_branch H P T (can_send_requests (h_state h)) h st"
  from sent False obtain r h1 st1 where r: "?r = Returned (r, h1, st1)"
    by (cases ?r) (auto simp: handler_to_send_def)
  obtain u h2 st2 where u: "user_branch H P T order h1 st1 = (u, h2, st2)" by (rule prod_cases3)
  show ?thesis
    using sent False r u other request_branch_keeps [OF r, of i] user_branch_keeps [OF u, of i]
    by (cases r; cases u) (auto simp: handler_to_send_def)
qed

text \<open>What is waited for under \<open>i\<close> is still waited for.\<close>

lemma other_step_keeps:
  assumes "other_step H P T i s s'"
  shows "(waiting_on_stream (fst s) i \<noteq> None \<longrightarrow> waiting_on_stream (fst s') i = waiting_on_stream (fst s) i)
    \<and> (waiting_on_user (fst s) i \<noteq> None \<longrightarrow> waiting_on_user (fst s') i = waiting_on_user (fst s) i)"
  using assms
proof cases
  case (transmit user_first order h st res h' st')
  with to_send_keeps [OF transmit(3), of i] show ?thesis by simp
qed (simp_all add: other_send_keeps other_error_keeps)

lemma other_steps_keep:
  assumes "(other_step H P T i)\<^sup>*\<^sup>* s s'"
  shows "(waiting_on_stream (fst s) i \<noteq> None \<longrightarrow> waiting_on_stream (fst s') i = waiting_on_stream (fst s) i)
    \<and> (waiting_on_user (fst s) i \<noteq> None \<longrightarrow> waiting_on_user (fst s') i = waiting_on_user (fst s) i)"
  using assms by (induction rule: rtranclp_induct) (auto dest: other_step_keeps)

end

section \<open>The two ends\<close>

text \<open>What the server sends as the answer is what its user gave: a packet, or that it dropped the channel.\<close>

definition given ::
    "'h packet_header \<Rightarrow> ('p, 'h, 'b) packet \<Rightarrow> ('st, 'p) tokio \<Rightarrow> chan \<Rightarrow> u32 \<Rightarrow> 'p \<Rightarrow> bool" where
  "given H P T d i a \<longleftrightarrow>
     (\<exists>st st' q. tk_oneshot_poll T d st = (PollSome q, st') \<and> a = stamped H P KResponse i q)
   \<or> (\<exists>st st'. tk_oneshot_poll T d st = (PollClosed, st') \<and> a = stamped H P KNoResponse i (pk_empty P))"

lemma given_some: "tk_oneshot_poll T d st = (PollSome q, st') \<Longrightarrow> given H P T d i (stamped H P KResponse i q)"
  unfolding given_def by blast

lemma given_closed:
  "tk_oneshot_poll T d st = (PollClosed, st') \<Longrightarrow> given H P T d i (stamped H P KNoResponse i (pk_empty P))"
  unfolding given_def by blast

definition answer_result :: "'h packet_header \<Rightarrow> ('p, 'h, 'b) packet \<Rightarrow> 'p \<Rightarrow> request_error + 'p" where
  "answer_result H P a =
     (if flags_kind (ph_flags H (pk_header P a)) = KResponse then Inr a else Inl NoResponse)"

context packet_laws
begin

text \<open>The server takes a request.\<close>

lemma request_taken:
  assumes "handler_send H P T p h st = (Inr r, h', st')"
    and "flags_kind (ph_flags H (pk_header P p)) = KRequest"
  shows "waiting_on_user h' (ph_id H (pk_header P p)) = Some (UserRequest (fst (tk_oneshot T st)))"
  using assms
  by (auto simp: handler_send_def Let_def to_user_def user_insert_def split: if_splits option.splits prod.splits bool.splits)

lemma polled_given:
  assumes "poll_users H P T order h st = (Some (a, rem), st')"
    and "ph_id H (pk_header P a) = i" and "waiting_on_user h i = Some (UserRequest d)"
  shows "given H P T d i a \<and> rem = Some i"
  using assms
  by (induction order arbitrary: st)
    (auto intro: given_some given_closed simp: handler_simps split: option.splits user_response.splits prod.splits poll_result.splits)

lemma start_kind:
  assumes "start_request H P T req h st = Returned (Some a, h', st')"
  shows "flags_kind (ph_flags H (pk_header P a)) \<in> {KEnableServerRequests, KRequest, KRequestSender, KRequestReceiver}"
  using assms
  by (auto simp: start_request_def Let_def handler_simps
      split: outcome.splits option.splits prod.splits internal_request.splits if_splits sum.splits)

lemma branch_given:
  assumes "user_branch H P T order h st = (Taken a, h', st')"
    and "ph_id H (pk_header P a) = i" and "waiting_on_user h i = Some (UserRequest d)"
  shows "given H P T d i a \<and> waiting_on_user h' i = None"
  using assms polled_given [of T order h st _ _ _ i d]
  by (auto simp: user_branch_def split: if_splits prod.splits option.splits)

lemma answer_given:
  assumes sent: "handler_to_send H P T user_first order h st = Returned (SendThis a, h', st')"
    and a: "ph_id H (pk_header P a) = i" "flags_kind (ph_flags H (pk_header P a)) \<in> {KResponse, KNoResponse}"
    and h: "waiting_on_user h i = Some (UserRequest d)"
  shows "given H P T d i a \<and> waiting_on_user h' i = None"
proof -
  have started: "req_res \<noteq> Returned (Taken (Some a), h2, st2)"
    if "req_res = request_branch H P T c h1 st1" for req_res c h1 st1 h2 st2
    using that start_kind [of T _ h1 _ a h2 st2] a
    by (auto simp: request_branch_def split: if_splits prod.splits poll_result.splits outcome.splits)
  have sent_a: "res = Some a" if "sent_packet res = SendThis a" for res
    using that by (cases res) auto
  have keep: "waiting_on_user h1 i = Some (UserRequest d)"
    if "request_branch H P T c h st = Returned (r, h1, st1)" for c r h1 st1
    using request_branch_keeps [OF that, of i] h by simp
  show ?thesis
  proof (cases user_first)
    case True
    obtain u h1 st1 where u: "user_branch H P T order h st = (u, h1, st1)" by (rule prod_cases3)
    with sent True started sent_a show ?thesis
      using branch_given [of T order h st a _ _ i d] a h
      by (cases u) (auto simp: handler_to_send_def Let_def split: outcome.splits prod.splits branch.splits if_splits)
  next
    case False
    let ?r = "request_branch H P T (can_send_requests (h_state h)) h st"
    from sent False obtain r h1 st1 where r: "?r = Returned (r, h1, st1)"
      by (cases ?r) (auto simp: handler_to_send_def)
    obtain u h2 st2 where u: "user_branch H P T order h1 st1 = (u, h2, st2)" by (rule prod_cases3)
    show ?thesis
      using sent False r u started [OF refl, of _ h st] sent_a branch_given [of T order h1 st1 a h2 st2 i d] a keep [OF r]
      by (cases r; cases u) (auto simp: handler_to_send_def Let_def split: if_splits)
  qed
qed

text \<open>The client takes the answer.\<close>

lemma answer_taken:
  assumes "waiting_on_stream h i = Some (StreamRequest c)" and "ph_id H (pk_header P a) = i"
    and "flags_kind (ph_flags H (pk_header P a)) \<in> {KResponse, KNoResponse}"
  shows "handler_send H P T a h st = (Inr SendNone, stream_remove i h, snd (tk_response_send T c (answer_result H P a) st))"
  using assms by (auto simp: handler_send_def Let_def answer_def answer_result_def)

text \<open>The two ends of a request, with other steps in between.\<close>

lemma server_answers:
  assumes "handler_send H P U p server us = (Inr SendNone, server1, us1)"
    and "flags_kind (ph_flags H (pk_header P p)) = KRequest" and "ph_id H (pk_header P p) = i"
    and "(other_step H P U i)\<^sup>*\<^sup>* (server1, us1) (server2, us2)"
    and "handler_to_send H P U user_first order server2 us2 = Returned (SendThis a, server3, us3)"
    and "ph_id H (pk_header P a) = i" and "flags_kind (ph_flags H (pk_header P a)) \<in> {KResponse, KNoResponse}"
  shows "given H P U (fst (tk_oneshot U us)) i a \<and> waiting_on_user server3 i = None"
  using answer_given [OF assms(5-7)] request_taken [OF assms(1,2)] other_steps_keep [OF assms(4)] assms(3) by simp

lemma client_answered:
  assumes "start_request H P T (IRequest pkt c) client st = Returned (Some p, client1, st1)"
    and "(other_step H P T (ph_id H (pk_header P p)))\<^sup>*\<^sup>* (client1, st1) (client2, st2)"
    and "ph_id H (pk_header P a) = ph_id H (pk_header P p)"
    and "flags_kind (ph_flags H (pk_header P a)) \<in> {KResponse, KNoResponse}"
  shows "\<exists>client3. handler_send H P T a client2 st2
        = (Inr SendNone, client3, snd (tk_response_send T c (answer_result H P a) st2))
      \<and> waiting_on_stream client3 (ph_id H (pk_header P p)) = None"
  using answer_taken [OF _ assms(3,4), of client2 c T st2] request_sent [OF assms(1)] other_steps_keep [OF assms(2)]
  by (simp add: stream_remove_def)

end

section \<open>Properties\<close>

text \<open>
  C2. A request and its answer. The client sends a request and the server takes it, under the
  same id. Both then do anything else, as long as no other packet has this id. When the
  server sends an answer with this id, it is the one its user gave to this request, or that it
  gave none; and the client, when it is handed the answer, hands it to the channel of this
  request. Both have then forgotten the request.
\<close>

theorem request_answered:
  assumes laws: "packet_laws H P"
    and asked: "start_request H P T (IRequest pkt c) client st = Returned (Some p, client1, st1)"
    and p': "ph_id H (pk_header P p') = ph_id H (pk_header P p)"
      "flags_kind (ph_flags H (pk_header P p')) = KRequest"
    and taken: "handler_send H P U p' server us = (Inr SendNone, server1, us1)"
    and serving: "(other_step H P U (ph_id H (pk_header P p)))\<^sup>*\<^sup>* (server1, us1) (server2, us2)"
    and sent: "handler_to_send H P U user_first order server2 us2 = Returned (SendThis a, server3, us3)"
    and a: "ph_id H (pk_header P a) = ph_id H (pk_header P p)"
      "flags_kind (ph_flags H (pk_header P a)) \<in> {KResponse, KNoResponse}"
    and waiting: "(other_step H P T (ph_id H (pk_header P p)))\<^sup>*\<^sup>* (client1, st1) (client2, st2)"
    and a': "ph_id H (pk_header P a') = ph_id H (pk_header P a)"
      "flags_kind (ph_flags H (pk_header P a')) = flags_kind (ph_flags H (pk_header P a))"
  shows "given H P U (fst (tk_oneshot U us)) (ph_id H (pk_header P p)) a
    \<and> waiting_on_user server3 (ph_id H (pk_header P p)) = None
    \<and> (\<exists>client3. handler_send H P T a' client2 st2
          = (Inr SendNone, client3, snd (tk_response_send T c (answer_result H P a') st2))
        \<and> waiting_on_stream client3 (ph_id H (pk_header P p)) = None)"
  using packet_laws.server_answers [OF laws taken p'(2,1) serving sent a]
    packet_laws.client_answered [OF laws asked waiting, of a'] a a' by simp

section \<open>The property on concrete values\<close>

text \<open>A runtime as \<open>log_tokio\<close>, whose oneshot channels are answered with a packet.\<close>

definition answer_tokio where
  "answer_tokio p = log_tokio\<lparr>tk_oneshot_poll := (\<lambda>_ st. (PollSome p, st))\<rparr>"

lemmas mini_eval = mini_header_def mini_packet_def mini_def stamped_def with_id_def with_flags_def Let_def
  log_tokio_def answer_tokio_def handler_new_def

theorem request_answered_witness:
  "given mini_header mini_packet (answer_tokio (mini 9 KPing)) 7 0 (mini 0 KResponse)
    \<and> waiting_on_user (handler_new True) 0 = None
    \<and> (\<exists>client3. handler_send mini_header mini_packet log_tokio (mini 0 KResponse)
          ((handler_new False)\<lparr>waiting_on_stream := [0 \<mapsto> StreamRequest 4], h_state := UniClient (Some 1)\<rparr>) (6, [], [])
        = (Inr SendNone, client3, (6, [], [(4, Inr (mini 0 KResponse))]))
      \<and> waiting_on_stream client3 0 = None)"
proof -
  let ?client = "(handler_new False)\<lparr>waiting_on_stream := [0 \<mapsto> StreamRequest 4], h_state := UniClient (Some 1)\<rparr>"
  let ?server = "(handler_new True)\<lparr>waiting_on_user := [0 \<mapsto> UserRequest 7]\<rparr>"
  let ?U = "answer_tokio (mini 9 KPing)"
  have "start_request mini_header mini_packet log_tokio (IRequest (mini 9 KPing) 4) (handler_new False) (5, [], [])
      = Returned (Some (mini 0 KRequest), ?client, (5, [], []))"
    by (simp add: start_request_def mini_eval checked_add_1_def)
  moreover have "handler_send mini_header mini_packet ?U (mini 0 KRequest) (handler_new True) (7, [], [])
      = (Inr SendNone, ?server, (8, [], []))"
    by (simp add: handler_send_def mini_eval user_insert_def to_user_def)
  moreover have "handler_to_send mini_header mini_packet ?U True [0] ?server (8, [], [])
      = Returned (SendThis (mini 0 KResponse), handler_new True, (8, [], []))"
    by (simp add: handler_to_send_def user_branch_def mini_eval)
  moreover have "(other_step mini_header mini_packet log_tokio 0)\<^sup>*\<^sup>* (?client, (5, [], [])) (?client, (6, [], []))"
    by (rule r_into_rtranclp) (rule other_step.user)
  ultimately show ?thesis
    using request_answered [OF mini.packet_laws_axioms, of log_tokio "mini 9 KPing" 4 "handler_new False" "(5, [], [])"
      "mini 0 KRequest" ?client "(5, [], [])" "mini 0 KRequest" ?U "handler_new True" "(7, [], [])" ?server "(8, [], [])"
      ?server "(8, [], [])" True "[0]" "mini 0 KResponse" "handler_new True" "(8, [], [])" ?client "(6, [], [])" "mini 0 KResponse"]
    by (simp add: answer_result_def) (simp add: log_tokio_def answer_tokio_def)
qed

end
