(* ===== verification/Endpoint_Props.thy ===== *)
theory Endpoint_Props
  imports Derive Exchange_Props Packet_Props
begin

text \<open>
  Properties of the users' side of a connection: when a server may send requests, and the actions
  that \<open>derive(Action)\<close> makes.
\<close>

section \<open>Sending is never disabled again\<close>

lemma next_id_can_send:
  "state_next_id s = Returned (i, s') \<Longrightarrow> can_send_requests s'"
  by (cases s) auto

lemma enable_can_send:
  "can_send_requests (snd (enable_server_requests s))"
  "fst (enable_server_requests s) \<Longrightarrow> can_send_requests (snd (enable_server_requests s))"
  by (cases s rule: enable_server_requests.cases; simp)+

lemma answer_state [handler_simps]: "h_state (fst (snd (answer T pid res h st))) = h_state h"
  by (simp add: answer_def stream_remove_def split: option.split stream_response.split)

lemma send_state:
  "h_state (fst (snd (handler_send H P T pkt h st))) =
    (if flags_kind (ph_flags H (pk_header P pkt)) = KEnableServerRequests
     then snd (enable_server_requests (h_state h)) else h_state h)"
  by (cases "flags_kind (ph_flags H (pk_header P pkt))")
    (auto simp: handler_send_def Let_def user_insert_def handler_simps stream_remove_def
      split: prod.split option.split stream_response.split sum.split bool.split)

lemma error_state [handler_simps]: "h_state (fst (snd (packet_error H P T header e h st))) = h_state h"
  by (auto simp: packet_error_def Let_def handler_simps)

lemma start_state:
  assumes "start_request H P T req h st = Returned (res, h', st')"
  shows "can_send_requests (h_state h')"
  using assms
  by (auto simp: start_request_def Let_def user_insert_def enable_can_send
      split: outcome.splits option.splits prod.splits internal_request.splits if_splits sum.splits
      dest: next_id_can_send)

lemma user_branch_state [handler_simps]: "h_state (fst (snd (user_branch H P T order h st))) = h_state h"
  by (auto simp: user_branch_def split: prod.split option.split)

lemma request_branch_state:
  assumes "request_branch H P T can h st = Returned (r, h', st')"
  shows "h_state h' = h_state h \<or> can \<and> can_send_requests (h_state h')"
  using assms start_state [of H P T _ h _ _ h' st']
  by (auto simp: request_branch_def split: if_splits prod.splits poll_result.splits outcome.splits)

text \<open>After \<open>to_send\<close> the handler is in the same state, or may send requests as before.\<close>

lemma to_send_state:
  assumes sent: "handler_to_send H P T user_first order h st = Returned (res, h', st')"
  shows "h_state h' = h_state h \<or> can_send_requests (h_state h) \<and> can_send_requests (h_state h')"
proof (cases user_first)
  case True
  obtain u h1 st1 where u: "user_branch H P T order h st = (u, h1, st1)" by (rule prod_cases3)
  then have h1: "h_state h1 = h_state h" using user_branch_state [of H P T order h st] by simp
  let ?r = "request_branch H P T (can_send_requests (h_state h)) h1 st1"
  show ?thesis
  proof (cases u)
    case (Taken p)
    with sent True u h1 show ?thesis by (auto simp: handler_to_send_def)
  qed (use sent True u h1 request_branch_state [of H P T _ h1 st1] in
      \<open>auto simp: handler_to_send_def split: outcome.splits prod.splits branch.splits\<close>)
next
  case False
  let ?r = "request_branch H P T (can_send_requests (h_state h)) h st"
  from sent False obtain r h1 st1 where r: "?r = Returned (r, h1, st1)"
    by (cases ?r) (auto simp: handler_to_send_def)
  obtain u h2 st2 where u: "user_branch H P T order h1 st1 = (u, h2, st2)" by (rule prod_cases3)
  then have h2: "h_state h2 = h_state h1" using user_branch_state [of H P T order h1 st1] by simp
  show ?thesis
    using sent False r u h2 request_branch_state [OF r]
    by (cases r; cases u) (auto simp: handler_to_send_def)
qed

section \<open>What the handler does to the channels\<close>

text \<open>
  A predicate of the runtime's state that all operations of the runtime keep, except that
  \<open>EnableServerRequests\<close> for the user may only be sent if \<open>enabling\<close>.
\<close>

locale runtime_keeps =
  fixes T :: "('st, 'p) tokio" and I :: "'st \<Rightarrow> bool" and enabling :: bool
  assumes keep_requests_send: "I st \<Longrightarrow> req \<noteq> EnableServerRequests \<or> enabling \<Longrightarrow> I (snd (tk_requests_send T req st))"
    and keep_oneshot: "I st \<Longrightarrow> I (snd (tk_oneshot T st))"
    and keep_oneshot_poll: "I st \<Longrightarrow> I (snd (tk_oneshot_poll T c st))"
    and keep_oneshot_close: "I st \<Longrightarrow> I (tk_oneshot_close T c st)"
    and keep_response_send: "I st \<Longrightarrow> I (snd (tk_response_send T c r st))"
    and keep_mpsc: "I st \<Longrightarrow> I (snd (tk_mpsc T n st))"
    and keep_stream_send: "I st \<Longrightarrow> I (snd (tk_stream_send T c p st))"
    and keep_stream_poll: "I st \<Longrightarrow> I (snd (tk_stream_poll T c st))"
    and keep_stream_close: "I st \<Longrightarrow> I (tk_stream_close T c st)"
    and keep_drop_sender: "I st \<Longrightarrow> I (tk_drop_sender T c st)"
    and keep_requests_poll: "I st \<Longrightarrow> I (snd (tk_requests_poll T st))"
    and keep_requests_close: "I st \<Longrightarrow> I (tk_requests_close T st)"
begin

lemmas keep_laws = keep_oneshot_close keep_response_send keep_stream_close keep_drop_sender keep_requests_close

lemma keep_D:
  "tk_requests_send T req st = (b, st') \<Longrightarrow> I st \<Longrightarrow> req \<noteq> EnableServerRequests \<or> enabling \<Longrightarrow> I st'"
  "tk_oneshot T st = (c, st') \<Longrightarrow> I st \<Longrightarrow> I st'"
  "tk_oneshot_poll T c st = (a, st') \<Longrightarrow> I st \<Longrightarrow> I st'"
  "tk_mpsc T n st = (c, st') \<Longrightarrow> I st \<Longrightarrow> I st'"
  "tk_stream_send T c p st = (b, st') \<Longrightarrow> I st \<Longrightarrow> I st'"
  "tk_stream_poll T c st = (a, st') \<Longrightarrow> I st \<Longrightarrow> I st'"
  "tk_requests_poll T st = (d, st') \<Longrightarrow> I st \<Longrightarrow> I st'"
  using keep_requests_send [of st req] keep_oneshot [of st] keep_oneshot_poll [of st c] keep_mpsc [of st n]
    keep_stream_send [of st c p] keep_stream_poll [of st c] keep_requests_poll [of st]
  by simp_all

lemma keep_answer: "I st \<Longrightarrow> I (snd (snd (answer T pid res h st)))"
  by (auto simp: answer_def intro: keep_laws split: option.split stream_response.split)

lemma keep_to_user: "I st \<Longrightarrow> req \<noteq> EnableServerRequests \<or> enabling \<Longrightarrow> I (snd (snd (to_user T req h st)))"
  by (auto simp: to_user_def dest: keep_D split: prod.split bool.split)

lemma keep_user_close: "I st \<Longrightarrow> I (user_close_id T pid h st)"
  by (auto simp: user_close_id_def user_close_def intro: keep_laws split: option.split user_response.split)

lemma keep_send:
  assumes "I st" and "flags_kind (ph_flags H (pk_header P pkt)) \<noteq> KEnableServerRequests \<or> enabling"
  shows "I (snd (snd (handler_send H P T pkt h st)))"
  using assms
  by (auto simp: handler_send_def Let_def user_insert_def stream_remove_def
      intro!: keep_answer keep_to_user keep_user_close keep_laws dest: keep_D
      split: prod.split option.split stream_response.split sum.split bool.split)

lemma keep_error: "I st \<Longrightarrow> I (snd (snd (packet_error H P T header e h st)))"
  by (auto simp: packet_error_def Let_def intro: keep_answer)

lemma keep_poll_users: "poll_users H P T order h st = (res, st') \<Longrightarrow> I st \<Longrightarrow> I st'"
  by (induction order arbitrary: st)
    (fastforce split: option.splits user_response.splits prod.splits poll_result.splits dest: keep_D)+

lemma keep_user_branch: "user_branch H P T order h st = (u, h', st') \<Longrightarrow> I st \<Longrightarrow> I st'"
  by (auto simp: user_branch_def split: if_splits prod.splits option.splits dest: keep_poll_users)

lemma keep_start: "start_request H P T req h st = Returned (res, h', st') \<Longrightarrow> I st \<Longrightarrow> I st'"
  by (auto simp: start_request_def Let_def user_insert_def drop_request_def intro: keep_laws
      split: outcome.splits option.splits prod.splits internal_request.splits if_splits sum.splits)

lemma keep_request_branch: "request_branch H P T can h st = Returned (r, h', st') \<Longrightarrow> I st \<Longrightarrow> I st'"
  by (auto simp: request_branch_def split: if_splits prod.splits poll_result.splits outcome.splits
      dest: keep_D keep_start)

lemma keep_to_send:
  "handler_to_send H P T user_first order h st = Returned (res, h', st') \<Longrightarrow> I st \<Longrightarrow> I st'"
  by (auto simp: handler_to_send_def Let_def split: if_splits outcome.splits prod.splits branch.splits
      dest!: keep_request_branch keep_user_branch)

lemma keep_close: "I st \<Longrightarrow> I (snd (snd (handler_close H P T orders h st)))"
proof -
  have drops: "I st \<Longrightarrow> I (fold (\<lambda>pid st. case f pid of Some s \<Rightarrow> tk_drop_sender T (stream_chan s) st | None \<Rightarrow> st) ps st)"
    for f ps st
    by (induction ps arbitrary: st) (auto split: option.split intro: keep_laws)
  have closes: "I st \<Longrightarrow> I (fold (\<lambda>pid st. user_close_id T pid h st) ps st)" for h ps st
    by (induction ps arbitrary: st) (auto intro: keep_user_close)
  show "I st \<Longrightarrow> I (snd (snd (handler_close H P T orders h st)))"
    by (auto simp: handler_close_def stream_clear_def user_close_all_def Let_def intro!: keep_requests_close closes drops)
qed

end

section \<open>The channel to the user\<close>

text \<open>
  \<open>queued\<close> are the requests between the handler and its user. Only \<open>tk_requests_send\<close> adds to them,
  and what is received was there.
\<close>

locale request_queue =
  fixes T :: "('st, 'p) tokio" and C :: "('st, 'p) channels" and queued :: "'st \<Rightarrow> 'p user_request set"
  assumes sent: "queued (snd (tk_requests_send T req st)) \<subseteq> insert req (queued st)"
    and received: "queued (snd (ch_recv C st)) \<subseteq> queued st"
    and was_queued: "fst (ch_recv C st) = Ready (Some req) \<Longrightarrow> req \<in> queued st"
    and oneshot: "queued (snd (tk_oneshot T st)) \<subseteq> queued st"
    and oneshot_poll: "queued (snd (tk_oneshot_poll T c st)) \<subseteq> queued st"
    and oneshot_close: "queued (tk_oneshot_close T c st) \<subseteq> queued st"
    and response_send: "queued (snd (tk_response_send T c r st)) \<subseteq> queued st"
    and mpsc: "queued (snd (tk_mpsc T n st)) \<subseteq> queued st"
    and stream_send: "queued (snd (tk_stream_send T c p st)) \<subseteq> queued st"
    and stream_poll: "queued (snd (tk_stream_poll T c st)) \<subseteq> queued st"
    and stream_close: "queued (tk_stream_close T c st) \<subseteq> queued st"
    and drop_sender: "queued (tk_drop_sender T c st) \<subseteq> queued st"
    and requests_poll: "queued (snd (tk_requests_poll T st)) \<subseteq> queued st"
    and requests_close: "queued (tk_requests_close T st) \<subseteq> queued st"

sublocale request_queue \<subseteq> unqueued: runtime_keeps T "\<lambda>st. EnableServerRequests \<notin> queued st" False
  by unfold_locales
    (auto dest: subsetD [OF sent] subsetD [OF oneshot] subsetD [OF oneshot_poll] subsetD [OF oneshot_close]
      subsetD [OF response_send] subsetD [OF mpsc] subsetD [OF stream_send] subsetD [OF stream_poll]
      subsetD [OF stream_close] subsetD [OF drop_sender] subsetD [OF requests_poll] subsetD [OF requests_close])

context request_queue
begin

text \<open>Only the packet that enables server requests queues \<open>EnableServerRequests\<close>.\<close>

lemma queue_send:
  assumes "EnableServerRequests \<in> queued (snd (snd (handler_send H P T pkt h st)))"
  shows "EnableServerRequests \<in> queued st
    \<or> can_send_requests (h_state (fst (snd (handler_send H P T pkt h st))))"
  using assms unqueued.keep_send [of st H P pkt h]
  by (cases "flags_kind (ph_flags H (pk_header P pkt)) = KEnableServerRequests")
    (auto simp: send_state enable_can_send)

end

section \<open>A server and its user\<close>

text \<open>
  What happens on the server's side of a connection: the handler receives and sends packets, of
  any kind, the connection is closed, the user of the connection receives or takes the receiver,
  and the users of the channels do what does not queue requests of the other side. The list is
  what \<open>receive\<close> has returned so far.
\<close>

inductive server_side ::
    "'h packet_header \<Rightarrow> ('p, 'h, 'b) packet \<Rightarrow> ('st, 'p) tokio \<Rightarrow> ('st, 'p) channels \<Rightarrow> ('st \<Rightarrow> 'p user_request set)
      \<Rightarrow> handler \<times> server_connection \<times> 'st \<times> 'p user_request list
      \<Rightarrow> handler \<times> server_connection \<times> 'st \<times> 'p user_request list \<Rightarrow> bool"
  for H P T C queued where
  receive: "handler_send H P T pkt h st = (res, h', st') \<Longrightarrow>
    server_side H P T C queued (h, con, st, got) (h', con, st', got)"
| malformed: "packet_error H P T header e h st = (res, h', st') \<Longrightarrow>
    server_side H P T C queued (h, con, st, got) (h', con, st', got)"
| transmit: "handler_to_send H P T user_first order h st = Returned (res, h', st') \<Longrightarrow>
    server_side H P T C queued (h, con, st, got) (h', con, st', got)"
| shut: "handler_close H P T orders h st = (pkt, h', st') \<Longrightarrow>
    server_side H P T C queued (h, con, st, got) (h', con, st', got)"
| user: "server_receive C con st = (res, con', st') \<Longrightarrow>
    server_side H P T C queued (h, con, st, got)
      (h, con', st', case res of Ready (Some req) \<Rightarrow> got @ [req] | _ \<Rightarrow> got)"
| take: "server_take_receiver con = (there, con') \<Longrightarrow>
    server_side H P T C queued (h, con, st, got) (h, con', st, got)"
| users: "queued st' \<subseteq> queued st \<Longrightarrow> server_side H P T C queued (h, con, st, got) (h, con, st', got)"

text \<open>Server requests are enabled at the user, by what it received, only after they are at the handler.\<close>

definition enabled_ok ::
    "('st \<Rightarrow> 'p user_request set) \<Rightarrow> handler \<times> server_connection \<times> 'st \<times> 'p user_request list \<Rightarrow> bool" where
  "enabled_ok queued = (\<lambda>(h, con, st, got).
     (sc_sender_enabled con \<longleftrightarrow> EnableServerRequests \<in> set got)
     \<and> (EnableServerRequests \<in> queued st \<or> EnableServerRequests \<in> set got \<longrightarrow> can_send_requests (h_state h)))"

lemma server_receive_enables:
  assumes "server_receive C con st = (res, con', st')"
  shows "sc_sender_enabled con' \<longleftrightarrow> sc_sender_enabled con \<or> res = Ready (Some EnableServerRequests)"
  using assms
  by (auto simp: server_receive_def split: if_splits prod.splits polled.splits option.splits user_request.splits)

lemma server_receive_queue:
  assumes "server_receive C con st = (res, con', st')"
  shows "st' = st \<and> res = Panicked \<or> ch_recv C st = (res, st')"
  using assms
  by (auto simp: server_receive_def receiver_receive_def
      split: if_splits prod.splits polled.splits option.splits user_request.splits)

lemma send_keeps_enabled:
  "can_send_requests (h_state h) \<Longrightarrow> can_send_requests (h_state (fst (snd (handler_send H P T pkt h st))))"
  by (simp add: send_state enable_can_send)

context request_queue
begin

lemma enabled_step:
  assumes "server_side H P T C queued s s'" and "enabled_ok queued s"
  shows "enabled_ok queued s'"
  using assms
proof (induction rule: server_side.induct)
  case (receive pkt h st res h' st' con got)
  then show ?case
    using queue_send [of H P pkt h st] send_keeps_enabled [of h H P T pkt st] by (auto simp: enabled_ok_def)
next
  case (malformed header e h st res h' st' con got)
  then show ?case
    using unqueued.keep_error [of st H P header e h] error_state [of H P T header e h st]
    by (auto simp: enabled_ok_def)
next
  case (transmit user_first order h st res h' st' con got)
  then show ?case
    using unqueued.keep_to_send [OF transmit.hyps] to_send_state [OF transmit.hyps] by (auto simp: enabled_ok_def)
next
  case (shut orders h st pkt h' st' con got)
  moreover have "h_state h' = h_state h"
    using shut.hyps by (auto simp: handler_close_def stream_clear_def Let_def)
  ultimately show ?case
    using unqueued.keep_close [of st H P orders h] by (auto simp: enabled_ok_def)
next
  case (user con st res con' st' h got)
  have "queued st' \<subseteq> queued st" "res = Ready (Some EnableServerRequests) \<Longrightarrow> EnableServerRequests \<in> queued st"
    using server_receive_queue [OF user.hyps] received [of st] was_queued [of st EnableServerRequests] by auto
  with user.prems server_receive_enables [OF user.hyps] show ?case
    by (auto simp: enabled_ok_def split: polled.split option.split)
qed (auto simp: enabled_ok_def server_take_receiver_def)

lemma enabled_reachable:
  assumes "(server_side H P T C queued)\<^sup>*\<^sup>* (handler_new True, server_new_raw, st0, []) s" and "queued st0 = {}"
  shows "enabled_ok queued s"
  using assms
  by (induction rule: rtranclp_induct) (auto simp: enabled_ok_def server_new_raw_def dest: enabled_step)

end

section \<open>Properties\<close>

text \<open>
  C9. A server's user that gets a sender can use it. Exactly if \<open>receive\<close> has returned
  \<open>EnableServerRequests\<close>, do \<open>clone_sender\<close> and the three kinds of requests not panic, and then
  the handler takes requests from the channel, in any order of events and whatever the peer
  sends.
\<close>

theorem enabled_sender_works:
  assumes "request_queue T C queued" and "queued st0 = {}"
    and "(server_side H P T C queued)\<^sup>*\<^sup>* (handler_new True, server_new_raw, st0, []) (h, con, st, got)"
  shows "if EnableServerRequests \<in> set got
    then server_clone_sender con = Returned () \<and> server_request C con packet st = sender_request C packet st
      \<and> server_request_sender C con packet st = sender_request_sender C packet st
      \<and> server_request_receiver C con packet st = sender_request_receiver C packet st
      \<and> (\<forall>st1 req st2. tk_requests_poll T st1 = (PollSome req, st2)
        \<longrightarrow> handler_to_send H P T False order h st1 = (case start_request H P T req h st2 of
              Panic msg \<Rightarrow> Panic msg | Returned (res, h', st') \<Rightarrow> Returned (sent_packet res, h', st')))
    else \<not> returned (server_clone_sender con) \<and> server_request C con packet st = (Panicked, st)
      \<and> server_request_sender C con packet st = (Panicked, st)
      \<and> server_request_receiver C con packet st = (Panicked, st)"
proof -
  have "sc_sender_enabled con \<longleftrightarrow> EnableServerRequests \<in> set got"
    and "sc_sender_enabled con \<Longrightarrow> can_send_requests (h_state h)"
    using request_queue.enabled_reachable [OF assms(1,3,2)] by (simp_all add: enabled_ok_def)
  then show ?thesis
    by (auto simp: server_clone_sender_def server_request_def server_request_sender_def server_request_receiver_def
        handler_to_send_def request_branch_def split: outcome.split prod.split)
qed

text \<open>
  C16. An enum that \<open>derive(Action)\<close> accepts, and whose variants the compiler accepts, is a lawful
  action: no variant has the number 0, and the two generated functions are inverse to each
  other.
\<close>

theorem derived_action_lawful:
  assumes "action_expand input = Inr variants" and "ai_data input = Some vs" and "rust_enum vs"
    and "\<And>a. name a \<in> va_ident ` set vs" and "\<And>a. val (name a) = a" and "\<And>i. i \<in> va_ident ` set vs \<Longrightarrow> name (val i) = i"
  shows "action_law (derived_action variants name val)
    \<and> (\<forall>u a. ac_from_u16 (derived_action variants name val) u = Some a
        \<longrightarrow> ac_as_u16 (derived_action variants name val) a = u)"
proof -
  have xs: "variants_no_fields vs = Inr variants"
    using assms(1,2) by (auto simp: action_expand_def rbind_eq_Inr split: if_splits)
  note inverse = derived_inverse [OF xs assms(3)]
  have "\<exists>n. (n, name a) \<in> set variants" for a
    using assms(4) [of a] variants_table [OF xs] by (metis (no_types, lifting) imageE list.set_map prod.collapse)
  then have num: "\<exists>n. derived_as_u16 variants (name a) = Some n \<and> derived_from_u16 variants n = Some (name a)
      \<and> n \<noteq> 0 \<and> n < 2 ^ 16" for a
    using inverse by blast
  have inverse_num: "ac_as_u16 (derived_action variants name val) a = u"
    if known: "ac_from_u16 (derived_action variants name val) u = Some a" for u a
  proof -
    from known obtain i where i: "derived_from_u16 variants (unat u) = Some i" "a = val i"
      by (auto simp: derived_action_def)
    then have "(unat u, i) \<in> set variants"
      by (auto simp: derived_from_u16_def dest!: find_member)
    moreover from this have "i \<in> va_ident ` set vs"
      using variants_table [OF xs] by (metis (no_types, lifting) imageI list.set_map snd_conv)
    ultimately show ?thesis
      using inverse [of "unat u" i] i(2) assms(6) by (simp add: derived_action_def)
  qed
  have "ac_as_u16 (derived_action variants name val) a \<noteq> 0
      \<and> ac_from_u16 (derived_action variants name val) (ac_as_u16 (derived_action variants name val) a) = Some a" for a
  proof -
    obtain n where n: "derived_as_u16 variants (name a) = Some n" "derived_from_u16 variants n = Some (name a)"
        "n \<noteq> 0" "n < 2 ^ 16"
      using num by blast
    then have "unat (of_nat n :: u16) = n" by (simp add: unat_of_nat)
    moreover from this n(3) have "(of_nat n :: u16) \<noteq> 0" by (metis unat_0)
    ultimately show ?thesis
      using n assms(5) by (simp add: derived_action_def)
  qed
  with inverse_num show ?thesis by (simp add: action_law_def)
qed

section \<open>The properties on concrete values\<close>

text \<open>
  A runtime whose state is the requests for the user and those of the user. Other channels are
  always open and never have anything.
\<close>

definition queue_tokio :: "('p user_request list \<times> 'p internal_request list, 'p) tokio" where
  "queue_tokio = \<lparr>
     tk_oneshot = (\<lambda>st. (0, st)),
     tk_oneshot_poll = (\<lambda>_ st. (PollPending, st)),
     tk_oneshot_close = (\<lambda>_ st. st),
     tk_response_send = (\<lambda>_ _ st. (True, st)),
     tk_mpsc = (\<lambda>_ st. (0, st)),
     tk_stream_send = (\<lambda>_ _ st. (True, st)),
     tk_stream_poll = (\<lambda>_ st. (PollPending, st)),
     tk_stream_close = (\<lambda>_ st. st),
     tk_drop_sender = (\<lambda>_ st. st),
     tk_requests_send = (\<lambda>r (rs, is). (True, (rs @ [r], is))),
     tk_requests_poll = (\<lambda>(rs, is). case is of [] \<Rightarrow> (PollPending, (rs, [])) | i # is \<Rightarrow> (PollSome i, (rs, is))),
     tk_requests_close = (\<lambda>st. st)\<rparr>"

definition queue_channels :: "('p user_request list \<times> 'p internal_request list, 'p) channels" where
  "queue_channels = \<lparr>
     ch_oneshot = (\<lambda>st. (0, st)),
     ch_response = (\<lambda>_ st. (Cancelled, st)),
     ch_mpsc = (\<lambda>_ st. (0, st)),
     ch_requests_send = (\<lambda>i (rs, is). (Ready True, (rs, is @ [i]))),
     ch_requests_is_closed = (\<lambda>_. False),
     ch_requests_closed = (\<lambda>st. (Cancelled, st)),
     ch_recv = (\<lambda>(rs, is). case rs of [] \<Rightarrow> (Cancelled, ([], is)) | r # rs \<Rightarrow> (Ready (Some r), (rs, is))),
     ch_recv_is_closed = (\<lambda>_. False),
     ch_stream_send = (\<lambda>_ _ st. (Ready True, st)),
     ch_stream_recv = (\<lambda>_ st. (Cancelled, st)),
     ch_stream_close = (\<lambda>_ st. st),
     ch_close_send = (\<lambda>st. st),
     ch_close_closed = (\<lambda>st. (Cancelled, st)),
     ch_join = (\<lambda>st. (Cancelled, st))\<rparr>"

interpretation test_queue: request_queue queue_tokio queue_channels "\<lambda>st. set (fst st)"
  by unfold_locales (auto simp: queue_tokio_def queue_channels_def split: prod.splits list.splits)

theorem enabled_sender_works_witness:
  "\<exists>h con. (server_side mini_header mini_packet queue_tokio queue_channels (\<lambda>st. set (fst st)))\<^sup>*\<^sup>*
      (handler_new True, server_new_raw, ([], []), []) (h, con, ([], []), [EnableServerRequests])
   \<and> server_clone_sender con = Returned ()
   \<and> server_request queue_channels con (mini 0 KPing) ([], []) = sender_request queue_channels (mini 0 KPing) ([], [])"
proof -
  let ?h = "(handler_new True)\<lparr>h_state := BiServer (Some (U32_MID + 1))\<rparr>"
  let ?con = "server_new_raw\<lparr>sc_sender_enabled := True\<rparr>"
  let ?step = "server_side mini_header mini_packet queue_tokio queue_channels (\<lambda>st. set (fst st))"
  have "handler_send mini_header mini_packet queue_tokio (mini 0 KEnableServerRequests) (handler_new True) ([], [])
      = (Inr SendNone, ?h, ([EnableServerRequests], []))"
    by (simp add: handler_send_def to_user_def queue_tokio_def handler_new_def Let_def)
  then have "?step (handler_new True, server_new_raw, ([], []), []) (?h, server_new_raw, ([EnableServerRequests], []), [])"
    by (rule server_side.receive)
  moreover have "server_receive queue_channels server_new_raw ([EnableServerRequests], [])
      = (Ready (Some EnableServerRequests), ?con, ([], []))"
    by (simp add: server_receive_def receiver_receive_def queue_channels_def server_new_raw_def)
  then have "?step (?h, server_new_raw, ([EnableServerRequests], []), []) (?h, ?con, ([], []), [EnableServerRequests])"
    using server_side.user [where res = "Ready (Some EnableServerRequests)" and got = "[]"] by fastforce
  ultimately have run: "?step\<^sup>*\<^sup>* (handler_new True, server_new_raw, ([], []), []) (?h, ?con, ([], []), [EnableServerRequests])"
    by (meson converse_rtranclp_into_rtranclp r_into_rtranclp)
  have "server_clone_sender ?con = Returned () \<and> server_request queue_channels ?con (mini 0 KPing) ([], [])
      = sender_request queue_channels (mini 0 KPing) ([], [])"
    using enabled_sender_works [OF test_queue.request_queue_axioms _ run, of "mini 0 KPing"] by simp
  with run show ?thesis by blast
qed

definition some_action_input :: action_input where
  "some_action_input = \<lparr>ai_repr = [''u16''], ai_generics = False, ai_data = Some
     [\<lparr>va_ident = ''Act1'', va_discriminant = Some (LitInt 1), va_unit = True\<rparr>,
      \<lparr>va_ident = ''Act2'', va_discriminant = Some (LitInt 2), va_unit = True\<rparr>]\<rparr>"

fun some_action_name :: "some_action \<Rightarrow> string" where
  "some_action_name Act1 = ''Act1''"
| "some_action_name Act2 = ''Act2''"

theorem derived_action_lawful_witness:
  "action_law (derived_action [(1, ''Act1''), (2, ''Act2'')] some_action_name (\<lambda>i. if i = ''Act1'' then Act1 else Act2))
    \<and> ac_as_u16 (derived_action [(1, ''Act1''), (2, ''Act2'')] some_action_name
          (\<lambda>i. if i = ''Act1'' then Act1 else Act2)) Act2 = 2"
proof -
  let ?D = "derived_action [(1, ''Act1''), (2, ''Act2'')] some_action_name (\<lambda>i. if i = ''Act1'' then Act1 else Act2)"
  let ?vs = "[\<lparr>va_ident = ''Act1'', va_discriminant = Some (LitInt 1), va_unit = True\<rparr>,
      \<lparr>va_ident = ''Act2'', va_discriminant = Some (LitInt 2), va_unit = True\<rparr>]"
  have "action_law ?D \<and> (\<forall>u a. ac_from_u16 ?D u = Some a \<longrightarrow> ac_as_u16 ?D a = u)"
  proof (rule derived_action_lawful)
    show "action_expand some_action_input = Inr [(1, ''Act1''), (2, ''Act2'')]"
      by (simp add: action_expand_def some_action_input_def repr_as_u16_def variant_no_fields_def)
    show "ai_data some_action_input = Some ?vs" by (simp add: some_action_input_def)
    show "rust_enum ?vs" by (auto simp: rust_enum_def)
    show "some_action_name a \<in> va_ident ` set ?vs" for a :: some_action by (cases a) simp_all
    show "(if some_action_name a = ''Act1'' then Act1 else Act2) = a" for a by (cases a) simp_all
    show "some_action_name (if i = ''Act1'' then Act1 else Act2) = i" if "i \<in> va_ident ` set ?vs" for i
      using that by auto
  qed
  moreover have "ac_from_u16 ?D 2 = Some Act2"
    by (simp add: derived_action_def derived_from_u16_def)
  ultimately show ?thesis by blast
qed

end
