(* ===== verification/Connected_Props.thy ===== *)
theory Connected_Props
  imports Session_Props Connection_Props
begin

text \<open>
  Two background tasks that are connected by byte streams: what one gives to its handler is what
  the other has sent, in order.
\<close>

section \<open>What a background task does with its stream\<close>

fun packet_result :: "('h receiver_error + 'p) polled \<Rightarrow> bool" where
  "packet_result Cancelled \<longleftrightarrow> False"
| "packet_result (Ready (Inl (RIo e))) \<longleftrightarrow> False"
| "packet_result _ \<longleftrightarrow> True"

text \<open>A stream that also records what it is given to send, and what it gives to the task.\<close>

type_synonym ('ps, 'p, 'h) observation = "'ps \<times> 'p list \<times> ('h receiver_error + 'p) polled list"

definition observed :: "('ps, 'p, 'h) packet_stream \<Rightarrow> (('ps, 'p, 'h) observation, 'p, 'h) packet_stream" where
  "observed S = \<lparr>
     ps_timeout = (\<lambda>(ps, sent, got). ps_timeout S ps),
     ps_send = (\<lambda>p (ps, sent, got). case ps_send S p ps of (r, ps) \<Rightarrow> (r, (ps, sent @ [p], got))),
     ps_receive = (\<lambda>(ps, sent, got). case ps_receive S ps of (r, ps) \<Rightarrow>
       (r, (ps, sent, if packet_result r then got @ [r] else got))),
     ps_shutdown = (\<lambda>(ps, sent, got). case ps_shutdown S ps of (r, ps) \<Rightarrow> (r, (ps, sent, got)))\<rparr>"

text \<open>Whether the operations go on to their end.\<close>

fun runs_on ::
    "('ps, 'p, 'h) packet_stream \<Rightarrow> (config \<Rightarrow> 'ps \<Rightarrow> 'ps) \<Rightarrow> 'p stream_op list \<Rightarrow> 'ps \<Rightarrow> bool" where
  "runs_on S upd [] ps \<longleftrightarrow> True"
| "runs_on S upd (SendOp p # ops) ps \<longleftrightarrow> (case ps_send S p ps of (Inl e, ps) \<Rightarrow> False | (Inr u, ps) \<Rightarrow> runs_on S upd ops ps)"
| "runs_on S upd (ReceiveOp # ops) ps \<longleftrightarrow>
     (case ps_receive S ps of (Ready (Inl (RIo e)), ps) \<Rightarrow> False | (r, ps) \<Rightarrow> runs_on S upd ops ps)"
| "runs_on S upd (ConfigOp cfg # ops) ps \<longleftrightarrow> runs_on S upd ops (upd cfg ps)"

lemma run_ops_append:
  assumes "runs_on S upd ops ps" and "run_ops S upd ops ps = (s1, g1, ps1)"
  shows "run_ops S upd (ops @ more_ops) ps = (case run_ops S upd more_ops ps1 of (s2, g2, ps2) \<Rightarrow> (s1 @ s2, g1 @ g2, ps2))
    \<and> runs_on S upd (ops @ more_ops) ps = runs_on S upd more_ops ps1"
  using assms
proof (induction ops arbitrary: ps s1 g1)
  case (Cons op ops)
  show ?case
  proof (cases op)
    case (SendOp p)
    obtain r ps' where "ps_send S p ps = (r, ps')" by (rule prod.exhaust)
    with Cons.prems Cons.IH [of ps'] SendOp show ?thesis
      by (cases r) (auto split: prod.splits)
  next
    case ReceiveOp
    obtain r ps' where "ps_receive S ps = (r, ps')" by (rule prod.exhaust)
    with Cons.prems Cons.IH [of ps'] ReceiveOp show ?thesis
      by (cases r rule: packet_result.cases) (auto split: prod.splits)
  qed (use Cons in auto)
qed (simp split: prod.split)

text \<open>The recorded state is that after some operations; the configurations are among \<open>C\<close>.\<close>

definition ran ::
    "('ps, 'p, 'h) packet_stream \<Rightarrow> (config \<Rightarrow> 'ps \<Rightarrow> 'ps) \<Rightarrow> 'ps \<Rightarrow> (config \<Rightarrow> bool) \<Rightarrow> bool \<Rightarrow> ('ps, 'p, 'h) observation \<Rightarrow> bool" where
  "ran S upd ps0 C on = (\<lambda>(ps, sent, got).
     \<exists>ops. (on \<longrightarrow> runs_on S upd ops ps0) \<and> run_ops S upd ops ps0 = (sent, got, ps) \<and> (\<forall>cfg. ConfigOp cfg \<in> set ops \<longrightarrow> C cfg))"

lemma ran_start: "ran S upd ps C True (ps, [], [])"
  by (auto simp: ran_def intro: exI [of _ "[]"])

lemma ran_weaken: "ran S upd ps0 C on x \<Longrightarrow> ran S upd ps0 C False x"
  by (auto simp: ran_def)

lemma ran_step:
  assumes "ran S upd ps0 C True (ps, sent, got)" and "run_ops S upd [op] ps = (s2, g2, ps2)"
    and "on \<longrightarrow> runs_on S upd [op] ps" and "\<And>cfg. op = ConfigOp cfg \<Longrightarrow> C cfg"
  shows "ran S upd ps0 C on (ps2, sent @ s2, got @ g2)"
proof -
  from assms(1) obtain ops where "runs_on S upd ops ps0" "run_ops S upd ops ps0 = (sent, got, ps)"
    "\<forall>cfg. ConfigOp cfg \<in> set ops \<longrightarrow> C cfg"
    by (auto simp: ran_def)
  with run_ops_append [of S upd ops ps0 sent got ps "[op]"] assms(2-4) show ?thesis
    unfolding ran_def by (auto intro!: exI [of _ "ops @ [op]"])
qed

lemma ran_send:
  assumes "ran S upd ps0 C True x" and "ps_send (observed S) p x = (r, x')"
  shows "ran S upd ps0 C (\<not> isl r) x'"
proof -
  obtain ps sent got where x: "x = (ps, sent, got)" by (cases x)
  obtain ps1 where "ps_send S p ps = (r, ps1)" "x' = (ps1, sent @ [p], got)"
    using assms(2) by (auto simp: observed_def x split: prod.splits)
  with ran_step [of S upd ps0 C ps sent got "SendOp p" "[p]" "[]" ps1 "\<not> isl r"] assms(1) x show ?thesis
    by (cases r) auto
qed

lemma ran_receive:
  assumes "ran S upd ps0 C True x" and "ps_receive (observed S) x = (r, x')"
  shows "ran S upd ps0 C (\<nexists>e. r = Ready (Inl (RIo e))) x'"
proof -
  obtain ps sent got where x: "x = (ps, sent, got)" by (cases x)
  obtain ps1 where "ps_receive S ps = (r, ps1)" "x' = (ps1, sent, if packet_result r then got @ [r] else got)"
    using assms(2) by (auto simp: observed_def x split: prod.splits)
  with ran_step [of S upd ps0 C ps sent got ReceiveOp "[]" "if packet_result r then [r] else []" ps1 "\<nexists>e. r = Ready (Inl (RIo e))"]
    assms(1) x show ?thesis
    by (cases r rule: packet_result.cases) auto
qed

lemma ran_config:
  assumes "ran S upd ps0 C True x" and "C cfg"
  shows "ran S upd ps0 C True (apfst (upd cfg) x)"
  using ran_step [of S upd ps0 C "fst x" "fst (snd x)" "snd (snd x)" "ConfigOp cfg" "[]" "[]" "upd cfg (fst x)" True] assms
  by (cases x) auto

fun ran_looped ::
    "('ps, 'p, 'h) packet_stream \<Rightarrow> (config \<Rightarrow> 'ps \<Rightarrow> 'ps) \<Rightarrow> 'ps \<Rightarrow> (config \<Rightarrow> bool)
      \<Rightarrow> (('ps, 'p, 'h) observation, 'p, 'st) bg looped \<Rightarrow> bool" where
  "ran_looped S upd ps0 C (Looping b) \<longleftrightarrow> ran S upd ps0 C True (bg_stream b)"
| "ran_looped S upd ps0 C (Done (Inl e) b) \<longleftrightarrow> ran S upd ps0 C False (bg_stream b)"
| "ran_looped S upd ps0 C (Done (Inr u) b) \<longleftrightarrow>
     (\<exists>x. ran S upd ps0 C False x \<and> bg_stream b = snd (ps_shutdown (observed S) x))"
| "ran_looped S upd ps0 C (Crashed msg) \<longleftrightarrow> True"

lemma ran_bg_send:
  assumes "ran S upd ps0 C True (bg_stream b)"
  shows "ran_looped S upd ps0 C (bg_send (observed S) p b)"
proof -
  obtain r x where "ps_send (observed S) p (bg_stream b) = (r, x)" by (rule prod.exhaust)
  with ran_send [OF assms this] show ?thesis by (cases r) (simp_all add: bg_send_def)
qed

lemma ran_bg_react:
  assumes "ran S upd ps0 C True (bg_stream b)"
  shows "ran_looped S upd ps0 C (bg_react (observed S) H P T orders reaction b)"
  using assms
  by (auto simp: bg_react_def bg_close_def Let_def ran_weaken split: prod.split sum.split send_back.split
      intro!: ran_bg_send)

lemma ran_bg_finish:
  assumes "ran S upd ps0 C True (bg_stream b)"
  shows "ran_looped S upd ps0 C (bg_finish (observed S) b)"
proof -
  have "ran S upd ps0 C False (snd (ps_send (observed S) p (bg_stream b)))" for p
    using ran_send [OF assms surjective_pairing] by (rule ran_weaken)
  then have "ran S upd ps0 C False (case bg_close_packet b of
      Some packet \<Rightarrow> snd (ps_send (observed S) packet (bg_stream b)) | None \<Rightarrow> bg_stream b)"
    using ran_weaken [OF assms] by (simp split: option.split)
  then show ?thesis
    unfolding bg_finish_def Let_def ran_looped.simps by (intro exI conjI) (assumption, simp)
qed

lemma ran_bg_step:
  assumes ran: "ran S upd ps0 C True (bg_stream b)" and "\<And>cfg. ev = NewConfig (Some cfg) \<Longrightarrow> C cfg"
  shows "ran_looped S upd ps0 C (bg_step (observed S) H P T (\<lambda>c. apfst (upd c)) ev b)"
proof (cases ev)
  case (Received orders)
  obtain r x where r: "ps_receive (observed S) (bg_stream b) = (r, x)" by (rule prod.exhaust)
  note got = ran_receive [OF ran r]
  show ?thesis
  proof (cases "\<exists>e. r = Ready (Inl (RIo e))")
    case False
    with got have "ran S upd ps0 C True x" by simp
    with Received r ran False show ?thesis
      by (auto simp: bg_step_def bg_received_def Let_def ran_weaken split: polled.split sum.split receiver_error.split
          intro!: ran_bg_react)
  qed (use got Received r ran in \<open>auto simp: bg_step_def bg_received_def dest: ran_weaken\<close>)
next
  case (ToSend uf order)
  with ran show ?thesis
    by (auto simp: bg_step_def bg_to_send_def Let_def split: outcome.split prod.split to_send_result.split
        intro!: ran_bg_send ran_bg_finish)
qed (use assms in \<open>auto simp: bg_step_def bg_close_def Let_def split: option.split prod.split intro!: ran_bg_send ran_config\<close>)

lemma ran_bg_run:
  assumes "ran_looped S upd ps0 C r" and "\<And>cfg. Event (NewConfig (Some cfg)) \<in> set is \<Longrightarrow> C cfg"
  shows "ran_looped S upd ps0 C (bg_run (observed S) H P T (\<lambda>c. apfst (upd c)) is r)"
  using assms
proof (induction "is" arbitrary: r)
  case (Cons i "is")
  show ?case
  proof (cases r)
    case (Looping b)
    with Cons.prems have "ran_looped S upd ps0 C (bg_next (observed S) H P T (\<lambda>c. apfst (upd c)) i b)"
      by (cases i) (auto intro!: ran_bg_step)
    with Cons Looping show ?thesis by simp
  qed (use Cons.prems in simp_all)
qed simp

lemma ran_bg_start: "ran_looped S upd ps C (bg_start (observed S) (ps, [], []) h st)"
  by (simp add: bg_start_def ran_start)

text \<open>What was seen of a task, also when it has returned.\<close>

fun observation_of :: "(('ps, 'p, 'h) observation, 'p, 'st) bg looped \<Rightarrow> ('ps, 'p, 'h) observation option" where
  "observation_of (Looping b) = Some (bg_stream b)"
| "observation_of (Done res b) = Some (bg_stream b)"
| "observation_of (Crashed msg) = None"

lemma observed_shutdown:
  "snd (ps_shutdown (observed S) (ps, sent, got)) = (snd (ps_shutdown S ps), sent, got)"
  by (simp add: observed_def split: prod.split)

lemma ran_observation:
  assumes "ran_looped S upd ps0 C r" and "observation_of r = Some (ps, sent, got)"
  shows "\<exists>ps1 on. ran S upd ps0 C on (ps1, sent, got) \<and> (ps = ps1 \<or> ps = snd (ps_shutdown S ps1))"
  using assms by (cases "(S, upd, ps0, C, r)" rule: ran_looped.cases) (fastforce simp: observed_shutdown)+

lemma task_ran:
  assumes "observation_of (bg_run (observed S) H P T (\<lambda>c. apfst (upd c)) is (bg_start (observed S) (ps0, [], []) h st))
      = Some (ps, sent, got)"
  obtains ops ps1 where "run_ops S upd ops ps0 = (sent, got, ps1)" and "ps = ps1 \<or> ps = snd (ps_shutdown S ps1)"
    and "\<And>cfg. ConfigOp cfg \<in> set ops \<Longrightarrow> Event (NewConfig (Some cfg)) \<in> set is"
proof -
  have "ran_looped S upd ps0 (\<lambda>cfg. Event (NewConfig (Some cfg)) \<in> set is)
      (bg_run (observed S) H P T (\<lambda>c. apfst (upd c)) is (bg_start (observed S) (ps0, [], []) h st))"
    by (rule ran_bg_run) (rule ran_bg_start)
  from ran_observation [OF this assms] that show ?thesis
    unfolding ran_def by auto
qed

section \<open>Properties\<close>

text \<open>
  C13. Two plain connections keep order: whatever their users do, in whatever order the branches of
  the two background tasks are taken, and whichever of their reads are dropped, each task is
  given a beginning of the packets that the other has sent, each once and as it was, even if a
  write fails or the bytes that arrive end anywhere.
\<close>

theorem plain_tasks_in_order:
  assumes "int_codec N" and "action_law A" and SA: "socket_law SA in_a out_a" and SB: "socket_law SB in_b out_b"
    and a: "observation_of (bg_run (observed (plain_packet_stream SA (api_header N A) (api_packet N A plain_packet_bytes)))
        (api_header N A) (api_packet N A plain_packet_bytes) TA (\<lambda>c. apfst (plain_update_config SA c)) inputs_a
        (bg_start (observed (plain_packet_stream SA (api_header N A) (api_packet N A plain_packet_bytes)))
          (plain_stream_new SA (api_header N A) cfg_a sa sched_a, [], []) ha ta)) = Some (ps_a, sent_a, got_a)"
    and b: "observation_of (bg_run (observed (plain_packet_stream SB (api_header N A) (api_packet N A plain_packet_bytes)))
        (api_header N A) (api_packet N A plain_packet_bytes) TB (\<lambda>c. apfst (plain_update_config SB c)) inputs_b
        (bg_start (observed (plain_packet_stream SB (api_header N A) (api_packet N A plain_packet_bytes)))
          (plain_stream_new SB (api_header N A) cfg_b sb sched_b, [], []) hb tb)) = Some (ps_b, sent_b, got_b)"
    and empty: "out_a sa = []" "out_b sb = []"
    and to_b: "out_a (tr_stream (snd (pl_stream ps_a))) = in_b sb @ lost_a"
    and to_a: "out_b (tr_stream (snd (pl_stream ps_b))) = in_a sa @ lost_b"
    and ok_a: "\<forall>msg\<in>set sent_a. plain_wf HEADER_LEN (ms_bytes msg) \<and> sendable A plain_packet_bytes (cfg_body_limit cfg_b) msg"
    and ok_b: "\<forall>msg\<in>set sent_b. plain_wf HEADER_LEN (ms_bytes msg) \<and> sendable A plain_packet_bytes (cfg_body_limit cfg_a) msg"
    and limits: "\<And>cfg. Event (NewConfig (Some cfg)) \<in> set inputs_a \<Longrightarrow> cfg_body_limit cfg = cfg_body_limit cfg_a"
      "\<And>cfg. Event (NewConfig (Some cfg)) \<in> set inputs_b \<Longrightarrow> cfg_body_limit cfg = cfg_body_limit cfg_b"
  shows "(\<exists>k. got_b = map (\<lambda>msg. Ready (Inr (arrived N A plain_packet_bytes msg))) (take k sent_a))
    \<and> (\<exists>k. got_a = map (\<lambda>msg. Ready (Inr (arrived N A plain_packet_bytes msg))) (take k sent_b))"
proof -
  obtain ops_a xa where ra: "run_ops (plain_packet_stream SA (api_header N A) (api_packet N A plain_packet_bytes))
        (plain_update_config SA) ops_a (plain_stream_new SA (api_header N A) cfg_a sa sched_a) = (sent_a, got_a, xa)"
    and xa: "ps_a = xa \<or> ps_a = snd (ps_shutdown (plain_packet_stream SA (api_header N A) (api_packet N A plain_packet_bytes)) xa)"
    and ca: "\<And>cfg. ConfigOp cfg \<in> set ops_a \<Longrightarrow> Event (NewConfig (Some cfg)) \<in> set inputs_a"
    using task_ran [OF a] by blast
  obtain ops_b xb where rb: "run_ops (plain_packet_stream SB (api_header N A) (api_packet N A plain_packet_bytes))
        (plain_update_config SB) ops_b (plain_stream_new SB (api_header N A) cfg_b sb sched_b) = (sent_b, got_b, xb)"
    and xb: "ps_b = xb \<or> ps_b = snd (ps_shutdown (plain_packet_stream SB (api_header N A) (api_packet N A plain_packet_bytes)) xb)"
    and cb: "\<And>cfg. ConfigOp cfg \<in> set ops_b \<Longrightarrow> Event (NewConfig (Some cfg)) \<in> set inputs_b"
    using task_ran [OF b] by blast
  have "out_a (tr_stream (snd (pl_stream xa))) = in_b sb @ lost_a"
    using xa to_b by (auto simp: socket_law.shutdown_outgoing(1) [OF SA, unfolded timed_parts [OF SA]])
  moreover have "out_b (tr_stream (snd (pl_stream xb))) = in_a sa @ lost_b"
    using xb to_a by (auto simp: socket_law.shutdown_outgoing(1) [OF SB, unfolded timed_parts [OF SB]])
  ultimately show ?thesis
    using plain_one_way [OF assms(1,2) SA SB ra rb empty(1) _ ok_a] plain_one_way [OF assms(1,2) SB SA rb ra empty(2) _ ok_b]
      limits ca cb by blast
qed

text \<open>
  C1. Two encrypted connections keep order: a client and a server that have done the handshake over
  their byte streams hold the same keys, crossed, and whatever happens then, each task is given
  a beginning of the messages that the other has sent, each once and with the header and the
  body it was sent with.
\<close>

theorem encrypted_tasks_in_order:
  assumes "key_exchange CR" and "array_cursor CS data pos" and "cipher C OFFSET" and "int_codec N" and "action_law A"
    and SC: "exact_socket SC in_c out_c exact_c" and SS: "exact_socket SS in_s out_s exact_s"
    and client: "encrypted_client OFFSET CS CR exact_c SC debug (api_header N A) sc vk cfg_c sched_c wc = (Returned (Inr pc), wc')"
    and server: "encrypted_server OFFSET CS CR exact_s SS debug (api_header N A) ss sk cfg_s sched_s ws = (Returned (Inr ps), ws')"
    and c: "observation_of (bg_run (observed (encrypted_packet_stream OFFSET C SC (api_header N A) (api_packet N A (enc_packet_bytes OFFSET))))
        (api_header N A) (api_packet N A (enc_packet_bytes OFFSET)) TC (\<lambda>c. apfst (encrypted_update_config SC c)) inputs_c
        (bg_start (observed (encrypted_packet_stream OFFSET C SC (api_header N A) (api_packet N A (enc_packet_bytes OFFSET))))
          (pc, [], []) hc tc)) = Some (pc', sent_c, got_c)"
    and s: "observation_of (bg_run (observed (encrypted_packet_stream OFFSET C SS (api_header N A) (api_packet N A (enc_packet_bytes OFFSET))))
        (api_header N A) (api_packet N A (enc_packet_bytes OFFSET)) TS (\<lambda>c. apfst (encrypted_update_config SS c)) inputs_s
        (bg_start (observed (encrypted_packet_stream OFFSET C SS (api_header N A) (api_packet N A (enc_packet_bytes OFFSET))))
          (ps, [], []) hs ts)) = Some (ps', sent_s, got_s)"
    and empty: "out_c sc = []" "out_s ss = []"
    and to_s: "out_c (tr_stream (snd (es_stream pc'))) = in_s ss @ lost_c"
    and to_c: "out_s (tr_stream (snd (es_stream ps'))) = in_c sc @ lost_s"
    and ok_c: "\<forall>msg\<in>set sent_c. enc_wf OFFSET HEADER_LEN (ms_bytes msg) \<and> sendable A (enc_packet_bytes OFFSET) (cfg_body_limit cfg_s) msg"
    and ok_s: "\<forall>msg\<in>set sent_s. enc_wf OFFSET HEADER_LEN (ms_bytes msg) \<and> sendable A (enc_packet_bytes OFFSET) (cfg_body_limit cfg_c) msg"
    and limits: "\<And>cfg. Event (NewConfig (Some cfg)) \<in> set inputs_c \<Longrightarrow> cfg_body_limit cfg = cfg_body_limit cfg_c"
      "\<And>cfg. Event (NewConfig (Some cfg)) \<in> set inputs_s \<Longrightarrow> cfg_body_limit cfg = cfg_body_limit cfg_s"
  shows "received_of (enc_packet_bytes OFFSET) got_s sent_c \<and> received_of (enc_packet_bytes OFFSET) got_c sent_s
    \<and> es_recv_key ps = es_send_key pc \<and> es_recv_key pc = es_send_key ps"
proof -
  note LC = exact_socket.axioms(1) [OF SC] and LS = exact_socket.axioms(1) [OF SS]
  obtain ops_c xc where rc: "run_ops (encrypted_packet_stream OFFSET C SC (api_header N A) (api_packet N A (enc_packet_bytes OFFSET)))
        (encrypted_update_config SC) ops_c pc = (sent_c, got_c, xc)"
    and xc: "pc' = xc \<or> pc' = snd (ps_shutdown (encrypted_packet_stream OFFSET C SC (api_header N A) (api_packet N A (enc_packet_bytes OFFSET))) xc)"
    and cc: "\<And>cfg. ConfigOp cfg \<in> set ops_c \<Longrightarrow> Event (NewConfig (Some cfg)) \<in> set inputs_c"
    using task_ran [OF c] by blast
  obtain ops_s xs where rs: "run_ops (encrypted_packet_stream OFFSET C SS (api_header N A) (api_packet N A (enc_packet_bytes OFFSET)))
        (encrypted_update_config SS) ops_s ps = (sent_s, got_s, xs)"
    and xs: "ps' = xs \<or> ps' = snd (ps_shutdown (encrypted_packet_stream OFFSET C SS (api_header N A) (api_packet N A (enc_packet_bytes OFFSET))) xs)"
    and cs: "\<And>cfg. ConfigOp cfg \<in> set ops_s \<Longrightarrow> Event (NewConfig (Some cfg)) \<in> set inputs_s"
    using task_ran [OF s] by blast
  have out: "out_c (tr_stream (snd (es_stream xc))) = in_s ss @ lost_c" "out_s (tr_stream (snd (es_stream xs))) = in_c sc @ lost_s"
    using xc to_s xs to_c
    by (auto simp: socket_law.shutdown_outgoing(2) [OF LC, unfolded timed_parts [OF LC]]
        socket_law.shutdown_outgoing(2) [OF LS, unfolded timed_parts [OF LS]])
  show ?thesis
    by (rule session_both_ways [OF assms(1-5) SC SS client server rc rs empty out ok_c ok_s limits(1) [OF cc] limits(2) [OF cs]])
qed

section \<open>The properties on concrete values\<close>

lemma bg_start_Looping:
  "ping_period (ps_timeout S ps) \<noteq> 0 \<Longrightarrow> bg_start S ps h st = Looping \<lparr>bg_stream = ps, bg_handler = h, bg_runtime = st,
    bg_should_close = False, bg_close_packet = None\<rparr>"
  by (simp add: bg_start_def)

lemma test_ping_period: "ping_period (cfg_timeout test_config) \<noteq> 0"
  by (simp add: ping_period_def secs_def test_config_def)

text \<open>A plain task on the byte stream with the given inbox; what it wrote.\<close>

definition plain_task where
  "plain_task inputs inbox sched reqs is_server =
     bg_run (observed (plain_packet_stream test_socket (api_header be_ints some_action) (api_packet be_ints some_action plain_packet_bytes)))
       (api_header be_ints some_action) (api_packet be_ints some_action plain_packet_bytes) log_tokio
       (\<lambda>c. apfst (plain_update_config test_socket c)) inputs
       (bg_start (observed (plain_packet_stream test_socket (api_header be_ints some_action) (api_packet be_ints some_action plain_packet_bytes)))
         (plain_stream_new test_socket (api_header be_ints some_action) test_config (inbox, []) sched, [], []) (handler_new is_server) (0, reqs, []))"

lemma plain_task_code [code]:
  "plain_task inputs inbox sched reqs is_server =
     bg_run (observed (plain_packet_stream test_socket (api_header be_ints some_action) (api_packet be_ints some_action plain_packet_bytes)))
       (api_header be_ints some_action) (api_packet be_ints some_action plain_packet_bytes) log_tokio
       (\<lambda>c. apfst (plain_update_config test_socket c)) inputs
       (Looping \<lparr>bg_stream = (plain_stream_new test_socket (api_header be_ints some_action) test_config (inbox, []) sched, [], []),
         bg_handler = handler_new is_server, bg_runtime = (0, reqs, []), bg_should_close = False, bg_close_packet = None\<rparr>)"
proof -
  have "ps_timeout (observed (plain_packet_stream test_socket (api_header be_ints some_action) (api_packet be_ints some_action plain_packet_bytes)))
      (plain_stream_new test_socket (api_header be_ints some_action) test_config (inbox, []) sched, [], []) = cfg_timeout test_config"
    by (simp add: observed_def plain_packet_stream_def plain_stream_new_def timed_new_def timeout_new_def)
  then show ?thesis
    unfolding plain_task_def by (subst bg_start_Looping) (simp_all add: test_ping_period)
qed

definition plain_inputs_a :: "(config, nat \<times> (some_action, plain_bytes) message internal_request list
    \<times> (chan \<times> (request_error + (some_action, plain_bytes) message)) list) bg_input list" where
  "plain_inputs_a = [Event (ToSend False []), Event (Received ([], [])), Event (Received ([], [])), Event PingTick]"

definition plain_inputs_b :: "(config, nat \<times> (some_action, plain_bytes) message internal_request list
    \<times> (chan \<times> (request_error + (some_action, plain_bytes) message)) list) bg_input list" where
  "plain_inputs_b = [Event PingTick, Event (Received ([], [])), Event (NewConfig (Some test_config)), Event (Received ([], [])),
     Event (Received ([], []))]"

text \<open>A request and a ping, and a ping.\<close>

definition wrote_a :: "byte list" where
  "wrote_a = [0, 0, 0, 3, 16, 1, 0, 0, 0, 0, 0, 2, 10, 20, 30] @ [0, 0, 0, 0, 144, 1, 0, 0, 0, 0, 0, 0]"

definition wrote_b :: "byte list" where
  "wrote_b = [0, 0, 0, 0, 144, 1, 0, 0, 0, 0, 0, 0]"

definition plain_a where
  "plain_a = plain_task plain_inputs_a ([0, 1], wrote_b) [Some 1, None, Some 2, Some 3, Some 4, Some 4, Some 5, Some 6] [IRequest plain_example 4] False"

definition plain_b where
  "plain_b = plain_task plain_inputs_b ([], take 20 wrote_a) [Some 1, Some 2, None, Some 4] [] True"

fun observed_out :: "(('s, 'h) plain_stream, 'p, 'h) observation option \<Rightarrow> 's option" where
  "observed_out (Some (ps, sent, got)) = Some (tr_stream (snd (pl_stream ps)))"
| "observed_out None = None"

fun observed_sent :: "('ps, 'p, 'h) observation option \<Rightarrow> 'p list" where
  "observed_sent (Some (ps, sent, got)) = sent"
| "observed_sent None = []"

fun observed_got :: "('ps, 'p, 'h) observation option \<Rightarrow> ('h receiver_error + 'p) polled list" where
  "observed_got (Some (ps, sent, got)) = got"
| "observed_got None = []"

lemma plain_tasks_wrote:
  "map_option snd (observed_out (observation_of plain_a)) = Some wrote_a"
  "map_option snd (observed_out (observation_of plain_b)) = Some wrote_b"
  by code_simp+

lemma plain_tasks_got: "length (observed_got (observation_of plain_a)) = 1" "length (observed_got (observation_of plain_b)) = 1"
  by code_simp+

lemma plain_tasks_sent:
  "list_all (\<lambda>m. plain_wf HEADER_LEN (ms_bytes m) \<and> length (plain_body (ms_bytes m)) \<le> 5
      \<and> maybe_action_ok some_action (hd_action (ms_header m))) (observed_sent (observation_of plain_a))"
  "list_all (\<lambda>m. plain_wf HEADER_LEN (ms_bytes m) \<and> length (plain_body (ms_bytes m)) \<le> 5
      \<and> maybe_action_ok some_action (hd_action (ms_header m))) (observed_sent (observation_of plain_b))"
  by code_simp+

lemma small_sendable:
  "maybe_action_ok some_action (hd_action (ms_header m)) \<Longrightarrow> length (pb_body B (ms_bytes m)) \<le> 5
    \<Longrightarrow> sendable some_action B (cfg_body_limit test_config) m"
  by (simp add: sendable_def header_fits_def some_action_def test_config_def)

lemma observation_parts:
  "x \<noteq> None \<Longrightarrow> x = Some (fst (the x), observed_sent x, observed_got x)"
  by (cases x) auto

text \<open>The same for an encrypted connection.\<close>

definition encrypted_task where
  "encrypted_task inputs reqs is_server ps =
     bg_run (observed (encrypted_packet_stream 1 light_cipher test_socket (api_header be_ints some_action) (api_packet be_ints some_action (enc_packet_bytes 1))))
       (api_header be_ints some_action) (api_packet be_ints some_action (enc_packet_bytes 1)) log_tokio
       (\<lambda>c. apfst (encrypted_update_config test_socket c)) inputs
       (bg_start (observed (encrypted_packet_stream 1 light_cipher test_socket (api_header be_ints some_action) (api_packet be_ints some_action (enc_packet_bytes 1))))
         (ps, [], []) (handler_new is_server) (0, reqs, []))"

text \<open>Without the check of the ping period, which is not zero.\<close>

definition encrypted_loop where
  "encrypted_loop inputs reqs is_server ps =
     bg_run (observed (encrypted_packet_stream 1 light_cipher test_socket (api_header be_ints some_action) (api_packet be_ints some_action (enc_packet_bytes 1))))
       (api_header be_ints some_action) (api_packet be_ints some_action (enc_packet_bytes 1)) log_tokio
       (\<lambda>c. apfst (encrypted_update_config test_socket c)) inputs
       (Looping \<lparr>bg_stream = (ps, [], []), bg_handler = handler_new is_server, bg_runtime = (0, reqs, []),
         bg_should_close = False, bg_close_packet = None\<rparr>)"

lemma encrypted_task_loop:
  assumes "tr_timeout (snd (es_stream ps)) = 1000"
  shows "encrypted_task inputs reqs is_server ps = encrypted_loop inputs reqs is_server ps"
proof -
  have "ps_timeout (observed (encrypted_packet_stream 1 light_cipher test_socket (api_header be_ints some_action) (api_packet be_ints some_action (enc_packet_bytes 1))))
      (ps, [], []) = cfg_timeout test_config"
    by (simp add: observed_def encrypted_packet_stream_def assms test_config_def)
  then show ?thesis
    unfolding encrypted_task_def encrypted_loop_def by (subst bg_start_Looping) (simp_all add: test_ping_period)
qed

definition encrypted_inputs_c :: "(config, nat \<times> (some_action, encrypted_bytes) message internal_request list
    \<times> (chan \<times> (request_error + (some_action, encrypted_bytes) message)) list) bg_input list" where
  "encrypted_inputs_c = [Event (ToSend False []), Event (Received ([], [])), Event (Received ([], []))]"

definition encrypted_inputs_s :: "(config, nat \<times> (some_action, encrypted_bytes) message internal_request list
    \<times> (chan \<times> (request_error + (some_action, encrypted_bytes) message)) list) bg_input list" where
  "encrypted_inputs_s = [Event PingTick, Event (Received ([], [])), Event (Received ([], []))]"

text \<open>A key and a request; the answer of the handshake and a ping.\<close>

definition client_wrote :: "byte list" where
  "client_wrote = [2] @ [5, 5, 5, 5, 4, 21, 4, 5, 5, 5, 5, 5, 4] @ [6, 12]"

definition server_wrote :: "byte list" where
  "server_wrote = [1, 2, 3, 7, 15] @ [4, 4, 4, 4, 4, 148, 5, 4, 4, 4, 4, 4, 4]"

definition session_client where
  "session_client = encrypted_client 1 pair_cursor toy_crypto test_exact test_socket True (api_header be_ints some_action)
     (([0, 1], server_wrote), []) 7 test_config [Some 1, None, Some 2, Some 3, Some 4, Some 4] 2"

definition session_server where
  "session_server = encrypted_server 1 pair_cursor toy_crypto test_exact test_socket True (api_header be_ints some_action)
     (([], client_wrote), []) 7 test_config [None, Some 1, Some 1, Some 2, Some 2] 1"

fun started :: "('e + 'a) outcome \<times> 'w \<Rightarrow> 'a option" where
  "started (Returned (Inr x), w) = Some x"
| "started _ = None"

definition client_ran where
  "client_ran = encrypted_loop encrypted_inputs_c [IRequest small_message 4] False (the (started session_client))"

definition server_ran where
  "server_ran = encrypted_loop encrypted_inputs_s [] True (the (started session_server))"

lemma startedD: "started r \<noteq> None \<Longrightarrow> r = (Returned (Inr (the (started r))), snd r)"
  by (cases r rule: started.cases) simp_all

lemma session_started:
  "map_option (tr_timeout \<circ> snd \<circ> es_stream) (started session_client) = Some 1000"
  "map_option (tr_timeout \<circ> snd \<circ> es_stream) (started session_server) = Some 1000"
  by code_simp+

fun encrypted_out :: "(('s, 'h, 'k) encrypted_stream, 'p, 'h) observation option \<Rightarrow> 's option" where
  "encrypted_out (Some (ps, sent, got)) = Some (tr_stream (snd (es_stream ps)))"
| "encrypted_out None = None"

lemma encrypted_tasks_wrote:
  "map_option snd (encrypted_out (observation_of client_ran)) = Some client_wrote"
  "map_option snd (encrypted_out (observation_of server_ran)) = Some server_wrote"
  by code_simp+

lemma encrypted_tasks_got: "length (observed_got (observation_of client_ran)) = 1" "length (observed_got (observation_of server_ran)) = 1"
  by code_simp+

lemma encrypted_tasks_sent:
  "list_all (\<lambda>m. enc_wf 1 HEADER_LEN (ms_bytes m) \<and> length (enc_body 1 (ms_bytes m)) \<le> 5
      \<and> maybe_action_ok some_action (hd_action (ms_header m))) (observed_sent (observation_of client_ran))"
  "list_all (\<lambda>m. enc_wf 1 HEADER_LEN (ms_bytes m) \<and> length (enc_body 1 (ms_bytes m)) \<le> 5
      \<and> maybe_action_ok some_action (hd_action (ms_header m))) (observed_sent (observation_of server_ran))"
  by code_simp+

lemma map_option_SomeD: "map_option f x = Some y \<Longrightarrow> x \<noteq> None \<and> f (the x) = y"
  by auto

lemma observed_outD:
  "map_option snd (observed_out x) = Some bs \<Longrightarrow> x \<noteq> None \<and> snd (tr_stream (snd (pl_stream (fst (the x))))) = bs"
  by (cases x) auto

lemma encrypted_outD:
  "map_option snd (encrypted_out x) = Some bs \<Longrightarrow> x \<noteq> None \<and> snd (tr_stream (snd (es_stream (fst (the x))))) = bs"
  by (cases x) auto

theorem plain_tasks_in_order_witness:
  "(\<exists>k. observed_got (observation_of plain_b)
      = map (\<lambda>msg. Ready (Inr (arrived be_ints some_action plain_packet_bytes msg))) (take k (observed_sent (observation_of plain_a))))
    \<and> (\<exists>k. observed_got (observation_of plain_a)
      = map (\<lambda>msg. Ready (Inr (arrived be_ints some_action plain_packet_bytes msg))) (take k (observed_sent (observation_of plain_b))))"
proof (rule plain_tasks_in_order [OF be.int_codec_axioms some_action_law test_socket.socket_law_axioms test_socket.socket_law_axioms])
  note wrote = plain_tasks_wrote [THEN observed_outD]
  note none = wrote [THEN conjunct1]
  show "observation_of (bg_run (observed (plain_packet_stream test_socket (api_header be_ints some_action) (api_packet be_ints some_action plain_packet_bytes)))
       (api_header be_ints some_action) (api_packet be_ints some_action plain_packet_bytes) log_tokio
       (\<lambda>c. apfst (plain_update_config test_socket c)) plain_inputs_a
       (bg_start (observed (plain_packet_stream test_socket (api_header be_ints some_action) (api_packet be_ints some_action plain_packet_bytes)))
         (plain_stream_new test_socket (api_header be_ints some_action) test_config (([0, 1], wrote_b), [])
           [Some 1, None, Some 2, Some 3, Some 4, Some 4, Some 5, Some 6], [], []) (handler_new False) (0, [IRequest plain_example 4], [])))
    = Some (fst (the (observation_of plain_a)), observed_sent (observation_of plain_a), observed_got (observation_of plain_a))"
    using observation_parts [OF none(1)] by (simp only: plain_a_def plain_task_def)
  show "observation_of (bg_run (observed (plain_packet_stream test_socket (api_header be_ints some_action) (api_packet be_ints some_action plain_packet_bytes)))
       (api_header be_ints some_action) (api_packet be_ints some_action plain_packet_bytes) log_tokio
       (\<lambda>c. apfst (plain_update_config test_socket c)) plain_inputs_b
       (bg_start (observed (plain_packet_stream test_socket (api_header be_ints some_action) (api_packet be_ints some_action plain_packet_bytes)))
         (plain_stream_new test_socket (api_header be_ints some_action) test_config (([], take 20 wrote_a), [])
           [Some 1, Some 2, None, Some 4], [], []) (handler_new True) (0, [], [])))
    = Some (fst (the (observation_of plain_b)), observed_sent (observation_of plain_b), observed_got (observation_of plain_b))"
    using observation_parts [OF none(2)] by (simp only: plain_b_def plain_task_def)
  show "snd (tr_stream (snd (pl_stream (fst (the (observation_of plain_a)))))) = snd (fst (([] :: nat list, take 20 wrote_a), [] :: byte list)) @ drop 20 wrote_a"
    "snd (tr_stream (snd (pl_stream (fst (the (observation_of plain_b)))))) = snd (fst (([0, 1] :: nat list, wrote_b), [] :: byte list)) @ []"
    using wrote by simp_all
qed (use plain_tasks_sent in \<open>auto simp: list_all_iff small_sendable plain_views plain_inputs_a_def plain_inputs_b_def\<close>)

theorem encrypted_tasks_in_order_witness:
  "received_of (enc_packet_bytes 1) (observed_got (observation_of server_ran)) (observed_sent (observation_of client_ran))
    \<and> received_of (enc_packet_bytes 1) (observed_got (observation_of client_ran)) (observed_sent (observation_of server_ran))
    \<and> es_recv_key (the (started session_server)) = es_send_key (the (started session_client))
    \<and> es_recv_key (the (started session_client)) = es_send_key (the (started session_server))"
proof (rule encrypted_tasks_in_order [OF toy.key_exchange_axioms pair.array_cursor_axioms light_cipher.cipher_axioms
      be.int_codec_axioms some_action_law test_exact.exact_socket_axioms test_exact.exact_socket_axioms])
  note started = session_started [THEN map_option_SomeD]
  note wrote = encrypted_tasks_wrote [THEN encrypted_outD]
  note none = wrote [THEN conjunct1]
  show "encrypted_client 1 pair_cursor toy_crypto test_exact test_socket True (api_header be_ints some_action)
     (([0, 1], server_wrote), []) 7 test_config [Some 1, None, Some 2, Some 3, Some 4, Some 4] 2
    = (Returned (Inr (the (started session_client))), snd session_client)"
    using startedD [OF conjunct1 [OF started(1)]] by (simp only: session_client_def)
  show "encrypted_server 1 pair_cursor toy_crypto test_exact test_socket True (api_header be_ints some_action)
     (([], client_wrote), []) 7 test_config [None, Some 1, Some 1, Some 2, Some 2] 1
    = (Returned (Inr (the (started session_server))), snd session_server)"
    using startedD [OF conjunct1 [OF started(2)]] by (simp only: session_server_def)
  have loop: "client_ran = encrypted_task encrypted_inputs_c [IRequest small_message 4] False (the (started session_client))"
    "server_ran = encrypted_task encrypted_inputs_s [] True (the (started session_server))"
    using started by (simp_all add: client_ran_def server_ran_def encrypted_task_loop)
  show "observation_of (bg_run (observed (encrypted_packet_stream 1 light_cipher test_socket (api_header be_ints some_action) (api_packet be_ints some_action (enc_packet_bytes 1))))
       (api_header be_ints some_action) (api_packet be_ints some_action (enc_packet_bytes 1)) log_tokio
       (\<lambda>c. apfst (encrypted_update_config test_socket c)) encrypted_inputs_c
       (bg_start (observed (encrypted_packet_stream 1 light_cipher test_socket (api_header be_ints some_action) (api_packet be_ints some_action (enc_packet_bytes 1))))
         (the (started session_client), [], []) (handler_new False) (0, [IRequest small_message 4], [])))
    = Some (fst (the (observation_of client_ran)), observed_sent (observation_of client_ran), observed_got (observation_of client_ran))"
    using observation_parts [OF none(1)] by (simp only: loop encrypted_task_def)
  show "observation_of (bg_run (observed (encrypted_packet_stream 1 light_cipher test_socket (api_header be_ints some_action) (api_packet be_ints some_action (enc_packet_bytes 1))))
       (api_header be_ints some_action) (api_packet be_ints some_action (enc_packet_bytes 1)) log_tokio
       (\<lambda>c. apfst (encrypted_update_config test_socket c)) encrypted_inputs_s
       (bg_start (observed (encrypted_packet_stream 1 light_cipher test_socket (api_header be_ints some_action) (api_packet be_ints some_action (enc_packet_bytes 1))))
         (the (started session_server), [], []) (handler_new True) (0, [], [])))
    = Some (fst (the (observation_of server_ran)), observed_sent (observation_of server_ran), observed_got (observation_of server_ran))"
    using observation_parts [OF none(2)] by (simp only: loop encrypted_task_def)
  show "snd (tr_stream (snd (es_stream (fst (the (observation_of client_ran)))))) = snd (fst (([] :: nat list, client_wrote), [] :: byte list)) @ []"
    "snd (tr_stream (snd (es_stream (fst (the (observation_of server_ran)))))) = snd (fst (([0, 1] :: nat list, server_wrote), [] :: byte list)) @ []"
    using wrote by simp_all
qed (use encrypted_tasks_sent in \<open>auto simp: list_all_iff small_sendable enc_views' encrypted_inputs_c_def encrypted_inputs_s_def\<close>)

end
