(* ===== verification/Reconnect_Props.thy ===== *)
theory Reconnect_Props
  imports Endpoint_Props Startup Connected_Props Closing_Props
begin

text \<open>
  What a reconnect does to server requests: the client's handler and its connection keep them, but
  the packet that enables them is not sent on the new stream.
\<close>

section \<open>The channel to the handler\<close>

text \<open>
  \<open>unsent\<close> are the requests that the handler has not taken from its channel. Only \<open>ch_requests_send\<close>
  adds to them, and what the handler takes was there.
\<close>

locale request_pending =
  fixes T :: "('st, 'p) tokio" and C :: "('st, 'p) channels" and unsent :: "'st \<Rightarrow> 'p internal_request set"
  assumes ch_sent: "unsent (snd (ch_requests_send C req st)) \<subseteq> insert req (unsent st)"
    and ch_oneshot: "unsent (snd (ch_oneshot C st)) \<subseteq> unsent st"
    and ch_response: "unsent (snd (ch_response C c st)) \<subseteq> unsent st"
    and ch_mpsc: "unsent (snd (ch_mpsc C n st)) \<subseteq> unsent st"
    and was_waiting: "fst (tk_requests_poll T st) = PollSome req \<Longrightarrow> req \<in> unsent st"
    and requests_send: "unsent (snd (tk_requests_send T ureq st)) \<subseteq> unsent st"
    and oneshot: "unsent (snd (tk_oneshot T st)) \<subseteq> unsent st"
    and oneshot_poll: "unsent (snd (tk_oneshot_poll T c st)) \<subseteq> unsent st"
    and oneshot_close: "unsent (tk_oneshot_close T c st) \<subseteq> unsent st"
    and response_send: "unsent (snd (tk_response_send T c r st)) \<subseteq> unsent st"
    and mpsc: "unsent (snd (tk_mpsc T n st)) \<subseteq> unsent st"
    and stream_send: "unsent (snd (tk_stream_send T c p st)) \<subseteq> unsent st"
    and stream_poll: "unsent (snd (tk_stream_poll T c st)) \<subseteq> unsent st"
    and stream_close: "unsent (tk_stream_close T c st) \<subseteq> unsent st"
    and drop_sender: "unsent (tk_drop_sender T c st) \<subseteq> unsent st"
    and requests_poll: "unsent (snd (tk_requests_poll T st)) \<subseteq> unsent st"
    and requests_close: "unsent (tk_requests_close T st) \<subseteq> unsent st"

sublocale request_pending \<subseteq> taken: runtime_keeps T "\<lambda>st. IEnableServerRequests \<notin> unsent st" True
  by unfold_locales
    (auto dest: subsetD [OF requests_send] subsetD [OF oneshot] subsetD [OF oneshot_poll] subsetD [OF oneshot_close]
      subsetD [OF response_send] subsetD [OF mpsc] subsetD [OF stream_send] subsetD [OF stream_poll]
      subsetD [OF stream_close] subsetD [OF drop_sender] subsetD [OF requests_poll] subsetD [OF requests_close])

section \<open>The users of a client\<close>

text \<open>
  What the users of a client's connection do: the three kinds of requests, attaching handlers
  again, and whatever does not queue a request.
\<close>

inductive client_uses ::
    "('st, 'p) channels \<Rightarrow> type_id \<Rightarrow> 'v \<Rightarrow> ('v session \<Rightarrow> 'st \<Rightarrow> 'st) \<Rightarrow> ('st \<Rightarrow> 'p internal_request set)
      \<Rightarrow> client_connection \<Rightarrow> 'st \<Rightarrow> 'st \<Rightarrow> bool"
  for C D configurator spawn unsent con where
  request: "client_con_request C con packet st = (r, st') \<Longrightarrow> client_uses C D configurator spawn unsent con st st'"
| request_sender: "client_con_request_sender C con packet st = (s, st') \<Longrightarrow>
    client_uses C D configurator spawn unsent con st st'"
| request_receiver: "client_con_request_receiver C con packet st = (s, st') \<Longrightarrow>
    client_uses C D configurator spawn unsent con st st'"
| attach: "attach_request_handlers C D configurator spawn con st = (res, con', st') \<Longrightarrow>
    client_uses C D configurator spawn unsent con st st'"
| other: "unsent st' \<subseteq> unsent st \<Longrightarrow> client_uses C D configurator spawn unsent con st st'"

text \<open>Handlers are attached: server requests are enabled and the receiver is taken.\<close>

definition attached :: "client_connection \<Rightarrow> bool" where
  "attached con \<longleftrightarrow> cc_receiver_enabled con \<and> \<not> cc_receiver con"

lemma attach_attaches:
  "attach_request_handlers C D configurator spawn con st = (Ready (Inr ()), con', st') \<Longrightarrow> attached con'"
  by (auto simp: attached_def attach_request_handlers_def Let_def client_take_receiver_def
      client_enable_server_requests_def client_is_server_requests_enabled_def
      split: prod.splits polled.splits sum.splits outcome.splits bool.splits if_splits)

lemma attach_again:
  "attached con \<Longrightarrow> attach_request_handlers C D configurator spawn con st = (Panicked, con, st)"
  by (simp add: attached_def attach_request_handlers_def client_is_server_requests_enabled_def client_take_receiver_def)

context request_pending
begin

lemma channels_keep:
  "ch_requests_send C req st = (b, st') \<Longrightarrow> req \<noteq> IEnableServerRequests \<Longrightarrow> IEnableServerRequests \<notin> unsent st
    \<Longrightarrow> IEnableServerRequests \<notin> unsent st'"
  "ch_oneshot C st = (c, st') \<Longrightarrow> IEnableServerRequests \<notin> unsent st \<Longrightarrow> IEnableServerRequests \<notin> unsent st'"
  "ch_response C c st = (r, st') \<Longrightarrow> IEnableServerRequests \<notin> unsent st \<Longrightarrow> IEnableServerRequests \<notin> unsent st'"
  "ch_mpsc C n st = (c, st') \<Longrightarrow> IEnableServerRequests \<notin> unsent st \<Longrightarrow> IEnableServerRequests \<notin> unsent st'"
  using ch_sent [of req st] ch_oneshot [of st] ch_response [of c st] ch_mpsc [of n st] by auto

text \<open>The users of a client with attached handlers do not ask for server requests again.\<close>

lemma uses_keep:
  assumes "client_uses C D configurator spawn unsent con st st'" and "attached con"
    and "IEnableServerRequests \<notin> unsent st"
  shows "IEnableServerRequests \<notin> unsent st'"
  using assms
proof (induction rule: client_uses.induct)
  case (request packet st r st')
  then show ?case
    by (auto simp: client_con_request_def sender_request_def await_def Let_def
        split: prod.splits polled.splits if_splits dest: channels_keep)
next
  case (attach st res con' st')
  then show ?case by (simp add: attach_again)
qed (auto simp: client_con_request_sender_def client_con_request_receiver_def sender_request_sender_def
    sender_request_receiver_def await_def Let_def split: prod.splits polled.splits dest: channels_keep)

end

section \<open>What the client sends\<close>

text \<open>The packets that were given to a recorded stream.\<close>

fun sent_log :: "('ps \<times> 'p list, 'p, 'st) bg looped \<Rightarrow> 'p list" where
  "sent_log (Looping b) = snd (bg_stream b)"
| "sent_log (Done r b) = snd (bg_stream b)"
| "sent_log (Crashed msg) = []"

text \<open>Nothing that enables server requests was sent, or is still to be sent.\<close>

definition not_enabling :: "'h packet_header \<Rightarrow> ('p, 'h, 'b) packet \<Rightarrow> 'p list \<Rightarrow> bool" where
  "not_enabling H P ps \<longleftrightarrow> (\<forall>p \<in> set ps. kind_of H P p \<noteq> KEnableServerRequests)"

fun quiet ::
    "'h packet_header \<Rightarrow> ('p, 'h, 'b) packet \<Rightarrow> ('st \<Rightarrow> 'p internal_request set) \<Rightarrow> ('ps \<times> 'p list, 'p, 'st) bg looped \<Rightarrow> bool" where
  "quiet H P unsent (Looping b) \<longleftrightarrow> not_enabling H P (snd (bg_stream b))
     \<and> IEnableServerRequests \<notin> unsent (bg_runtime b) \<and> (\<forall>p. bg_close_packet b = Some p \<longrightarrow> kind_of H P p \<noteq> KEnableServerRequests)"
| "quiet H P unsent r \<longleftrightarrow> not_enabling H P (sent_log r)"

context request_pending
begin

lemma start_quiet:
  assumes "packet_laws H P" and "request_branch H P T can h st = Returned (Taken (Some p), h', st')"
    and "IEnableServerRequests \<notin> unsent st"
  shows "kind_of H P p \<noteq> KEnableServerRequests"
proof -
  from assms(2) obtain req st1 where req: "tk_requests_poll T st = (PollSome req, st1)"
    and p: "start_request H P T req h st1 = Returned (Some p, h', st')"
    by (auto simp: request_branch_def split: if_splits prod.splits poll_result.splits outcome.splits)
  have "req \<noteq> IEnableServerRequests" using was_waiting [of st req] req assms(3) by auto
  with packet_laws.started_kind [OF assms(1) p] show ?thesis by (cases req) simp_all
qed

lemma to_send_quiet:
  assumes "packet_laws H P" and "handler_to_send H P T user_first order h st = Returned (SendThis p, h', st')"
    and "IEnableServerRequests \<notin> unsent st"
  shows "kind_of H P p \<noteq> KEnableServerRequests"
proof -
  obtain u h1 st1 where u: "user_branch H P T order h st = (u, h1, st1)" by (metis prod_cases3)
  note quiet = assms(3) taken.keep_user_branch [OF u assms(3)]
  note kinds = packet_laws.branch_kind [OF assms(1)] start_quiet [OF assms(1)]
  let ?c = "can_send_requests (h_state h)"
  show ?thesis
  proof (cases user_first)
    case True
    with assms(2) u quiet show ?thesis
      by (cases u; cases "request_branch H P T ?c h1 st1")
        (auto simp: handler_to_send_def sent_packet_This split: branch.splits if_splits dest: kinds)
  next
    case False
    with assms(2) quiet show ?thesis
      by (cases "request_branch H P T ?c h st")
        (auto simp: handler_to_send_def sent_packet_This split: branch.splits if_splits prod.splits dest: kinds)
  qed
qed

lemma quiet_send:
  assumes "quiet H P unsent (Looping b)" and "kind_of H P p \<noteq> KEnableServerRequests"
  shows "quiet H P unsent (bg_send (recorded S) p b)"
  using assms by (cases "bg_stream b") (auto simp: bg_send_def recorded_def not_enabling_def split: prod.split sum.split)

lemma quiet_close:
  assumes "packet_laws H P" and "quiet H P unsent (Looping b)"
  shows "quiet H P unsent (Looping (bg_close H P T orders with_packet b))"
proof -
  obtain p h st where close: "handler_close H P T orders (bg_handler b) (bg_runtime b) = (p, h, st)"
    by (metis prod_cases3)
  with taken.keep_close [of "bg_runtime b" H P orders "bg_handler b"] packet_laws.closing_kind [OF assms(1) close] assms(2)
  show ?thesis by (auto simp: bg_close_def Let_def)
qed

lemma quiet_react:
  assumes "packet_laws H P" and "quiet H P unsent (Looping b)" and "IEnableServerRequests \<notin> unsent (snd (snd reaction))"
    and "\<And>p h st. reaction = (Inr (SendPacket p), h, st) \<Longrightarrow> kind_of H P p \<noteq> KEnableServerRequests"
  shows "quiet H P unsent (bg_react (recorded S) H P T orders reaction b)"
proof -
  obtain res h st where r: "reaction = (res, h, st)" by (cases reaction)
  have b: "quiet H P unsent (Looping (b\<lparr>bg_handler := h, bg_runtime := st\<rparr>))"
    using assms(2,3) r by simp
  show ?thesis
  proof (cases res)
    case (Inr sb)
    with r assms(4) quiet_close [OF assms(1) b] show ?thesis
      by (cases sb) (simp_all add: bg_react_def b quiet_send [OF b] del: quiet.simps(1))
  qed (use b r in \<open>simp add: bg_react_def\<close>)
qed

lemma quiet_received:
  assumes laws: "packet_laws H P" and "quiet H P unsent (Looping b)"
  shows "quiet H P unsent (bg_received (recorded S) H P T orders b)"
proof -
  obtain r ps where r: "ps_receive S (fst (bg_stream b)) = (r, ps)" by fastforce
  then have rr: "ps_receive (recorded S) (bg_stream b) = (r, (ps, snd (bg_stream b)))"
    by (cases "bg_stream b") (simp add: recorded_def)
  have b: "quiet H P unsent (Looping (b\<lparr>bg_stream := (ps, snd (bg_stream b))\<rparr>))" using assms(2) by simp
  have st: "IEnableServerRequests \<notin> unsent (bg_runtime b)" using assms(2) by simp
  note kinds = packet_laws.reaction_kind [OF laws]
  show ?thesis
  proof (cases "\<exists>x. r = Ready x")
    case True
    then obtain x where x: "r = Ready x" ..
    show ?thesis
    proof (cases x)
      case (Inl err)
      show ?thesis
      proof (cases err)
        case (RSoft h e)
        with x Inl rr taken.keep_error [OF st, of H P h e "bg_handler b"] show ?thesis
          by (auto simp: bg_received_def simp del: quiet.simps(1) intro!: quiet_react [OF laws b] dest: kinds(2))
      qed (use x Inl rr assms(2) in \<open>simp_all add: bg_received_def\<close>)
    next
      case (Inr p)
      with x rr taken.keep_send [OF st, of H P p "bg_handler b"] show ?thesis
        by (auto simp: bg_received_def simp del: quiet.simps(1) intro!: quiet_react [OF laws b] dest: kinds(1))
    qed
  next
    case False
    with rr assms(2) show ?thesis by (cases r) (simp_all add: bg_received_def not_enabling_def)
  qed
qed

lemma quiet_finish:
  assumes "quiet H P unsent (Looping b)"
  shows "quiet H P unsent (bg_finish (recorded S) b)"
proof -
  obtain ps log where s: "bg_stream b = (ps, log)" by (cases "bg_stream b")
  have "snd (snd (ps_shutdown (recorded S) x)) = snd x" for x
    by (cases x) (simp add: recorded_def split: prod.split)
  moreover have "snd (snd (ps_send (recorded S) p (ps, log))) = log @ [p]" for p
    by (simp add: recorded_def split: prod.split)
  ultimately show ?thesis
    using assms s by (cases "bg_close_packet b") (auto simp: bg_finish_def not_enabling_def Let_def)
qed

lemma quiet_to_send:
  assumes laws: "packet_laws H P" and "quiet H P unsent (Looping b)"
  shows "quiet H P unsent (bg_to_send (recorded S) H P T uf order b)"
proof (cases "handler_to_send H P T uf order (bg_handler b) (bg_runtime b)")
  case (Returned x)
  obtain res h st where x: "x = (res, h, st)" by (cases x)
  note sent = Returned [unfolded x]
  have st: "IEnableServerRequests \<notin> unsent (bg_runtime b)" using assms(2) by simp
  have b: "quiet H P unsent (Looping (b\<lparr>bg_handler := h, bg_runtime := st\<rparr>))"
    using assms(2) taken.keep_to_send [OF sent st] by simp
  show ?thesis
    using sent to_send_quiet [OF laws, of uf order "bg_handler b" "bg_runtime b" _ h st] st b
    by (cases res) (auto simp: bg_to_send_def Let_def simp del: quiet.simps(1) intro!: quiet_send quiet_finish)
qed (simp add: bg_to_send_def not_enabling_def)

lemma quiet_next:
  assumes laws: "packet_laws H P" and b: "quiet H P unsent (Looping b)"
    and uses: "\<And>f. i = Users f \<Longrightarrow> client_uses C D configurator spawn unsent con (bg_runtime b) (f (bg_runtime b))"
    and "attached con"
  shows "quiet H P unsent (bg_next (recorded S) H P T (\<lambda>c. apfst (upd c)) i b)"
proof (cases i)
  case (Event ev)
  have ping: "kind_of H P (ping_packet H P) \<noteq> KEnableServerRequests"
    using packet_laws.ping_kind [OF laws] by simp
  have cfg: "quiet H P unsent (Looping (b\<lparr>bg_stream := apfst f (bg_stream b)\<rparr>))" for f
    using b by simp
  show ?thesis
    using Event b cfg ping
    by (cases ev) (auto simp: bg_step_def simp del: quiet.simps(1)
        intro: quiet_received [OF laws] quiet_to_send [OF laws] quiet_send quiet_close [OF laws] split: option.split)
next
  case (Users f)
  with b uses_keep [OF uses [OF Users] assms(4)] show ?thesis by simp
qed

lemma quiet_run:
  "packet_laws H P \<Longrightarrow> attached con \<Longrightarrow> quiet H P unsent r
    \<Longrightarrow> (\<And>f st. Users f \<in> set is \<Longrightarrow> client_uses C D configurator spawn unsent con st (f st))
    \<Longrightarrow> quiet H P unsent (bg_run (recorded S) H P T (\<lambda>c. apfst (upd c)) is r)"
proof (induction "is" arbitrary: r)
  case (Cons i "is")
  show ?case
  proof (cases r)
    case (Looping b)
    have "quiet H P unsent (bg_next (recorded S) H P T (\<lambda>c. apfst (upd c)) i b)"
      using Cons.prems Looping by (intro quiet_next [where con = con]) auto
    with Cons Looping show ?thesis by simp
  qed (use Cons.prems in simp_all)
qed simp

lemma quiet_sent: "quiet H P unsent r \<Longrightarrow> p \<in> set (sent_log r) \<Longrightarrow> kind_of H P p \<noteq> KEnableServerRequests"
  by (cases r) (auto simp: not_enabling_def)

end

section \<open>What the server makes of it\<close>

text \<open>The handler of a server stays in its first state as long as no received packet enables requests.\<close>

definition heard :: "('ps, 'p, 'h) observation \<Rightarrow> 'p list" where
  "heard x = [p. Ready (Inr p) \<leftarrow> snd (snd x)]"

fun uni_server ::
    "'h packet_header \<Rightarrow> ('p, 'h, 'b) packet \<Rightarrow> (('ps, 'p, 'h) observation, 'p, 'st) bg looped \<Rightarrow> bool" where
  "uni_server H P (Looping b) \<longleftrightarrow> not_enabling H P (heard (bg_stream b)) \<longrightarrow> h_state (bg_handler b) = UniServer"
| "uni_server H P (Done r b) \<longleftrightarrow> not_enabling H P (heard (bg_stream b)) \<longrightarrow> h_state (bg_handler b) = UniServer"
| "uni_server H P (Crashed msg) \<longleftrightarrow> True"

lemma heard_send: "heard (snd (ps_send (observed S) p x)) = heard x"
  by (cases x) (simp add: observed_def heard_def split: prod.split)

lemma heard_shutdown: "heard (snd (ps_shutdown (observed S) x)) = heard x"
  by (cases x) (simp add: observed_def heard_def split: prod.split)

lemma heard_receive:
  "ps_receive (observed S) x = (r, x') \<Longrightarrow> heard x' = heard x @ (case r of Ready (Inr p) \<Rightarrow> [p] | _ \<Rightarrow> [])"
  by (cases x; cases r rule: packet_result.cases) (auto simp: observed_def heard_def split: prod.splits)

lemma close_keeps_state: "handler_close H P T orders h st = (p, h', st') \<Longrightarrow> h_state h' = h_state h"
  by (auto simp: handler_close_def stream_clear_def Let_def)

lemma uni_send: "uni_server H P (bg_send (observed S) p b) \<longleftrightarrow> uni_server H P (Looping b)"
  using heard_send [of S p "bg_stream b"]
  by (auto simp: bg_send_def split: prod.splits sum.splits)

lemma uni_close: "uni_server H P (Looping (bg_close H P T orders with_packet b)) \<longleftrightarrow> uni_server H P (Looping b)"
  by (auto simp: bg_close_def Let_def split: prod.splits dest: close_keeps_state)

lemma uni_finish: "uni_server H P (bg_finish (observed S) b) \<longleftrightarrow> uni_server H P (Looping b)"
  by (cases "bg_close_packet b") (simp_all add: bg_finish_def Let_def heard_send heard_shutdown)

lemma uni_react:
  assumes "uni_server H P (Looping (b\<lparr>bg_handler := fst (snd reaction)\<rparr>))"
  shows "uni_server H P (bg_react (observed S) H P T orders reaction b)"
proof -
  obtain res h st where r: "reaction = (res, h, st)" by (cases reaction)
  have b: "uni_server H P (Looping (b\<lparr>bg_handler := h, bg_runtime := st\<rparr>))" using assms r by simp
  show ?thesis
  proof (cases res)
    case (Inr sb)
    with r b show ?thesis
      by (cases sb) (simp_all add: bg_react_def uni_send uni_close del: uni_server.simps(1))
  qed (use b r in \<open>simp add: bg_react_def\<close>)
qed

lemma uni_received:
  assumes "uni_server H P (Looping b)"
  shows "uni_server H P (bg_received (observed S) H P T orders b)"
proof -
  obtain r ps where r: "ps_receive (observed S) (bg_stream b) = (r, ps)"
    by (cases "ps_receive (observed S) (bg_stream b)")
  note heard = heard_receive [OF r]
  show ?thesis
  proof (cases "\<exists>x. r = Ready x")
    case True
    then obtain x where x: "r = Ready x" ..
    show ?thesis
    proof (cases x)
      case (Inl err)
      show ?thesis
      proof (cases err)
        case (RSoft h e)
        with x Inl r heard assms show ?thesis
          by (auto simp: bg_received_def error_state intro!: uni_react)
      qed (use x Inl r heard assms in \<open>simp_all add: bg_received_def\<close>)
    next
      case (Inr p)
      with x r heard assms show ?thesis
        by (auto simp: bg_received_def send_state not_enabling_def intro!: uni_react)
    qed
  next
    case False
    with r heard assms show ?thesis by (cases r) (simp_all add: bg_received_def)
  qed
qed

lemma uni_to_send:
  assumes "uni_server H P (Looping b)"
  shows "uni_server H P (bg_to_send (observed S) H P T uf order b)"
proof (cases "handler_to_send H P T uf order (bg_handler b) (bg_runtime b)")
  case (Returned x)
  obtain res h st where x: "x = (res, h, st)" by (cases x)
  have "uni_server H P (Looping (b\<lparr>bg_handler := h, bg_runtime := st\<rparr>))"
    using assms to_send_state [OF Returned [unfolded x]] by auto
  with Returned x show ?thesis
    by (cases res) (simp_all add: bg_to_send_def uni_send uni_finish Let_def del: uni_server.simps(1))
qed (simp add: bg_to_send_def)

lemma uni_next:
  assumes "uni_server H P (Looping b)"
  shows "uni_server H P (bg_next (observed S) H P T (\<lambda>c. apfst (upd c)) i b)"
proof (cases i)
  case (Event ev)
  have cfg: "uni_server H P (Looping (b\<lparr>bg_stream := apfst f (bg_stream b)\<rparr>))" for f
    using assms by (cases "bg_stream b") (simp add: heard_def)
  show ?thesis
    using Event assms cfg
    by (cases ev) (auto simp: bg_step_def uni_send uni_close simp del: uni_server.simps(1)
        intro: uni_received uni_to_send split: option.split)
qed (use assms in simp)

lemma uni_run:
  "uni_server H P r \<Longrightarrow> uni_server H P (bg_run (observed S) H P T (\<lambda>c. apfst (upd c)) is r)"
proof (induction "is" arbitrary: r)
  case (Cons i "is")
  show ?case
  proof (cases r)
    case (Looping b)
    with Cons.prems have "uni_server H P (bg_next (observed S) H P T (\<lambda>c. apfst (upd c)) i b)"
      by (intro uni_next) simp
    with Cons.IH Looping show ?thesis by simp
  qed (use Cons.prems in simp_all)
qed simp

section \<open>The task of a client\<close>

text \<open>What the task of a client that may reconnect does when a stream has ended.\<close>

definition after_bg ::
    "('s, 'ps, 'c, 'w) reconnect \<Rightarrow> ((task_error + unit) \<times> bool \<times> handler \<times> 'w) outcome
      \<Rightarrow> ((task_error + unit) \<times> handler \<times> 'w) outcome option" where
  "after_bg R ended =
     (case ended of
        Panic msg \<Rightarrow> Some (Panic msg)
      | Returned (r, terminated, h, w) \<Rightarrow>
          if terminated then Some (Returned (Inr (), h, w))
          else (case r of
              Inr u \<Rightarrow> Some (Returned (Inr u, h, w))
            | Inl e \<Rightarrow> (case rc_close_all_started R h w of (h, w) \<Rightarrow> bg_stream_reconnect R None h w)))"

lemma reconnect_runs:
  assumes "rc_strat R = Some recon" and "rc_new_stream R s (rc_newest R w) w = (Returned (Inr ps), w1)"
  shows "bg_stream_reconnect R (Some s) h w = Option.bind (rc_bg R ps h w1) (after_bg R)"
  using assms by (simp add: bg_stream_reconnect.simps [of R "Some s"] reconnect_stream_def after_bg_def [abs_def])

text \<open>A stream is lost, and the strategy makes another one.\<close>

lemma reconnect_after_loss:
  assumes strat: "rc_strat R = Some recon"
    and "rc_new_stream R s (rc_newest R w) w = (Returned (Inr ps1), w1)"
    and "rc_bg R ps1 h w1 = Some (Returned (Inl e, False, h1, w2))"
    and "rc_close_all_started R h1 w2 = (h2, w3)"
    and "reconnect_attempts recon 0 w3 = Some (s2, w4)"
    and "rc_new_stream R s2 (rc_newest R w4) w4 = (Returned (Inr ps2), w5)"
  shows "bg_stream_reconnect R (Some s) h w = Option.bind (rc_bg R ps2 h2 w5) (after_bg R)"
  using assms by (simp add: reconnect_runs [OF strat] from_strategy [OF strat] after_bg_def [of R "Returned (Inl e, False, h1, w2)"])

section \<open>The property\<close>

text \<open>
  C10. A client that has attached its handlers and is then reconnected gets no more server requests.
  Once its stream is lost and the strategy has made another one, the task runs the new stream
  with the old handler, which takes requests as before. If the request to enable server requests
  was taken from the channel before, it is not sent again, whatever the users of the connection
  do: no packet on the new stream enables server requests. The client still counts as enabled,
  and attaching again panics. A server that hears only packets of the kinds that are sent never
  sends requests.
\<close>

theorem reconnect_loses_server_requests:
  assumes laws: "packet_laws H P" and pending: "request_pending T C unsent"
    and attach: "attach_request_handlers C D configurator spawn con st = (Ready (Inr ()), con', st')"
    and strat: "rc_strat R = Some recon"
    and bg: "rc_bg R = run_bg_stream (recorded S) H P T (\<lambda>c. apfst (upd c)) E"
    and close_all: "rc_close_all_started R = run_close_all T E"
    and first: "rc_new_stream R s (rc_newest R w) w = (Returned (Inr ps1), w1)"
    and lost: "rc_bg R ps1 h w1 = Some (Returned (Inl e, False, h1, w2))" "rc_close_all_started R h1 w2 = (h2, w3)"
    and again: "reconnect_attempts recon 0 w3 = Some (s2, w4)"
      "rc_new_stream R s2 (rc_newest R w4) w4 = (Returned (Inr (ps2, [])), w5)"
    and was_sent: "IEnableServerRequests \<notin> unsent (sr_runtime E w5)"
    and users: "\<And>f st. Users f \<in> set (sr_events E w5) \<Longrightarrow> client_uses C D configurator spawn unsent con' st (f st)"
    and client: "bg_run (recorded S) H P T (\<lambda>c. apfst (upd c)) (take n (sr_events E w5))
      (bg_start (recorded S) (ps2, []) h2 (sr_runtime E w5)) = r"
    and server: "bg_run (observed SS) H P TS (\<lambda>c. apfst (updS c)) inputs
      (bg_start (observed SS) (pss, [], []) (handler_new True) us) = Looping bs"
    and hears: "kind_of H P ` set (heard (bg_stream bs)) \<subseteq> kind_of H P ` set (sent_log r)"
  shows "bg_stream_reconnect R (Some s) h w = Option.bind (rc_bg R (ps2, []) h2 w5) (after_bg R)
    \<and> can_receive_requests (h_state h2) = can_receive_requests (h_state h1)
    \<and> client_is_server_requests_enabled con'
    \<and> attach_request_handlers C D configurator spawn con' st2 = (Panicked, con', st2)
    \<and> (\<forall>p \<in> set (sent_log r). kind_of H P p \<noteq> KEnableServerRequests)
    \<and> \<not> can_send_requests (h_state (bg_handler bs))
    \<and> request_branch H P TS (can_send_requests (h_state (bg_handler bs))) (bg_handler bs) us2
        = Returned (Disabled, bg_handler bs, us2)"
proof -
  note con' = attach_attaches [OF attach]
  have "quiet H P unsent (bg_start (recorded S) (ps2, []) h2 (sr_runtime E w5))"
    using was_sent by (simp add: bg_start_def not_enabling_def)
  then have "quiet H P unsent r"
    unfolding client [symmetric]
    by (rule request_pending.quiet_run [OF pending laws con']) (blast intro: users dest: in_set_takeD)
  then have sent: "\<forall>p \<in> set (sent_log r). kind_of H P p \<noteq> KEnableServerRequests"
    using request_pending.quiet_sent [OF pending] by blast
  then have "not_enabling H P (heard (bg_stream bs))"
    using hears by (auto simp: not_enabling_def)
  moreover have "uni_server H P (Looping bs)"
    unfolding server [symmetric]
    by (rule uni_run) (simp add: bg_start_def handler_new_def)
  ultimately have uni: "h_state (bg_handler bs) = UniServer" by simp
  have "h_state h2 = state_reset (h_state h1)"
    using lost(2) by (auto simp: close_all run_close_all_def close_all_started_def stream_clear_def Let_def split: prod.splits)
  then have "can_receive_requests (h_state h2) = can_receive_requests (h_state h1)"
    by (cases "h_state h1") simp_all
  moreover have "client_is_server_requests_enabled con'"
    using con' by (simp add: attached_def client_is_server_requests_enabled_def)
  moreover note reconnect_after_loss [OF strat first lost again] attach_again [OF con']
  ultimately show ?thesis using sent uni by (simp add: request_branch_def)
qed

section \<open>The property on concrete values\<close>

interpretation test_pending: request_pending queue_tokio queue_channels "\<lambda>st. set (snd st)"
  by unfold_locales (auto simp: queue_tokio_def queue_channels_def split: prod.splits list.splits)

text \<open>
  A world that counts the streams that were made. The first stream sends the client's request to
  enable server requests and is then lost; on the second one there is only a ping.
\<close>

type_synonym queues = "(u32 \<times> flags) user_request list \<times> (u32 \<times> flags) internal_request list"

definition lossy_stream :: "(nat, u32 \<times> flags, u32 \<times> flags) packet_stream" where
  "lossy_stream = scripted_stream [Ready (Inl (RIo IoUnexpectedEof))]"

definition two_streams :: "(queues, unit, nat \<times> queues) surroundings" where
  "two_streams = \<lparr>sr_runtime = snd, sr_put = (\<lambda>st (n, _). (n, st)),
     sr_events = (\<lambda>(n, _). if n = 1 then [Event (ToSend True []), Event (Received ([], []))]
       else [Event (ToSend True []), Event PingTick]),
     sr_terminated = (\<lambda>_. False), sr_newest = (\<lambda>_. ()), sr_orders = (\<lambda>_. ([], [])), sr_sched = (\<lambda>_. [])\<rparr>"

definition lossy_client :: "(nat, nat \<times> (u32 \<times> flags) list, unit, nat \<times> queues) reconnect" where
  "lossy_client = \<lparr>rc_strat = Some (\<lambda>k w. (Inr 1, w)), rc_newest = sr_newest two_streams,
     rc_new_stream = (\<lambda>s c (n, st). (Returned (Inr (s, [])), (Suc n, st))),
     rc_bg = run_bg_stream (recorded lossy_stream) mini_header mini_packet queue_tokio (\<lambda>c. apfst (\<lambda>n. n)) two_streams,
     rc_close_all_started = run_close_all queue_tokio two_streams\<rparr>"

lemmas queue_run = bg_start_def bg_step_def bg_to_send_def bg_send_def bg_received_def recorded_def lossy_stream_def
  small_streams handler_to_send_def user_branch_def request_branch_def start_request_def queue_tokio_def two_streams_def
  mini_header_def mini_packet_def mini_def stamped_def with_id_def with_flags_def handler_new_def Let_def checked_add_1_def U32_MID_def

abbreviation after_enabling :: handler where
  "after_enabling \<equiv> (handler_new False)\<lparr>h_state := BiClient (Some 1)\<rparr>"

lemma first_stream_enables:
  "bg_run (recorded lossy_stream) mini_header mini_packet queue_tokio (\<lambda>c :: unit. apfst (\<lambda>n. n))
      [Event (ToSend True []), Event (Received ([], []))]
      (bg_start (recorded lossy_stream) (0, []) (handler_new False) ([], [IEnableServerRequests]))
    = Done (Inl (TaskIo IoUnexpectedEof)) \<lparr>bg_stream = (1, [mini 0 KEnableServerRequests]), bg_handler = after_enabling,
        bg_runtime = ([], []), bg_should_close = False, bg_close_packet = None\<rparr>"
  by (simp add: queue_run)

lemma second_stream_pings:
  "bg_run (recorded lossy_stream) mini_header mini_packet queue_tokio (\<lambda>c :: unit. apfst (\<lambda>n. n))
      [Event (ToSend True []), Event PingTick] (bg_start (recorded lossy_stream) (1, [])
        ((handler_new False)\<lparr>h_state := BiClient (Some 0)\<rparr>) ([], []))
    = Looping \<lparr>bg_stream = (1, [mini 0 KPing]), bg_handler = (handler_new False)\<lparr>h_state := BiClient (Some 0)\<rparr>,
        bg_runtime = ([], []), bg_should_close = False, bg_close_packet = None\<rparr>"
  by (simp add: queue_run ping_packet_def)

abbreviation after_reset :: handler where
  "after_reset \<equiv> (handler_new False)\<lparr>h_state := BiClient (Some 0)\<rparr>"

definition hearing_stream :: "(nat, u32 \<times> flags, u32 \<times> flags) packet_stream" where
  "hearing_stream = scripted_stream [Ready (Inr (mini 0 KPing))]"

lemma server_hears_ping:
  "bg_run (observed hearing_stream) mini_header mini_packet queue_tokio (\<lambda>c :: unit. apfst (\<lambda>n. n))
      [Event (Received ([], []))] (bg_start (observed hearing_stream) (0, [], []) (handler_new True) ([], []))
    = Looping \<lparr>bg_stream = (1, [], [Ready (Inr (mini 0 KPing))]), bg_handler = handler_new True,
        bg_runtime = ([], []), bg_should_close = False, bg_close_packet = None\<rparr>"
  by (simp add: queue_run observed_def hearing_stream_def bg_react_def handler_send_def)

theorem reconnect_loses_server_requests_witness:
  "attach_request_handlers queue_channels (TypeOf 0) True (\<lambda>_ st. st) client_new_raw (([], []) :: queues)
      = (Ready (Inr ()), \<lparr>cc_receiver = False, cc_receiver_enabled = True\<rparr>, ([], [IEnableServerRequests]))
    \<and> bg_stream_reconnect lossy_client (Some 0) (handler_new False) (0, ([], [IEnableServerRequests]))
      = Option.bind (rc_bg lossy_client (1, []) after_reset (2, ([], []))) (after_bg lossy_client)
    \<and> attach_request_handlers queue_channels (TypeOf 0) True (\<lambda>_ st. st)
        \<lparr>cc_receiver = False, cc_receiver_enabled = True\<rparr> (([], []) :: queues)
      = (Panicked, \<lparr>cc_receiver = False, cc_receiver_enabled = True\<rparr>, ([], []))"
proof -
  have attach: "attach_request_handlers queue_channels (TypeOf 0) True (\<lambda>_ st. st) client_new_raw (([], []) :: queues)
    = (Ready (Inr ()), \<lparr>cc_receiver = False, cc_receiver_enabled = True\<rparr>, ([], [IEnableServerRequests]))"
    by (simp add: attach_request_handlers_def client_is_server_requests_enabled_def client_new_raw_def
        client_enable_server_requests_def sender_enable_server_requests_def await_def queue_channels_def
        client_take_receiver_def Let_def)
  have bg: "rc_bg lossy_client
      = run_bg_stream (recorded lossy_stream) mini_header mini_packet queue_tokio (\<lambda>c. apfst (\<lambda>n. n)) two_streams"
    and close_all: "rc_close_all_started lossy_client = run_close_all queue_tokio two_streams"
    and strat: "rc_strat lossy_client = Some (\<lambda>k w. (Inr 1, w))"
    by (simp_all add: lossy_client_def)
  have new: "rc_new_stream lossy_client s c (n, st) = (Returned (Inr (s, [])), (Suc n, st))" for s c n st
    by (simp add: lossy_client_def)
  have lost: "rc_bg lossy_client (0, []) (handler_new False) (Suc 0, ([], [IEnableServerRequests]))
      = Some (Returned (Inl (TaskIo IoUnexpectedEof), False, after_enabling, (Suc 0, ([], []))))"
    by (simp add: bg run_bg_stream_def) (simp add: two_streams_def first_stream_enables)
  have closed: "rc_close_all_started lossy_client after_enabling (Suc 0, ([], [])) = (after_reset, (Suc 0, ([], [])))"
    by (simp add: close_all run_close_all_def close_all_started_def stream_clear_def user_close_all_def two_streams_def
        handler_new_def)
  have again: "reconnect_attempts (\<lambda>k w. (Inr 1, w)) 0 (Suc 0, ([], [])) = Some (1 :: nat, (Suc 0, ([], []) :: queues))"
    by (simp add: reconnect_attempts.simps)
  have events: "take 2 (sr_events two_streams (Suc (Suc 0), ([], []))) = [Event (ToSend True []), Event PingTick]"
    "sr_runtime two_streams (Suc (Suc 0), ([], [])) = ([], [])"
    by (simp_all add: two_streams_def)
  have taken: "IEnableServerRequests \<notin> set (snd (sr_runtime two_streams (Suc (Suc 0), ([], []))))"
    and users: "Users f \<notin> set (sr_events two_streams (Suc (Suc 0), ([], [])))" for f
    by (simp_all add: two_streams_def)
  have client: "bg_run (recorded lossy_stream) mini_header mini_packet queue_tokio (\<lambda>c. apfst (\<lambda>n. n))
      (take 2 (sr_events two_streams (Suc (Suc 0), ([], []))))
      (bg_start (recorded lossy_stream) (1, []) after_reset (sr_runtime two_streams (Suc (Suc 0), ([], []))))
    = Looping \<lparr>bg_stream = (1, [mini 0 KPing]), bg_handler = after_reset,
        bg_runtime = ([], []), bg_should_close = False, bg_close_packet = None\<rparr>"
    unfolding events by (rule second_stream_pings)
  have "bg_stream_reconnect lossy_client (Some 0) (handler_new False) (0, ([], [IEnableServerRequests]))
      = Option.bind (rc_bg lossy_client (1, []) after_reset (Suc (Suc 0), ([], []))) (after_bg lossy_client)
    \<and> attach_request_handlers queue_channels (TypeOf 0) True (\<lambda>_ st. st)
        \<lparr>cc_receiver = False, cc_receiver_enabled = True\<rparr> (([], []) :: queues)
      = (Panicked, \<lparr>cc_receiver = False, cc_receiver_enabled = True\<rparr>, ([], []))"
    using reconnect_loses_server_requests [OF mini.packet_laws_axioms test_pending.request_pending_axioms attach
      strat bg close_all new lost closed again new taken _ client server_hears_ping, of "([], [])" "([], [])"] users
    by (simp add: heard_def)
  with attach show ?thesis by (simp add: numeral_2_eq_2)
qed

end
