(* ===== verification/Servers.thy ===== *)
theory Servers
  imports Serving Startup Derive
begin

text \<open>
  \<open>Server\<close> and \<open>BuiltServer\<close> of \<open>lafere-api/src/server.rs\<close>: registering data and handlers, building
  and running; and the listeners of \<open>lafere/src/util/listener.rs\<close> that a server accepts streams from.
\<close>

section \<open>Listeners\<close>

text \<open>
  \<open>tokio\<close>'s listeners are polled; an address is its text. \<open>SocketAddr\<close> adds the addresses of Unix sockets to
  those of the standard library.
\<close>

datatype std_addr = StdV4 string | StdV6 string

datatype socket_addr = V4 string | V6 string | Unix string

text \<open>\<open>Listener\<close>: its \<open>poll_accept\<close>.\<close>

type_synonym ('s, 'w) listener = "'w \<Rightarrow> (io_error + 's \<times> socket_addr) option \<times> 'w"

definition tcp_poll_accept ::
    "('w \<Rightarrow> (io_error + 's \<times> std_addr) option \<times> 'w) \<Rightarrow> ('s, 'w) listener" where
  "tcp_poll_accept poll_accept w =
     (case poll_accept w of
        (Some (Inr (stream, addr)), w) \<Rightarrow>
          (Some (Inr (stream, case addr of StdV4 v4 \<Rightarrow> V4 v4 | StdV6 v6 \<Rightarrow> V6 v6)), w)
      | (Some (Inl e), w) \<Rightarrow> (Some (Inl e), w)
      | (None, w) \<Rightarrow> (None, w))"

definition unix_poll_accept :: "('w \<Rightarrow> (io_error + 's \<times> string) option \<times> 'w) \<Rightarrow> ('s, 'w) listener" where
  "unix_poll_accept poll_accept w =
     (case poll_accept w of
        (Some (Inr (stream, addr)), w) \<Rightarrow> (Some (Inr (stream, Unix addr)), w)
      | (Some (Inl e), w) \<Rightarrow> (Some (Inl e), w)
      | (None, w) \<Rightarrow> (None, w))"

text \<open>
  Awaiting the future \<open>Accept\<close>: it is polled until it is ready; \<open>wake\<close> is what happens between two polls.
  Without a result if it never is.
\<close>

partial_function (option) accept ::
    "('s, 'w) listener \<Rightarrow> ('w \<Rightarrow> 'w) \<Rightarrow> 'w \<Rightarrow> ((io_error + 's \<times> socket_addr) \<times> 'w) option" where
  "accept self wake w =
     (case self w of
        (Some r, w) \<Rightarrow> Some (r, w)
      | (None, w) \<Rightarrow> accept self wake (wake w))"

text \<open>How an address is shown in a session.\<close>

fun addr_text :: "socket_addr \<Rightarrow> string" where
  "addr_text (V4 a) = a"
| "addr_text (V6 a) = a"
| "addr_text (Unix a) = a"

section \<open>Registering\<close>

record ('a, 'b, 'q, 'v, 'w, 'l, 'm) server =
  sv_inner :: 'l
  sv_requests :: "('a, 'b, 'q, 'v, 'w) handlers"
  sv_cfg :: config
  sv_more :: 'm

definition server_new :: "'l \<Rightarrow> config \<Rightarrow> ('a, 'b, 'q, 'v, 'w, 'l, unit) server" where
  "server_new listener cfg = \<lparr>sv_inner = listener, sv_requests = handlers_new, sv_cfg = cfg, sv_more = ()\<rparr>"

definition server_new_encrypted :: "'l \<Rightarrow> config \<Rightarrow> 'm \<Rightarrow> ('a, 'b, 'q, 'v, 'w, 'l, 'm) server" where
  "server_new_encrypted listener cfg key =
     \<lparr>sv_inner = listener, sv_requests = handlers_new, sv_cfg = cfg, sv_more = key\<rparr>"

text \<open>The three methods; a panic of \<open>validate_data\<close> ends the program.\<close>

datatype ('a, 'b, 'q, 'v, 'w) registration =
  RegisterData type_id 'v
  | RegisterRequest "('a, 'b, 'v, 'w) request_handler"
  | RegisterEnable "('q, 'v, 'w) enable_handler"

definition server_register ::
    "('a, 'b, 'q, 'v, 'w) registration \<Rightarrow> ('a, 'b, 'q, 'v, 'w, 'l, 'm) server
      \<Rightarrow> ('a, 'b, 'q, 'v, 'w, 'l, 'm) server outcome" where
  "server_register r self =
     (case (case r of
              RegisterData D v \<Rightarrow> Returned (register_data D v (sv_requests self))
            | RegisterRequest handler \<Rightarrow> register_request handler (sv_requests self)
            | RegisterEnable handler \<Rightarrow> register_enable_server_requests handler (sv_requests self)) of
        Panic msg \<Rightarrow> Panic msg
      | Returned requests \<Rightarrow> Returned (self\<lparr>sv_requests := requests\<rparr>))"

fun server_register_all ::
    "('a, 'b, 'q, 'v, 'w) registration list \<Rightarrow> ('a, 'b, 'q, 'v, 'w, 'l, 'm) server
      \<Rightarrow> ('a, 'b, 'q, 'v, 'w, 'l, 'm) server outcome" where
  "server_register_all [] self = Returned self"
| "server_register_all (r # rs) self =
     (case server_register r self of
        Panic msg \<Rightarrow> Panic msg
      | Returned self \<Rightarrow> server_register_all rs self)"

section \<open>Building and running\<close>

record ('a, 'b, 'q, 'v, 'w, 'l, 'm) built_server =
  bs_inner :: 'l
  bs_requests :: "('a, 'b, 'q, 'v, 'w) handlers"
  bs_more :: 'm

definition server_build :: "('a, 'b, 'q, 'v, 'w, 'l, 'm) server \<Rightarrow> ('a, 'b, 'q, 'v, 'w, 'l, 'm) built_server" where
  "server_build self = \<lparr>bs_inner = sv_inner self, bs_requests = sv_requests self, bs_more = sv_more self\<rparr>"

definition built_get_data :: "type_id \<Rightarrow> ('a, 'b, 'q, 'v, 'w, 'l, 'm) built_server \<Rightarrow> 'v option" where
  "built_get_data D self = data_get D (hr_data (bs_requests self))"

text \<open>
  \<open>run\<close>: every accepted stream becomes a connection, whose task is started with \<open>start\<close>. The
  configurator goes into the session as the value \<open>boxed\<close> of its type \<open>D\<close>.
\<close>

definition accept_addr ::
    "('s, 'w) listener \<Rightarrow> ('w \<Rightarrow> 'w) \<Rightarrow> 'w \<Rightarrow> ((io_error + 's \<times> string) \<times> 'w) option" where
  "accept_addr listener wake w =
     map_option (apfst (map_sum (\<lambda>e. e) (apsnd addr_text))) (accept listener wake w)"

definition server_run ::
    "('l \<Rightarrow> ('s, 'w) listener) \<Rightarrow> ('w \<Rightarrow> 'w)
      \<Rightarrow> ('m \<Rightarrow> config \<Rightarrow> 's \<Rightarrow> (server_connection, 'watch, 'w) started_connection)
      \<Rightarrow> ((server_connection, 'watch, 'w) started_connection \<Rightarrow> 'w \<Rightarrow> 'w) \<Rightarrow> ('watch \<Rightarrow> 'v) \<Rightarrow> type_id
      \<Rightarrow> (('a, 'b, 'q, 'v, 'w) handlers \<Rightarrow> 'v session \<Rightarrow> server_connection \<Rightarrow> 'w \<Rightarrow> 'w)
      \<Rightarrow> ('a, 'b, 'q, 'v, 'w, 'l, 'm) server \<Rightarrow> 'w \<Rightarrow> (io_error \<times> 'w) option" where
  "server_run listen wake connection start boxed D serve self w =
     (let cfg = sv_cfg self;
          built = server_build self
      in run_raw (accept_addr (listen (bs_inner built)) wake)
           (\<lambda>stream w. let con = connection (bs_more built) cfg stream
              in (st_connection con, boxed (st_config con), start con w))
           D (serve (bs_requests built)) w)"

section \<open>What registering keeps\<close>

text \<open>
  A handler is good for the data that is there: \<open>api_handler\<close> with valid parameters. Data that is
  registered later keeps it good.
\<close>

lemma registered_split:
  "server_register_all (rs @ rs') self =
     (case server_register_all rs self of Panic msg \<Rightarrow> Panic msg | Returned self \<Rightarrow> server_register_all rs' self)"
  by (induction rs arbitrary: self) (auto split: outcome.split)

lemma register_keeps:
  assumes "server_register r self = Returned self'"
  shows "validate_data T params (hr_data (sv_requests self)) \<Longrightarrow> validate_data T params (hr_data (sv_requests self'))"
    and "(\<And>h. r = RegisterRequest h \<Longrightarrow> rh_action h \<noteq> a)
      \<Longrightarrow> get_handler a (sv_requests self') = get_handler a (sv_requests self)"
    and "sv_inner self' = sv_inner self" and "sv_cfg self' = sv_cfg self" and "sv_more self' = sv_more self"
  using assms
  by (auto simp: server_register_def register_data_def register_request_def register_enable_server_requests_def
      get_handler_def valid_insert split: registration.splits if_splits outcome.splits)

lemma register_all_keeps:
  assumes "server_register_all rs self = Returned self'"
  shows "validate_data T params (hr_data (sv_requests self)) \<Longrightarrow> validate_data T params (hr_data (sv_requests self'))"
    and "\<forall>h. RegisterRequest h \<in> set rs \<longrightarrow> rh_action h \<noteq> a
      \<Longrightarrow> get_handler a (sv_requests self') = get_handler a (sv_requests self)"
proof -
  have "(validate_data T params (hr_data (sv_requests self)) \<longrightarrow> validate_data T params (hr_data (sv_requests self')))
    \<and> ((\<forall>h. RegisterRequest h \<in> set rs \<longrightarrow> rh_action h \<noteq> a)
      \<longrightarrow> get_handler a (sv_requests self') = get_handler a (sv_requests self))"
    using assms
  proof (induction rs arbitrary: self)
    case (Cons r rs)
    then obtain s1 where s1: "server_register r self = Returned s1" "server_register_all rs s1 = Returned self'"
      by (auto split: outcome.splits)
    show ?case
      using Cons.IH [OF s1(2)] register_keeps(1) [OF s1(1), of T params] register_keeps(2) [OF s1(1), of a] by auto
  qed simp
  then show "validate_data T params (hr_data (sv_requests self)) \<Longrightarrow> validate_data T params (hr_data (sv_requests self'))"
    "\<forall>h. RegisterRequest h \<in> set rs \<longrightarrow> rh_action h \<noteq> a
      \<Longrightarrow> get_handler a (sv_requests self') = get_handler a (sv_requests self)"
    by blast+
qed

lemma registered_last:
  assumes "server_register_all (before @ RegisterRequest h # after) self = Returned self'"
    and "\<forall>h'. RegisterRequest h' \<in> set after \<longrightarrow> rh_action h' \<noteq> rh_action h"
  shows "get_handler (rh_action h) (sv_requests self') = Some h"
    and "rh_validate h = validate_data T params \<Longrightarrow> validate_data T params (hr_data (sv_requests self'))"
proof -
  obtain s1 s2 where s1: "server_register_all before self = Returned s1"
    and s2: "server_register (RegisterRequest h) s1 = Returned s2" "server_register_all after s2 = Returned self'"
    using assms(1) by (auto simp: registered_split split: outcome.splits)
  have h: "get_handler (rh_action h) (sv_requests s2) = Some h" "rh_validate h (hr_data (sv_requests s2))"
    using s2(1) by (auto simp: server_register_def register_request_def get_handler_def split: if_splits outcome.splits)
  show "get_handler (rh_action h) (sv_requests self') = Some h"
    using register_all_keeps(2) [OF s2(2) assms(2)] h(1) by simp
  show "validate_data T params (hr_data (sv_requests self'))" if "rh_validate h = validate_data T params"
    using register_all_keeps(1) [OF s2(2)] h(2) that by metis
qed

end
