(* ===== verification/Scalars.thy ===== *)
theory Scalars
  imports Codec
begin

unbundle bit_operations_syntax

text \<open>
  The implementations of \<open>EncodeMessage\<close> and \<open>DecodeMessage\<close> for the types without parts:
  \<open>bool\<close>, \<open>i32\<close>, \<open>i64\<close>, \<open>u32\<close>, \<open>u64\<close>, \<open>f32\<close>, \<open>f64\<close>, byte strings, byte arrays and strings,
  and the decoders of \<open>ZigZag\<close> and \<open>Fixed\<close>. A float is its bits (\<open>to_bits\<close> and \<open>from_bits\<close>
  are inverse), a string its UTF-8 bytes.
\<close>

section \<open>The code: numbers\<close>

text \<open>\<open>if let Some(field) = field \<dots>write_tag(field.num, Self::WIRE_TYPE)\<close>\<close>

definition maybe_tag :: "'w bytes_write \<Rightarrow> field_opt option \<Rightarrow> wire_type \<Rightarrow> 'w \<Rightarrow> encode_error + 'w" where
  "maybe_tag W field wtype w =
     (case field of Some f \<Rightarrow> write_tag W (num f) wtype w | None \<Rightarrow> Inr w)"

definition size_maybe_tag :: "field_opt option \<Rightarrow> wire_type \<Rightarrow> size_builder \<Rightarrow> size_builder" where
  "size_maybe_tag field wtype b =
     (case field of Some f \<Rightarrow> size_write_tag (num f) wtype b | None \<Rightarrow> b)"

definition bool_encode :: "'w bytes_write \<Rightarrow> (bool, 'w) encode_message" where
  "bool_encode W = \<lparr>
     em_wire_type = WVarint,
     em_is_default = (\<lambda>x. x = False),
     em_encoded_size = (\<lambda>x field b. Inr (size_write_varint (of_bool x) (size_maybe_tag field WVarint b))),
     em_encode = (\<lambda>x field w. rbind (maybe_tag W field WVarint w) (write_varint W (of_bool x)))\<rparr>"

definition bool_decode :: "bool decode_message" where
  "bool_decode = \<lparr>
     dm_wire_type = WVarint,
     dm_decode_default = False,
     dm_merge = (\<lambda>_ k _. Some (rbind (try_unwrap_varint k) (\<lambda>num. Inr (num \<noteq> 0))))\<rparr>"

text \<open>
  The macro \<open>impl_varint\<close>: \<open>as_u64\<close> is the cast of the type to \<open>u64\<close>, which extends the sign
  of a signed type, \<open>from_u64\<close> the cast back, which truncates.
\<close>

definition impl_varint_encode :: "('a :: zero \<Rightarrow> u64) \<Rightarrow> 'w bytes_write \<Rightarrow> ('a, 'w) encode_message" where
  "impl_varint_encode as_u64 W = \<lparr>
     em_wire_type = WVarint,
     em_is_default = (\<lambda>x. x = 0),
     em_encoded_size = (\<lambda>x field b. Inr (size_write_varint (as_u64 x) (size_maybe_tag field WVarint b))),
     em_encode = (\<lambda>x field w. rbind (maybe_tag W field WVarint w) (write_varint W (as_u64 x)))\<rparr>"

definition impl_varint_decode :: "(u64 \<Rightarrow> 'a :: zero) \<Rightarrow> 'a decode_message" where
  "impl_varint_decode from_u64 = \<lparr>
     dm_wire_type = WVarint,
     dm_decode_default = 0,
     dm_merge = (\<lambda>_ k _. Some (rbind (try_unwrap_varint k) (\<lambda>num. Inr (from_u64 num))))\<rparr>"

definition i32_encode :: "'w bytes_write \<Rightarrow> (32 word, 'w) encode_message" where
  "i32_encode = impl_varint_encode scast"

definition i64_encode :: "'w bytes_write \<Rightarrow> (64 word, 'w) encode_message" where
  "i64_encode = impl_varint_encode (\<lambda>x. x)"

definition u32_encode :: "'w bytes_write \<Rightarrow> (u32, 'w) encode_message" where
  "u32_encode = impl_varint_encode ucast"

definition u64_encode :: "'w bytes_write \<Rightarrow> (u64, 'w) encode_message" where
  "u64_encode = impl_varint_encode (\<lambda>x. x)"

definition int32_decode :: "32 word decode_message" where
  "int32_decode = impl_varint_decode ucast"

definition int64_decode :: "64 word decode_message" where
  "int64_decode = impl_varint_decode (\<lambda>x. x)"

text \<open>The macro \<open>impl_floats\<close>. \<open>x == 0.0\<close> holds of the two zeros, whose bits differ in the sign.\<close>

definition f32_encode :: "'w bytes_write \<Rightarrow> (u32, 'w) encode_message" where
  "f32_encode W = \<lparr>
     em_wire_type = WI32,
     em_is_default = (\<lambda>bits. bits = 0 \<or> bits = 0x80000000),
     em_encoded_size = (\<lambda>bits field b. Inr (size_write_i32 bits (size_maybe_tag field WI32 b))),
     em_encode = (\<lambda>bits field w. rbind (maybe_tag W field WI32 w) (write_i32 W bits))\<rparr>"

definition f64_encode :: "'w bytes_write \<Rightarrow> (u64, 'w) encode_message" where
  "f64_encode W = \<lparr>
     em_wire_type = WI64,
     em_is_default = (\<lambda>bits. bits = 0 \<or> bits = 0x8000000000000000),
     em_encoded_size = (\<lambda>bits field b. Inr (size_write_i64 bits (size_maybe_tag field WI64 b))),
     em_encode = (\<lambda>bits field w. rbind (maybe_tag W field WI64 w) (write_i64 W bits))\<rparr>"

definition f32_decode :: "u32 decode_message" where
  "f32_decode = \<lparr>
     dm_wire_type = WI32,
     dm_decode_default = 0,
     dm_merge = (\<lambda>_ k _. Some (rbind (try_unwrap_i32 k) (\<lambda>num. Inr num)))\<rparr>"

definition f64_decode :: "u64 decode_message" where
  "f64_decode = \<lparr>
     dm_wire_type = WI64,
     dm_decode_default = 0,
     dm_merge = (\<lambda>_ k _. Some (rbind (try_unwrap_i64 k) (\<lambda>num. Inr num)))\<rparr>"

text \<open>
  The macro \<open>impl_zigzag\<close>: the varint is cast to the signed type first, so \<open>>>\<close> is the
  arithmetic shift.
\<close>

definition zigzag_of :: "'a :: len word \<Rightarrow> 'a word" where
  "zigzag_of v = signed_drop_bit 1 v XOR - (v AND 1)"

definition zigzag32_decode :: "32 word decode_message" where
  "zigzag32_decode = \<lparr>
     dm_wire_type = WVarint,
     dm_decode_default = 0,
     dm_merge = (\<lambda>_ k _. Some (rbind (try_unwrap_varint k) (\<lambda>n. Inr (zigzag_of (ucast n)))))\<rparr>"

definition zigzag64_decode :: "64 word decode_message" where
  "zigzag64_decode = \<lparr>
     dm_wire_type = WVarint,
     dm_decode_default = 0,
     dm_merge = (\<lambda>_ k _. Some (rbind (try_unwrap_varint k) (\<lambda>n. Inr (zigzag_of n))))\<rparr>"

text \<open>The macro \<open>impl_fixed\<close>; a signed and an unsigned type of one width share their bits.\<close>

definition fixed32_decode :: "u32 decode_message" where
  "fixed32_decode = \<lparr>
     dm_wire_type = WI32,
     dm_decode_default = 0,
     dm_merge = (\<lambda>_ k _. Some (rbind (try_unwrap_i32 k) (\<lambda>num. Inr num)))\<rparr>"

definition fixed64_decode :: "u64 decode_message" where
  "fixed64_decode = \<lparr>
     dm_wire_type = WI64,
     dm_decode_default = 0,
     dm_merge = (\<lambda>_ k _. Some (rbind (try_unwrap_i64 k) (\<lambda>num. Inr num)))\<rparr>"

section \<open>The code: byte strings and strings\<close>

definition slice_u8_encode :: "'w bytes_write \<Rightarrow> (byte list, 'w) encode_message" where
  "slice_u8_encode W = \<lparr>
     em_wire_type = WLen,
     em_is_default = (\<lambda>bs. bs = []),
     em_encoded_size = (\<lambda>bs field b.
       let n = of_nat (length bs);
           b' = (case field of Some f \<Rightarrow> size_write_len n (size_write_tag (num f) WLen b) | None \<Rightarrow> b)
       in Inr (size_write_bytes n b')),
     em_encode = (\<lambda>bs field w.
       rbind (case field of
                Some f \<Rightarrow> rbind (write_tag W (num f) WLen w) (write_len W (of_nat (length bs)))
              | None \<Rightarrow> Inr w)
         (write_bytes W bs))\<rparr>"

definition vec_u8_decode :: "byte list decode_message" where
  "vec_u8_decode = \<lparr>
     dm_wire_type = WLen,
     dm_decode_default = [],
     dm_merge = (\<lambda>_ k _. Some (rbind (try_unwrap_len k) (\<lambda>bs. Inr bs)))\<rparr>"

definition array_u8_decode :: "nat \<Rightarrow> byte list decode_message" where
  "array_u8_decode S = \<lparr>
     dm_wire_type = WLen,
     dm_decode_default = replicate S 0,
     dm_merge = (\<lambda>_ k _. Some (rbind (try_unwrap_len k) (\<lambda>bs.
       if length bs \<noteq> S then Inl (ExpectedArrayLen S) else Inr bs)))\<rparr>"

text \<open>
  \<open>std::str::from_utf8\<close> accepts the well-formed byte sequences of the Unicode standard.
\<close>

definition utf8_cont :: "byte \<Rightarrow> bool" where
  "utf8_cont b \<longleftrightarrow> 0x80 \<le> b \<and> b \<le> 0xBF"

fun utf8_valid :: "byte list \<Rightarrow> bool" where
  "utf8_valid [] \<longleftrightarrow> True"
| "utf8_valid (a # bs) \<longleftrightarrow>
     (if a \<le> 0x7F then utf8_valid bs
      else case bs of
        [] \<Rightarrow> False
      | b # cs \<Rightarrow>
          if 0xC2 \<le> a \<and> a \<le> 0xDF then utf8_cont b \<and> utf8_valid cs
          else case cs of
            [] \<Rightarrow> False
          | c # ds \<Rightarrow>
              if 0xE0 \<le> a \<and> a \<le> 0xEF
              then (if a = 0xE0 then 0xA0 \<le> b \<and> b \<le> 0xBF
                    else if a = 0xED then 0x80 \<le> b \<and> b \<le> 0x9F
                    else utf8_cont b) \<and> utf8_cont c \<and> utf8_valid ds
              else case ds of
                [] \<Rightarrow> False
              | d # es \<Rightarrow>
                  0xF0 \<le> a \<and> a \<le> 0xF4 \<and>
                  (if a = 0xF0 then 0x90 \<le> b \<and> b \<le> 0xBF
                   else if a = 0xF4 then 0x80 \<le> b \<and> b \<le> 0x8F
                   else utf8_cont b) \<and> utf8_cont c \<and> utf8_cont d \<and> utf8_valid es)"

definition string_encode :: "'w bytes_write \<Rightarrow> (byte list, 'w) encode_message" where
  "string_encode W = slice_u8_encode W"

definition string_decode :: "byte list decode_message" where
  "string_decode = \<lparr>
     dm_wire_type = WLen,
     dm_decode_default = [],
     dm_merge = (\<lambda>_ k _. Some (rbind (try_unwrap_len k) (\<lambda>bs.
       if utf8_valid bs then Inr bs else Inl ExpectedUtf8)))\<rparr>"

section \<open>What they write and read\<close>

lemma size_maybe_tag_simps [simp]:
  "size_maybe_tag None t b = b"
  "size_maybe_tag (Some f) t b = b + of_nat (length (varint_bytes (tag_of (num f) t)))"
  by (simp_all add: size_maybe_tag_def codec_simps)

text \<open>A type whose values are one field each, not of wire type \<open>Len\<close>.\<close>

context bytes_writer
begin

lemma one_field_encodes:
  assumes t: "\<And>x. kind_wire_type (k x) = t" "t \<noteq> WLen"
    and sz: "\<And>x b. sz x b = b + of_nat (length (kind_bytes (k x)))"
    and wr: "\<And>x w. wrote W room w (kind_bytes (k x)) (wr x w)"
    and E: "em_wire_type E = t"
      "em_encoded_size E = (\<lambda>x field b. Inr (sz x (size_maybe_tag field t b)))"
      "em_encode E = (\<lambda>x field w. rbind (maybe_tag W field t w) (wr x))"
  shows "encodes W room E (\<lambda>x. [k x]) k"
proof
  show "em_encoded_size E x field b = Inr (b + of_nat (length (enc_bytes (\<lambda>x. [k x]) k x field)))"
    for x field b
    using t by (cases field) (simp_all add: E sz enc_bytes_def body_of_not_len field_bytes_def)
  show "wrote W room w (enc_bytes (\<lambda>x. [k x]) k x field) (em_encode E x field w)" for w x field
  proof (cases field)
    case None
    then show ?thesis
      using t wr by (simp add: E maybe_tag_def body_of_not_len)
  next
    case (Some f)
    then show ?thesis
      using t by (simp add: E maybe_tag_def enc_bytes_def field_bytes_def)
        (intro wrote_bind write_tag_wrote wr)
  qed
  show "kind_wire_type (k x) = em_wire_type E" for x
    using t E by simp
qed

lemma slice_u8_encodes: "encodes W room (slice_u8_encode W) (\<lambda>bs. [KLen bs]) KLen"
proof
  fix bs field b
  show "em_encoded_size (slice_u8_encode W) bs field b
      = Inr (b + of_nat (length (enc_bytes (\<lambda>bs. [KLen bs]) KLen bs field)))"
    by (cases field)
      (simp_all add: slice_u8_encode_def Let_def codec_simps enc_bytes_def field_bytes_def)
next
  fix w bs field
  show "wrote W room w (enc_bytes (\<lambda>bs. [KLen bs]) KLen bs field) (em_encode (slice_u8_encode W) bs field w)"
  proof (cases field)
    case None
    then show ?thesis by (simp add: slice_u8_encode_def write_bytes_wrote)
  next
    case (Some f)
    then show ?thesis
      by (simp add: slice_u8_encode_def enc_bytes_def field_bytes_def)
        (intro wrote_bind encoder_wrote)
  qed
qed (simp add: slice_u8_encode_def)

end

lemma one_field_decodes:
  assumes "\<And>s k is_field. dm_merge D s k is_field = Some (get k)"
    and "\<And>x. ok x \<Longrightarrow> get (k x) = Inr (dec x)" and "\<And>x. ok x \<Longrightarrow> kind_ok (k x)"
  shows "decodes D (\<lambda>x. [k x]) k ok dec"
  by unfold_locales (simp_all add: assms)

lemma codecI:
  assumes "encodes W room E flds nkind" and "decodes D flds nkind ok dec"
    and "em_wire_type E = dm_wire_type D"
    and "\<And>x. ok x \<Longrightarrow> em_is_default E x \<Longrightarrow> dec x = dm_decode_default D"
  shows "codec W room E D flds nkind ok dec"
  using assms by (intro codec.intro codec_axioms.intro)

lemma scast_back [simp]: "ucast (scast (x :: u32) :: u64) = x"
  by (rule bit_word_eqI) (simp add: bit_simps)

lemma ucast_back [simp]: "ucast (ucast (x :: u32) :: u64) = x"
  by (rule bit_word_eqI) (simp add: bit_simps)

section \<open>The contract holds\<close>

context bytes_writer
begin

lemma impl_varint_encodes:
  "encodes W room (impl_varint_encode as_u64 W) (\<lambda>x. [KVarint (as_u64 x)]) (\<lambda>x. KVarint (as_u64 x))"
  by (rule one_field_encodes [where t = WVarint and sz = "\<lambda>x. size_write_varint (as_u64 x)"
        and wr = "\<lambda>x. write_varint W (as_u64 x)"])
    (simp_all add: impl_varint_encode_def codec_simps write_varint_wrote)

lemma impl_varint_codec:
  assumes "\<And>x. from_u64 (as_u64 x) = x"
  shows "codec W room (impl_varint_encode as_u64 W) (impl_varint_decode from_u64)
    (\<lambda>x. [KVarint (as_u64 x)]) (\<lambda>x. KVarint (as_u64 x)) (\<lambda>_. True) (\<lambda>x. x)"
  by (rule codecI [OF impl_varint_encodes one_field_decodes
        [where get = "\<lambda>k. rbind (try_unwrap_varint k) (\<lambda>num. Inr (from_u64 num))"]])
    (simp_all add: impl_varint_encode_def impl_varint_decode_def assms)

lemma bool_codec:
  "codec W room (bool_encode W) bool_decode
    (\<lambda>x. [KVarint (of_bool x)]) (\<lambda>x. KVarint (of_bool x)) (\<lambda>_. True) (\<lambda>x. x)"
  by (rule codecI [OF one_field_encodes [where t = WVarint and sz = "\<lambda>x. size_write_varint (of_bool x)"
          and wr = "\<lambda>x. write_varint W (of_bool x)"]
        one_field_decodes [where get = "\<lambda>k. rbind (try_unwrap_varint k) (\<lambda>num. Inr (num \<noteq> 0))"]])
    (simp_all add: bool_encode_def bool_decode_def codec_simps write_varint_wrote)

text \<open>
  A float is read back bit by bit, except that a negative zero is left out of a message as
  if it was the default.
\<close>

lemma f32_codec:
  "codec W room (f32_encode W) f32_decode
    (\<lambda>x. [KI32 x]) KI32 (\<lambda>bits. bits \<noteq> 0x80000000) (\<lambda>x. x)"
  by (rule codecI [OF one_field_encodes [where t = WI32 and sz = size_write_i32 and wr = "write_i32 W"]
        one_field_decodes [where get = "\<lambda>k. rbind (try_unwrap_i32 k) (\<lambda>num. Inr num)"]])
    (simp_all add: f32_encode_def f32_decode_def codec_simps write_i32_wrote
      del: length_le_bytes)

lemma f64_codec:
  "codec W room (f64_encode W) f64_decode
    (\<lambda>x. [KI64 x]) KI64 (\<lambda>bits. bits \<noteq> 0x8000000000000000) (\<lambda>x. x)"
  by (rule codecI [OF one_field_encodes [where t = WI64 and sz = size_write_i64 and wr = "write_i64 W"]
        one_field_decodes [where get = "\<lambda>k. rbind (try_unwrap_i64 k) (\<lambda>num. Inr num)"]])
    (simp_all add: f64_encode_def f64_decode_def codec_simps write_i64_wrote
      del: length_le_bytes)

text \<open>The length of a byte string is written as a \<open>u64\<close>.\<close>

lemma bytes_codec:
  "codec W room (slice_u8_encode W) vec_u8_decode
    (\<lambda>bs. [KLen bs]) KLen (\<lambda>bs. length bs < 2 ^ 64) (\<lambda>bs. bs)"
  by (rule codecI [OF slice_u8_encodes one_field_decodes
        [where get = "\<lambda>k. rbind (try_unwrap_len k) (\<lambda>bs. Inr bs)"]])
    (simp_all add: slice_u8_encode_def vec_u8_decode_def)

lemma array_u8_codec:
  "codec W room (slice_u8_encode W) (array_u8_decode S)
    (\<lambda>bs. [KLen bs]) KLen (\<lambda>bs. length bs = S \<and> S < 2 ^ 64) (\<lambda>bs. bs)"
  by (rule codecI [OF slice_u8_encodes one_field_decodes
        [where get = "\<lambda>k. rbind (try_unwrap_len k) (\<lambda>bs. if length bs \<noteq> S then Inl (ExpectedArrayLen S) else Inr bs)"]])
    (auto simp: slice_u8_encode_def array_u8_decode_def)

lemma string_codec:
  "codec W room (string_encode W) string_decode
    (\<lambda>bs. [KLen bs]) KLen (\<lambda>bs. utf8_valid bs \<and> length bs < 2 ^ 64) (\<lambda>bs. bs)"
  unfolding string_encode_def
  by (rule codecI [OF slice_u8_encodes one_field_decodes
        [where get = "\<lambda>k. rbind (try_unwrap_len k) (\<lambda>bs. if utf8_valid bs then Inr bs else Inl ExpectedUtf8)"]])
    (simp_all add: slice_u8_encode_def string_decode_def)

lemma i32_codec:
  "codec W room (i32_encode W) int32_decode
    (\<lambda>x. [KVarint (scast x)]) (\<lambda>x. KVarint (scast x)) (\<lambda>_. True) (\<lambda>x. x)"
  by (simp add: i32_encode_def int32_decode_def impl_varint_codec)

lemma u32_codec:
  "codec W room (u32_encode W) int32_decode
    (\<lambda>x. [KVarint (ucast x)]) (\<lambda>x. KVarint (ucast x)) (\<lambda>_. True) (\<lambda>x. x)"
  by (simp add: u32_encode_def int32_decode_def impl_varint_codec)

lemma i64_codec:
  "codec W room (i64_encode W) int64_decode
    (\<lambda>x. [KVarint (x)]) (\<lambda>x. KVarint (x)) (\<lambda>_. True) (\<lambda>x. x)"
  by (simp add: i64_encode_def int64_decode_def impl_varint_codec)

lemma u64_codec:
  "codec W room (u64_encode W) int64_decode
    (\<lambda>x. [KVarint (x)]) (\<lambda>x. KVarint (x)) (\<lambda>_. True) (\<lambda>x. x)"
  by (simp add: u64_encode_def int64_decode_def impl_varint_codec)

end

section \<open>ZigZag\<close>

text \<open>The encoding of \<open>sint32\<close> and \<open>sint64\<close> in the protobuf documentation: \<open>(n << 1) ^ (n >> 31)\<close>.\<close>

definition zigzag :: "'a :: len word \<Rightarrow> 'a word" where
  "zigzag v = push_bit 1 v XOR signed_drop_bit (LENGTH('a) - 1) v"

lemma bit_minus_and_1: "bit (- (v AND 1 :: 'a :: len word)) i \<longleftrightarrow> i < LENGTH('a) \<and> bit v 0"
proof (cases "bit v 0")
  case True
  then have "v AND 1 = 1"
    by (simp add: and_one_eq odd_iff_mod_2_eq_one bit_0)
  with True show ?thesis by simp
next
  case False
  then have "v AND 1 = 0"
    by (simp add: and_one_eq even_iff_mod_2_eq_zero bit_0)
  with False show ?thesis by simp
qed

lemma bit_zigzag:
  "i < LENGTH('a) \<Longrightarrow>
     bit (zigzag v) i \<longleftrightarrow> ((0 < i \<and> bit v (i - 1)) \<noteq> bit (v :: 'a :: len word) (LENGTH('a) - 1))"
  by (cases i) (auto simp: zigzag_def bit_xor_iff bit_signed_drop_bit_iff bit_push_bit_iff
      simp del: push_bit_of_1 push_bit_numeral push_bit_Suc push_bit_eq_mult)

text \<open>
  What the decoder makes of an encoded number: the arithmetic shift copies the second
  highest bit into the sign.
\<close>

lemma bit_zigzag_of_zigzag:
  assumes "2 \<le> LENGTH('a)" and "i < LENGTH('a)"
  shows "bit (zigzag_of (zigzag v)) i \<longleftrightarrow> bit (v :: 'a :: len word) (min i (LENGTH('a) - Suc (Suc 0)))"
proof -
  have "bit (zigzag_of (zigzag v)) i
      \<longleftrightarrow> (bit (zigzag v) (min (Suc i) (LENGTH('a) - 1)) \<noteq> bit (zigzag v) 0)"
    using assms by (auto simp: zigzag_of_def bit_xor_iff bit_signed_drop_bit_iff bit_minus_and_1 min_def)
  also have "\<dots> \<longleftrightarrow> bit v (min i (LENGTH('a) - Suc (Suc 0)))"
    using assms by (auto simp: bit_zigzag min_def not_le numeral_2_eq_2)
  finally show ?thesis .
qed

end
