(* ===== verification/Structs.thy ===== *)
theory Structs
  imports Scalars
begin

text \<open>
  Messages with fields: what \<open>expand_struct\<close> of \<open>protopuffer-codegen\<close> generates for a struct
  with \<open>#[field(n)]\<close> attributes, and what the macros \<open>impl_tuple\<close> of \<open>protopuffer\<close> generate for
  tuples. The fields of the type are a list of descriptors: the number, how to reach the
  field, and the implementation of the field's type.
\<close>

section \<open>The code\<close>

record ('s, 'w) enc_field =
  ef_num :: u64
  ef_is_default :: "'s \<Rightarrow> bool"
  ef_size :: "'s \<Rightarrow> field_opt option \<Rightarrow> size_builder \<Rightarrow> encode_error + size_builder"
  ef_encode :: "'s \<Rightarrow> field_opt option \<Rightarrow> 'w \<Rightarrow> encode_error + 'w"

definition enc_field :: "u64 \<Rightarrow> ('s \<Rightarrow> 'a) \<Rightarrow> ('a, 'w) encode_message \<Rightarrow> ('s, 'w) enc_field" where
  "enc_field n get E = \<lparr>
     ef_num = n,
     ef_is_default = (\<lambda>s. em_is_default E (get s)),
     ef_size = (\<lambda>s. em_encoded_size E (get s)),
     ef_encode = (\<lambda>s. em_encode E (get s))\<rparr>"

definition struct_fields_size :: "('s, 'w) enc_field list \<Rightarrow> 's \<Rightarrow> encode_error + size_builder" where
  "struct_fields_size fs s =
     rfold (\<lambda>f size. if \<not> ef_is_default f s then ef_size f s (Some (field_opt_new (ef_num f))) size
                 else Inr size) fs 0"

definition struct_fields_encode :: "('s, 'w) enc_field list \<Rightarrow> 's \<Rightarrow> 'w \<Rightarrow> encode_error + 'w" where
  "struct_fields_encode fs s =
     rfold (\<lambda>f encoder. if \<not> ef_is_default f s then ef_encode f s (Some (field_opt_new (ef_num f))) encoder
                    else Inr encoder) fs"

definition struct_encode :: "'w bytes_write \<Rightarrow> ('s, 'w) enc_field list \<Rightarrow> ('s, 'w) encode_message" where
  "struct_encode W fs = \<lparr>
     em_wire_type = WLen,
     em_is_default = (\<lambda>_. False),
     em_encoded_size = (\<lambda>s field builder.
       rbind (struct_fields_size fs s) (\<lambda>fields_size.
         let builder' = (case field of
               Some f \<Rightarrow> size_write_len fields_size (size_write_tag (num f) WLen builder)
             | None \<Rightarrow> builder)
         in Inr (size_write_bytes fields_size builder'))),
     em_encode = (\<lambda>s field encoder.
       rbind (case field of
           Some f \<Rightarrow> rbind (write_tag W (num f) WLen encoder) (\<lambda>encoder.
             rbind (struct_fields_size fs s) (\<lambda>fields_size. write_len W fields_size encoder))
         | None \<Rightarrow> Inr encoder)
       (struct_fields_encode fs s))\<rparr>"

record 's dec_field =
  df_num :: u64
  df_merge :: "'s \<Rightarrow> field_kind \<Rightarrow> bool \<Rightarrow> (decode_error + 's) option"

definition dec_field :: "u64 \<Rightarrow> ('s \<Rightarrow> 'a) \<Rightarrow> ('a \<Rightarrow> 's \<Rightarrow> 's) \<Rightarrow> 'a decode_message \<Rightarrow> 's dec_field" where
  "dec_field n get put D = \<lparr>
     df_num = n,
     df_merge = (\<lambda>s k is_field. tbind (dm_merge D (get s) k is_field) (\<lambda>v. Some (Inr (put v s))))\<rparr>"

definition struct_merge_field :: "'s dec_field list \<Rightarrow> 's \<Rightarrow> field \<Rightarrow> (decode_error + 's) option" where
  "struct_merge_field fs s fld =
     (case List.find (\<lambda>f. df_num f = number fld) fs of
        Some f \<Rightarrow> df_merge f s (kind fld) True
      | None \<Rightarrow> Some (Inr s))"

definition struct_decode :: "'r bytes_read \<Rightarrow> 's dec_field list \<Rightarrow> 's \<Rightarrow> 's decode_message" where
  "struct_decode R fs dflt = \<lparr>
     dm_wire_type = WLen,
     dm_decode_default = dflt,
     dm_merge = (\<lambda>s k _. decode_fields R (struct_merge_field fs) s k)\<rparr>"

subsection \<open>Tuples\<close>

definition tuple2_encode where
  "tuple2_encode W A B = struct_encode W [enc_field 0 fst A, enc_field 1 snd B]"

definition tuple3_encode where
  "tuple3_encode W A B C = struct_encode W
     [enc_field 0 fst A, enc_field 1 (fst \<circ> snd) B, enc_field 2 (snd \<circ> snd) C]"

definition tuple4_encode where
  "tuple4_encode W A B C D = struct_encode W
     [enc_field 0 fst A, enc_field 1 (fst \<circ> snd) B, enc_field 2 (fst \<circ> snd \<circ> snd) C,
      enc_field 3 (snd \<circ> snd \<circ> snd) D]"

text \<open>The places of a tuple.\<close>

definition set_fst :: "'a \<Rightarrow> 'a \<times> 'b \<Rightarrow> 'a \<times> 'b" where
  "set_fst v p = (v, snd p)"

definition set_snd :: "'b \<Rightarrow> 'a \<times> 'b \<Rightarrow> 'a \<times> 'b" where
  "set_snd v p = (fst p, v)"

definition in_snd :: "('v \<Rightarrow> 'b \<Rightarrow> 'b) \<Rightarrow> 'v \<Rightarrow> 'a \<times> 'b \<Rightarrow> 'a \<times> 'b" where
  "in_snd put v p = (fst p, put v (snd p))"

definition tuple2_decode where
  "tuple2_decode R A B = struct_decode R
     [dec_field 0 fst set_fst A, dec_field 1 snd set_snd B]
     (dm_decode_default A, dm_decode_default B)"

definition tuple3_decode where
  "tuple3_decode R A B C = struct_decode R
     [dec_field 0 fst set_fst A, dec_field 1 (fst \<circ> snd) (in_snd set_fst) B,
      dec_field 2 (snd \<circ> snd) (in_snd set_snd) C]
     (dm_decode_default A, dm_decode_default B, dm_decode_default C)"

definition tuple4_decode where
  "tuple4_decode R A B C D = struct_decode R
     [dec_field 0 fst set_fst A, dec_field 1 (fst \<circ> snd) (in_snd set_fst) B,
      dec_field 2 (fst \<circ> snd \<circ> snd) (in_snd (in_snd set_fst)) C,
      dec_field 3 (snd \<circ> snd \<circ> snd) (in_snd (in_snd set_snd)) D]
     (dm_decode_default A, dm_decode_default B, dm_decode_default C, dm_decode_default D)"

section \<open>Places\<close>

text \<open>What reading and writing \<open>self.field\<close> satisfies.\<close>

locale place =
  fixes get :: "'s \<Rightarrow> 'a" and put :: "'a \<Rightarrow> 's \<Rightarrow> 's"
  assumes get_put [simp]: "get (put v s) = v"
    and put_get [simp]: "put (get s) s = s"
    and put_put [simp]: "put v (put u s) = put v s"
begin

lemma tfold_at:
  "tfold (\<lambda>s k. tbind (f (get s) k) (\<lambda>v. Some (Inr (put v s)))) s ks
     = tbind (tfold f (get s) ks) (\<lambda>v. Some (Inr (put v s)))"
proof (induction ks arbitrary: s)
  case (Cons k ks)
  show ?case
    by (cases "f (get s) k" rule: result_cases) (simp_all add: Cons)
qed simp

end

interpretation fst_place: place fst set_fst
  by unfold_locales (simp_all add: set_fst_def)

interpretation snd_place: place snd set_snd
  by unfold_locales (simp_all add: set_snd_def)

lemma place_in_snd: "place get put \<Longrightarrow> place (get \<circ> snd) (in_snd put)"
  by (simp add: place_def in_snd_def)

lemma concat_map_concat: "concat (map (\<lambda>x. concat (f x)) xs) = concat (concat (map f xs))"
  by (induction xs) simp_all

lemma find_SomeD: "List.find P xs = Some x \<Longrightarrow> x \<in> set xs \<and> P x"
  by (auto simp: find_Some_iff)

section \<open>The fields of a message\<close>

text \<open>
  A field of a struct, with what it contributes: \<open>fl_kinds s\<close> the kinds written for it,
  \<open>fl_put s t\<close> the struct \<open>t\<close> with this field read back from them, where the field of
  \<open>t\<close> is still the default (\<open>fl_fresh t\<close>).
\<close>

record ('s, 't, 'w) struct_field =
  fl_enc :: "('s, 'w) enc_field"
  fl_dec :: "'t dec_field"
  fl_kinds :: "'s \<Rightarrow> field_kind list"
  fl_put :: "'s \<Rightarrow> 't \<Rightarrow> 't"
  fl_fresh :: "'t \<Rightarrow> bool"
  fl_ok :: "'s \<Rightarrow> bool"

definition field_law :: "'w bytes_write \<Rightarrow> ('w \<Rightarrow> enat) \<Rightarrow> ('s, 't, 'w) struct_field \<Rightarrow> bool" where
  "field_law W room f \<longleftrightarrow>
     (let n = ef_num (fl_enc f); bytes = (\<lambda>s. concat (map (field_bytes n) (fl_kinds f s)))
      in num_ok n \<and> df_num (fl_dec f) = n
       \<and> (\<forall>s b. ef_size (fl_enc f) s (Some (field_opt_new n)) b = Inr (b + of_nat (length (bytes s))))
       \<and> (\<forall>s w. wrote W room w (bytes s) (ef_encode (fl_enc f) s (Some (field_opt_new n)) w))
       \<and> (\<forall>s t. fl_ok f s \<longrightarrow> fl_fresh f t \<longrightarrow>
            tfold (\<lambda>t k. df_merge (fl_dec f) t k True) t (fl_kinds f s) = Some (Inr (fl_put f s t)))
       \<and> (\<forall>s t. fl_ok f s \<longrightarrow> ef_is_default (fl_enc f) s \<longrightarrow> fl_fresh f t \<longrightarrow> fl_put f s t = t)
       \<and> (\<forall>s. fl_ok f s \<longrightarrow> list_all kind_ok (fl_kinds f s))
       \<and> (\<forall>t k b. df_merge (fl_dec f) t k b \<noteq> None))"

definition codec_field where
  "codec_field n get dget dset E D flds ok dec = \<lparr>
     fl_enc = enc_field n get E,
     fl_dec = dec_field n dget dset D,
     fl_kinds = (\<lambda>s. flds (get s)),
     fl_put = (\<lambda>s t. dset (dec (get s)) t),
     fl_fresh = (\<lambda>t. dget t = dm_decode_default D),
     fl_ok = (\<lambda>s. ok (get s))\<rparr>"

lemma codec_field_law:
  assumes c: "codec W room E D flds nkind ok dec" and p: "place dget dset" and n: "num_ok n"
  shows "field_law W room (codec_field n get dget dset E D flds ok dec)"
proof -
  have e: "encodes W room E flds nkind" and d: "decodes D flds nkind ok dec"
    using c by (auto simp: codec_def)
  note size = encodes.size_law [OF e, of _ "Some (field_opt_new n)", unfolded enc_bytes_simps]
    and encode = encodes.encode_law [OF e, of _ _ "Some (field_opt_new n)", unfolded enc_bytes_simps]
  show ?thesis
    unfolding field_law_def Let_def codec_field_def struct_field.simps enc_field_def enc_field.simps
      dec_field_def dec_field.simps
  proof (intro conjI allI impI)
    fix s t
    assume ok: "ok (get s)" and fresh: "dget t = dm_decode_default D"
    show "tfold (\<lambda>t k. tbind (dm_merge D (dget t) k True) (\<lambda>v. Some (Inr (dset v t)))) t (flds (get s))
        = Some (Inr (dset (dec (get s)) t))"
      by (simp add: place.tfold_at [OF p, where f = "\<lambda>v k. dm_merge D v k True"] fresh
          decodes.read_fields [OF d ok])
    show "dset (dec (get s)) t = t" if "em_is_default E (get s)"
      using codec.default_law [OF c ok that] fresh place.put_get [OF p, of t] by simp
  qed (simp_all add: n size encode decodes.flds_ok [OF d] decodes.total [OF d] tbind_eq_None)
qed

definition fl_num :: "('s, 't, 'w) struct_field \<Rightarrow> u64" where
  "fl_num f = ef_num (fl_enc f)"

definition fl_parts :: "'s \<Rightarrow> ('s, 't, 'w) struct_field \<Rightarrow> field list" where
  "fl_parts s f = (if ef_is_default (fl_enc f) s then [] else map (with_number (fl_num f)) (fl_kinds f s))"

definition struct_parts :: "('s, 't, 'w) struct_field list \<Rightarrow> 's \<Rightarrow> field list" where
  "struct_parts fs s = concat (map (fl_parts s) fs)"

definition struct_kind :: "('s, 't, 'w) struct_field list \<Rightarrow> 's \<Rightarrow> field_kind" where
  "struct_kind fs s = KLen (concat (map bytes_of_field (struct_parts fs s)))"

definition struct_ok :: "('s, 't, 'w) struct_field list \<Rightarrow> 's \<Rightarrow> bool" where
  "struct_ok fs s \<longleftrightarrow> list_all (\<lambda>f. fl_ok f s) fs \<and> kind_ok (struct_kind fs s)"

definition struct_put :: "('s, 't, 'w) struct_field list \<Rightarrow> 's \<Rightarrow> 't \<Rightarrow> 't" where
  "struct_put fs s = fold (\<lambda>f. fl_put f s) fs"

text \<open>
  The numbers of a struct's fields differ, and reading one field leaves the others as they
  are.
\<close>

definition struct_law :: "'w bytes_write \<Rightarrow> ('w \<Rightarrow> enat) \<Rightarrow> ('s, 't, 'w) struct_field list \<Rightarrow> bool" where
  "struct_law W room fs \<longleftrightarrow>
     list_all (field_law W room) fs \<and> distinct (map fl_num fs)
     \<and> (\<forall>f \<in> set fs. \<forall>g \<in> set fs. \<forall>s t. fl_num f \<noteq> fl_num g \<longrightarrow> fl_fresh g t \<longrightarrow> fl_fresh g (fl_put f s t))"

lemma struct_parts_simps [simp]:
  "struct_parts [] s = []"
  "struct_parts (f # fs) s = fl_parts s f @ struct_parts fs s"
  by (simp_all add: struct_parts_def)

lemma parts_ok:
  assumes "list_all (field_law W room) fs" and "list_all (\<lambda>f. fl_ok f s) fs"
  shows "list_all field_ok (struct_parts fs s)"
proof -
  have part: "list_all field_ok (fl_parts s f)" if "field_law W room f" "fl_ok f s" for f
  proof -
    have "num_ok (fl_num f)" and "list_all kind_ok (fl_kinds f s)"
      using that by (simp_all add: field_law_def Let_def fl_num_def)
    then show ?thesis
      by (auto simp: fl_parts_def field_ok_def list_all_iff)
  qed
  from assms show ?thesis
    by (induction fs) (simp_all add: part)
qed

lemma find_field:
  assumes "f \<in> set fs" and "distinct (map fl_num fs)" and "list_all (field_law W room) fs"
  shows "List.find (\<lambda>d. df_num d = fl_num f) (map fl_dec fs) = Some (fl_dec f)"
proof -
  have "df_num (fl_dec g) = fl_num g" if "g \<in> set fs" for g
    using that assms(3) by (auto simp: list_all_iff field_law_def Let_def fl_num_def)
  with assms(1,2) show ?thesis
    by (induction fs) (auto simp: image_iff)
qed

lemma tfold_one_number:
  assumes "List.find (\<lambda>d. df_num d = n) ds = Some d"
  shows "tfold (struct_merge_field ds) t (map (with_number n) ks) = tfold (\<lambda>t k. df_merge d t k True) t ks"
proof (induction ks arbitrary: t)
  case (Cons k ks)
  have "struct_merge_field ds t (with_number n k) = df_merge d t k True" for t
    using assms by (simp add: struct_merge_field_def)
  then show ?case by (simp add: Cons)
qed simp

lemma tfold_parts:
  assumes law: "struct_law W room fs" and sub: "set gs \<subseteq> set fs" "distinct (map fl_num gs)"
    and ok: "list_all (\<lambda>f. fl_ok f s) gs" and fresh: "list_all (\<lambda>f. fl_fresh f t) gs"
  shows "tfold (struct_merge_field (map fl_dec fs)) t (struct_parts gs s) = Some (Inr (struct_put gs s t))"
  using sub ok fresh
proof (induction gs arbitrary: t)
  case Nil
  then show ?case by (simp add: struct_put_def)
next
  case (Cons g gs)
  then have g: "g \<in> set fs" "field_law W room g" "fl_ok g s" "fl_fresh g t"
    using law by (auto simp: struct_law_def list_all_iff)
  have "tfold (\<lambda>t k. df_merge (fl_dec g) t k True) t (fl_kinds g s) = Some (Inr (fl_put g s t))"
    and dflt: "ef_is_default (fl_enc g) s \<Longrightarrow> fl_put g s t = t"
    using g by (auto simp: field_law_def Let_def)
  moreover have "List.find (\<lambda>d. df_num d = fl_num g) (map fl_dec fs) = Some (fl_dec g)"
    using law g(1) by (intro find_field) (auto simp: struct_law_def)
  ultimately have here: "tfold (struct_merge_field (map fl_dec fs)) t (fl_parts s g) = Some (Inr (fl_put g s t))"
    by (simp add: fl_parts_def tfold_one_number)
  have "list_all (\<lambda>f. fl_fresh f (fl_put g s t)) gs"
    using law Cons.prems g(1) by (fastforce simp: struct_law_def list_all_iff)
  with Cons.prems have "tfold (struct_merge_field (map fl_dec fs)) (fl_put g s t) (struct_parts gs s)
      = Some (Inr (struct_put gs s (fl_put g s t)))"
    by (intro Cons.IH) simp_all
  with here show ?case
    by (simp add: tfold_append struct_put_def)
qed

section \<open>The contract of a struct\<close>

lemma struct_fields_size_eq:
  assumes "list_all (field_law W room) fs"
  shows "struct_fields_size (map fl_enc fs) s = Inr (of_nat (length (body_of (struct_kind fs s))))"
proof -
  have "struct_fields_size (map fl_enc fs) s
      = Inr (0 + of_nat (length (concat (map (\<lambda>f. concat (map bytes_of_field (fl_parts s f))) fs))))"
    unfolding struct_fields_size_def rfold_map
  proof (rule rfold_size)
    fix f b
    assume "f \<in> set fs"
    with assms have "field_law W room f" by (simp add: list_all_iff)
    then show "(if \<not> ef_is_default (fl_enc f) s
          then ef_size (fl_enc f) s (Some (field_opt_new (ef_num (fl_enc f)))) b else Inr b)
        = Inr (b + of_nat (length (concat (map bytes_of_field (fl_parts s f)))))"
      by (simp add: field_law_def Let_def fl_parts_def fl_num_def o_def)
  qed
  then show ?thesis
    by (simp add: struct_kind_def struct_parts_def map_concat o_def concat_map_concat)
qed

lemma struct_fields_encode_wrote:
  assumes "list_all (field_law W room) fs"
  shows "wrote W room w (body_of (struct_kind fs s)) (struct_fields_encode (map fl_enc fs) s w)"
proof -
  have "wrote W room w (concat (map (\<lambda>f. concat (map bytes_of_field (fl_parts s f))) fs))
      (struct_fields_encode (map fl_enc fs) s w)"
    unfolding struct_fields_encode_def rfold_map
  proof (rule rfold_wrote)
    fix f w
    assume "f \<in> set fs"
    with assms have "field_law W room f" by (simp add: list_all_iff)
    then show "wrote W room w (concat (map bytes_of_field (fl_parts s f)))
        (if \<not> ef_is_default (fl_enc f) s
          then ef_encode (fl_enc f) s (Some (field_opt_new (ef_num (fl_enc f)))) w else Inr w)"
      by (simp add: field_law_def Let_def fl_parts_def fl_num_def o_def)
  qed
  then show ?thesis
    by (simp add: struct_kind_def struct_parts_def map_concat o_def concat_map_concat)
qed

context bytes_writer
begin

text \<open>A message whose inside is measured and written by its fields.\<close>

lemma message_encodes:
  assumes wire: "em_wire_type E = WLen" "\<And>s. kind_wire_type (k s) = WLen"
    and size: "\<And>s field b. em_encoded_size E s field b = rbind (fsize s) (\<lambda>n.
      Inr (size_write_bytes n (case field of
        Some f \<Rightarrow> size_write_len n (size_write_tag (num f) WLen b) | None \<Rightarrow> b)))"
    and encode: "\<And>s field w. em_encode E s field w = rbind (case field of
        Some f \<Rightarrow> rbind (write_tag W (num f) WLen w) (\<lambda>w. rbind (fsize s) (\<lambda>n. write_len W n w))
      | None \<Rightarrow> Inr w) (fencode s)"
    and fsize: "\<And>s. fsize s = Inr (of_nat (length (body_of (k s))))"
    and fencode: "\<And>s w. wrote W room w (body_of (k s)) (fencode s w)"
  shows "encodes W room E (\<lambda>s. [k s]) k"
proof
  fix s field b
  obtain bs where k: "k s = KLen bs" using wire(2) body_of_len by blast
  show "em_encoded_size E s field b = Inr (b + of_nat (length (enc_bytes (\<lambda>s. [k s]) k s field)))"
    by (cases field) (simp_all add: size fsize codec_simps enc_bytes_def field_bytes_def k)
next
  fix w s field
  obtain bs where k: "k s = KLen bs" using wire(2) body_of_len by blast
  have body: "wrote W room w bs (fencode s w)" for w
    using fencode [of w s] by (simp add: k)
  show "wrote W room w (enc_bytes (\<lambda>s. [k s]) k s field) (em_encode E s field w)"
  proof (cases field)
    case None
    with body show ?thesis by (simp add: encode k)
  next
    case (Some f)
    then show ?thesis
      by (simp add: encode fsize enc_bytes_def field_bytes_def k)
        (intro wrote_bind encoder_wrote body)
  qed
qed (simp add: wire)

lemma struct_encodes:
  assumes "list_all (field_law W room) fs"
  shows "encodes W room (struct_encode W (map fl_enc fs)) (\<lambda>s. [struct_kind fs s]) (struct_kind fs)"
  by (rule message_encodes [OF _ _ _ _ struct_fields_size_eq struct_fields_encode_wrote, OF _ _ _ _ assms assms])
    (simp_all add: struct_encode_def struct_kind_def)

end

context bytes_reader
begin

lemma struct_decodes:
  assumes law: "struct_law W room fs" and fresh: "list_all (\<lambda>f. fl_fresh f dflt) fs"
    and dec: "\<And>s. struct_ok fs s \<Longrightarrow> struct_put fs s dflt = dec s"
  shows "decodes (struct_decode R (map fl_dec fs) dflt)
    (\<lambda>s. [struct_kind fs s]) (struct_kind fs) (struct_ok fs) dec"
proof
  fix s k is_field
  have "struct_merge_field (map fl_dec fs) s f \<noteq> None" for s f
    using law by (auto simp: struct_merge_field_def struct_law_def list_all_iff field_law_def Let_def
        dest!: find_SomeD split: option.split)
  then show "dm_merge (struct_decode R (map fl_dec fs) dflt) s k is_field \<noteq> None"
    by (simp add: struct_decode_def decode_fields_total)
next
  fix s
  assume ok: "struct_ok fs s"
  have "fields_of (body_of (struct_kind fs s)) = (struct_parts fs s, None)"
    using law ok fields_of_bytes [OF parts_ok, of W room fs s]
    by (simp add: struct_kind_def struct_ok_def struct_law_def)
  moreover have "tfold (struct_merge_field (map fl_dec fs)) dflt (struct_parts fs s) = Some (Inr (dec s))"
    using tfold_parts [OF law subset_refl _ _ fresh] law ok dec by (simp add: struct_law_def struct_ok_def)
  ultimately show read: "dm_merge (struct_decode R (map fl_dec fs) dflt)
      (dm_decode_default (struct_decode R (map fl_dec fs) dflt)) (struct_kind fs s) False = Some (Inr (dec s))"
    by (simp add: struct_decode_def struct_kind_def codec_simps)
  then show "tfold (\<lambda>s k. dm_merge (struct_decode R (map fl_dec fs) dflt) s k True)
      (dm_decode_default (struct_decode R (map fl_dec fs) dflt)) [struct_kind fs s] = Some (Inr (dec s))"
    by (simp add: struct_decode_def)
qed (simp_all add: struct_ok_def)

end

lemma struct_codec:
  assumes "bytes_writer W room" and "bytes_reader R"
    and "struct_law W room fs" and "list_all (\<lambda>f. fl_fresh f dflt) fs"
    and "\<And>s. struct_ok fs s \<Longrightarrow> struct_put fs s dflt = dec s"
  shows "codec W room (struct_encode W (map fl_enc fs)) (struct_decode R (map fl_dec fs) dflt)
    (\<lambda>s. [struct_kind fs s]) (struct_kind fs) (struct_ok fs) dec"
proof (rule codecI)
  show "encodes W room (struct_encode W (map fl_enc fs)) (\<lambda>s. [struct_kind fs s]) (struct_kind fs)"
    using assms by (intro bytes_writer.struct_encodes) (simp_all add: struct_law_def)
  show "decodes (struct_decode R (map fl_dec fs) dflt)
      (\<lambda>s. [struct_kind fs s]) (struct_kind fs) (struct_ok fs) dec"
    using assms by (intro bytes_reader.struct_decodes)
qed (simp_all add: struct_encode_def struct_decode_def)

section \<open>Tuples\<close>

text \<open>A type with its contract, as one argument of the lemmas below.\<close>

record ('a, 'b, 'w) message_type =
  mt_enc :: "('a, 'w) encode_message"
  mt_dec :: "'b decode_message"
  mt_flds :: "'a \<Rightarrow> field_kind list"
  mt_nkind :: "'a \<Rightarrow> field_kind"
  mt_ok :: "'a \<Rightarrow> bool"
  mt_val :: "'a \<Rightarrow> 'b"

definition lawful :: "'w bytes_write \<Rightarrow> ('w \<Rightarrow> enat) \<Rightarrow> ('a, 'b, 'w) message_type \<Rightarrow> bool" where
  "lawful W room T \<longleftrightarrow> codec W room (mt_enc T) (mt_dec T) (mt_flds T) (mt_nkind T) (mt_ok T) (mt_val T)"

definition type_field ::
    "u64 \<Rightarrow> ('s \<Rightarrow> 'a) \<Rightarrow> ('t \<Rightarrow> 'b) \<Rightarrow> ('b \<Rightarrow> 't \<Rightarrow> 't) \<Rightarrow> ('a, 'b, 'w) message_type \<Rightarrow> ('s, 't, 'w) struct_field" where
  "type_field n get dget dset T = codec_field n get dget dset (mt_enc T) (mt_dec T) (mt_flds T) (mt_ok T) (mt_val T)"

lemma type_field_law:
  "lawful W room T \<Longrightarrow> place dget dset \<Longrightarrow> num_ok n \<Longrightarrow> field_law W room (type_field n get dget dset T)"
  unfolding lawful_def type_field_def by (rule codec_field_law)

lemma type_field_simps [simp]:
  "fl_num (type_field n get dget dset T) = n"
  "fl_enc (type_field n get dget dset T) = enc_field n get (mt_enc T)"
  "fl_dec (type_field n get dget dset T) = dec_field n dget dset (mt_dec T)"
  "fl_put (type_field n get dget dset T) s t = dset (mt_val T (get s)) t"
  "fl_fresh (type_field n get dget dset T) t \<longleftrightarrow> dget t = dm_decode_default (mt_dec T)"
  "fl_ok (type_field n get dget dset T) s \<longleftrightarrow> mt_ok T (get s)"
  by (simp_all add: type_field_def codec_field_def fl_num_def enc_field_def)

lemma small_num_ok [simp]: "num_ok 0" "num_ok 1" "num_ok (numeral n) \<longleftrightarrow> unat (numeral n :: u64) < 2 ^ 61"
  by (simp_all add: num_ok_def)

definition tuple2_fields ::
    "('a, 'b, 'w) message_type \<Rightarrow> ('c, 'd, 'w) message_type \<Rightarrow> ('a \<times> 'c, 'b \<times> 'd, 'w) struct_field list" where
  "tuple2_fields A B = [type_field 0 fst fst set_fst A, type_field 1 snd snd set_snd B]"

definition tuple2_type where
  "tuple2_type W R A B = \<lparr>
     mt_enc = tuple2_encode W (mt_enc A) (mt_enc B),
     mt_dec = tuple2_decode R (mt_dec A) (mt_dec B),
     mt_flds = (\<lambda>s. [struct_kind (tuple2_fields A B) s]),
     mt_nkind = struct_kind (tuple2_fields A B),
     mt_ok = struct_ok (tuple2_fields A B),
     mt_val = map_prod (mt_val A) (mt_val B)\<rparr>"

lemma tuple2_lawful:
  assumes "bytes_writer W room" and "bytes_reader R" and "lawful W room A" and "lawful W room B"
  shows "lawful W room (tuple2_type W R A B)"
proof -
  have "struct_law W room (tuple2_fields A B)"
    using assms by (auto simp: struct_law_def tuple2_fields_def set_fst_def set_snd_def
        type_field_law fst_place.place_axioms snd_place.place_axioms)
  then show ?thesis
    using struct_codec [of W room R "tuple2_fields A B"
        "(dm_decode_default (mt_dec A), dm_decode_default (mt_dec B))" "map_prod (mt_val A) (mt_val B)"] assms
    by (simp add: lawful_def tuple2_type_def tuple2_encode_def tuple2_decode_def tuple2_fields_def
        struct_put_def set_fst_def set_snd_def map_prod_def split_beta)
qed

definition tuple3_fields ::
    "('a, 'b, 'w) message_type \<Rightarrow> ('c, 'd, 'w) message_type \<Rightarrow> ('e, 'f, 'w) message_type
      \<Rightarrow> ('a \<times> 'c \<times> 'e, 'b \<times> 'd \<times> 'f, 'w) struct_field list" where
  "tuple3_fields A B C =
     [type_field 0 fst fst set_fst A, type_field 1 (fst \<circ> snd) (fst \<circ> snd) (in_snd set_fst) B,
      type_field 2 (snd \<circ> snd) (snd \<circ> snd) (in_snd set_snd) C]"

definition tuple3_type where
  "tuple3_type W R A B C = \<lparr>
     mt_enc = tuple3_encode W (mt_enc A) (mt_enc B) (mt_enc C),
     mt_dec = tuple3_decode R (mt_dec A) (mt_dec B) (mt_dec C),
     mt_flds = (\<lambda>s. [struct_kind (tuple3_fields A B C) s]),
     mt_nkind = struct_kind (tuple3_fields A B C),
     mt_ok = struct_ok (tuple3_fields A B C),
     mt_val = map_prod (mt_val A) (map_prod (mt_val B) (mt_val C))\<rparr>"

lemma tuple3_lawful:
  assumes "bytes_writer W room" and "bytes_reader R"
    and "lawful W room A" and "lawful W room B" and "lawful W room C"
  shows "lawful W room (tuple3_type W R A B C)"
proof -
  have "struct_law W room (tuple3_fields A B C)"
    using assms by (auto simp: struct_law_def tuple3_fields_def set_fst_def set_snd_def in_snd_def
        type_field_law fst_place.place_axioms place_in_snd [OF fst_place.place_axioms]
        place_in_snd [OF snd_place.place_axioms])
  then show ?thesis
    using struct_codec [of W room R "tuple3_fields A B C"
        "(dm_decode_default (mt_dec A), dm_decode_default (mt_dec B), dm_decode_default (mt_dec C))"
        "map_prod (mt_val A) (map_prod (mt_val B) (mt_val C))"] assms
    by (simp add: lawful_def tuple3_type_def tuple3_encode_def tuple3_decode_def tuple3_fields_def
        struct_put_def set_fst_def set_snd_def in_snd_def map_prod_def split_beta)
qed

end
