(* ===== verification/Containers.thy ===== *)
theory Containers
  imports Structs
begin

text \<open>
  The implementations of \<open>EncodeMessage\<close> and \<open>DecodeMessage\<close> for \<open>[V]\<close> and \<open>Vec<V>\<close>, \<open>Option<V>\<close>
  and \<open>HashMap<K, V>\<close>. A map is encoded in the order in which it is iterated over, so the
  encoder sees the list of its entries.
\<close>

section \<open>The code: \<open>Vec\<close>\<close>

text \<open>\<open>FieldOpt { num: field.num, is_nested: true }\<close>\<close>

definition nested_in :: "field_opt \<Rightarrow> field_opt option" where
  "nested_in field = Some \<lparr>num = num field, is_nested = True\<rparr>"

definition field_or_1 :: "field_opt option \<Rightarrow> field_opt" where
  "field_or_1 field = (case field of Some f \<Rightarrow> f | None \<Rightarrow> field_opt_new 1)"

definition nested_measure :: "field_opt option \<Rightarrow> nat" where
  "nested_measure field = of_bool (is_nested (field_or_1 field))"

lemma field_or_1_simps [simp]:
  "field_or_1 None = field_opt_new 1"
  "field_or_1 (Some f) = f"
  "is_nested (field_opt_new n) \<longleftrightarrow> False"
  "num (field_opt_new n) = n"
  by (simp_all add: field_or_1_def field_opt_new_def)

function vec_encoded_size ::
    "('a, 'w) encode_message \<Rightarrow> 'a list \<Rightarrow> field_opt option \<Rightarrow> size_builder \<Rightarrow> encode_error + size_builder" where
  "vec_encoded_size V self field0 builder =
     (let field = field_or_1 field0 in
      if is_nested field then
        let builder = size_write_tag (num field) WLen builder in
        rbind (vec_encoded_size V self None 0) (\<lambda>size.
          Inr (size_write_bytes size (size_write_len size builder)))
      else if can_be_packed (em_wire_type V) \<and> 1 < length self then
        let builder = size_write_tag (num field) WLen builder in
        rbind (rfold (\<lambda>v. em_encoded_size V v None) self 0) (\<lambda>packed_size.
          Inr (size_write_bytes packed_size (size_write_len packed_size builder)))
      else rfold (\<lambda>v. em_encoded_size V v (nested_in field)) self builder)"
  by pat_completeness auto
termination
  by (relation "measure (\<lambda>(V, self, field, builder). nested_measure field)") (auto simp: nested_measure_def)

function vec_encode_to ::
    "'w bytes_write \<Rightarrow> ('a, 'w) encode_message \<Rightarrow> 'a list \<Rightarrow> field_opt option \<Rightarrow> 'w \<Rightarrow> encode_error + 'w" where
  "vec_encode_to W V self field0 encoder =
     (let field = field_or_1 field0 in
      if is_nested field then
        rbind (write_tag W (num field) WLen encoder) (\<lambda>encoder.
        rbind (vec_encoded_size V self None 0) (\<lambda>size.
        rbind (write_len W size encoder) (\<lambda>encoder.
          vec_encode_to W V self None encoder)))
      else if can_be_packed (em_wire_type V) \<and> 1 < length self then
        rbind (write_tag W (num field) WLen encoder) (\<lambda>encoder.
        rbind (rfold (\<lambda>v. em_encoded_size V v None) self 0) (\<lambda>packed_size.
        rbind (write_len W packed_size encoder) (\<lambda>encoder.
          rfold (\<lambda>v. em_encode V v None) self encoder)))
      else rfold (\<lambda>v. em_encode V v (nested_in field)) self encoder)"
  by pat_completeness auto
termination
  by (relation "measure (\<lambda>(W, V, self, field, encoder). nested_measure field)") (auto simp: nested_measure_def)

declare vec_encoded_size.simps [simp del] vec_encode_to.simps [simp del]

definition vec_encode :: "'w bytes_write \<Rightarrow> ('a, 'w) encode_message \<Rightarrow> ('a list, 'w) encode_message" where
  "vec_encode W V = \<lparr>
     em_wire_type = WLen,
     em_is_default = (\<lambda>self. self = []),
     em_encoded_size = vec_encoded_size V,
     em_encode = vec_encode_to W V\<rparr>"

text \<open>One \<open>merge(kind, true)\<close>, and the whole \<open>merge\<close>.\<close>

definition vec_push_merged :: "'a decode_message \<Rightarrow> 'a list \<Rightarrow> field_kind \<Rightarrow> (decode_error + 'a list) option" where
  "vec_push_merged V self k =
     tbind (dm_merge V (dm_decode_default V) k False) (\<lambda>v. Some (Inr (self @ [v])))"

definition vec_merge_field :: "'r bytes_read \<Rightarrow> 'a decode_message \<Rightarrow> 'a list \<Rightarrow> field_kind \<Rightarrow> (decode_error + 'a list) option" where
  "vec_merge_field R V self k =
     (if is_len k \<and> can_be_packed (dm_wire_type V)
      then decode_packed R (dm_wire_type V) (vec_push_merged V) self k
      else vec_push_merged V self k)"

text \<open>\<open>if field.number != 1 { continue; } self.merge(field.kind, true)?\<close>\<close>

definition merge_number_1 :: "('s \<Rightarrow> field_kind \<Rightarrow> (decode_error + 's) option) \<Rightarrow> 's \<Rightarrow> field \<Rightarrow> (decode_error + 's) option" where
  "merge_number_1 merge_field self field =
     (if number field \<noteq> 1 then Some (Inr self) else merge_field self (kind field))"

definition vec_decode :: "'r bytes_read \<Rightarrow> 'a decode_message \<Rightarrow> 'a list decode_message" where
  "vec_decode R V = \<lparr>
     dm_wire_type = WLen,
     dm_decode_default = [],
     dm_merge = (\<lambda>self k is_field.
       if \<not> is_field then decode_fields R (merge_number_1 (vec_merge_field R V)) self k
       else vec_merge_field R V self k)\<rparr>"

section \<open>The code: \<open>Option\<close>\<close>

function option_encoded_size ::
    "('a, 'w) encode_message \<Rightarrow> 'a option \<Rightarrow> field_opt option \<Rightarrow> size_builder \<Rightarrow> encode_error + size_builder" where
  "option_encoded_size V self field0 builder =
     (let field = field_or_1 field0 in
      if is_nested field then
        let builder = size_write_tag (num field) WLen builder in
        rbind (option_encoded_size V self None 0) (\<lambda>size.
          Inr (size_write_bytes size (size_write_len size builder)))
      else case self of
        Some v \<Rightarrow> em_encoded_size V v (nested_in field) builder
      | None \<Rightarrow> Inr builder)"
  by pat_completeness auto
termination
  by (relation "measure (\<lambda>(V, self, field, builder). nested_measure field)") (auto simp: nested_measure_def)

function option_encode_to ::
    "'w bytes_write \<Rightarrow> ('a, 'w) encode_message \<Rightarrow> 'a option \<Rightarrow> field_opt option \<Rightarrow> 'w \<Rightarrow> encode_error + 'w" where
  "option_encode_to W V self field0 encoder =
     (let field = field_or_1 field0 in
      if is_nested field then
        rbind (write_tag W (num field) WLen encoder) (\<lambda>encoder.
        rbind (option_encoded_size V self None 0) (\<lambda>size.
        rbind (write_len W size encoder) (\<lambda>encoder.
          option_encode_to W V self None encoder)))
      else case self of
        Some v \<Rightarrow> em_encode V v (nested_in field) encoder
      | None \<Rightarrow> Inr encoder)"
  by pat_completeness auto
termination
  by (relation "measure (\<lambda>(W, V, self, field, encoder). nested_measure field)") (auto simp: nested_measure_def)

declare option_encoded_size.simps [simp del] option_encode_to.simps [simp del]

definition option_encode :: "'w bytes_write \<Rightarrow> ('a, 'w) encode_message \<Rightarrow> ('a option, 'w) encode_message" where
  "option_encode W V = \<lparr>
     em_wire_type = WLen,
     em_is_default = (\<lambda>self. self = None),
     em_encoded_size = option_encoded_size V,
     em_encode = option_encode_to W V\<rparr>"

definition option_merge_field :: "'a decode_message \<Rightarrow> 'a option \<Rightarrow> field_kind \<Rightarrow> (decode_error + 'a option) option" where
  "option_merge_field V self k =
     (case self of
        Some v \<Rightarrow> tbind (dm_merge V v k False) (\<lambda>v'. Some (Inr (Some v')))
      | None \<Rightarrow> tbind (dm_merge V (dm_decode_default V) k False) (\<lambda>v. Some (Inr (Some v))))"

definition option_decode :: "'r bytes_read \<Rightarrow> 'a decode_message \<Rightarrow> 'a option decode_message" where
  "option_decode R V = \<lparr>
     dm_wire_type = WLen,
     dm_decode_default = None,
     dm_merge = (\<lambda>self k is_field.
       if \<not> is_field then decode_fields R (merge_number_1 (option_merge_field V)) self k
       else option_merge_field V self k)\<rparr>"

section \<open>The code: \<open>HashMap\<close>\<close>

function map_encoded_size ::
    "'w bytes_write \<Rightarrow> ('k, 'w) encode_message \<Rightarrow> ('v, 'w) encode_message \<Rightarrow> ('k \<times> 'v) list \<Rightarrow> field_opt option
       \<Rightarrow> size_builder \<Rightarrow> encode_error + size_builder" where
  "map_encoded_size W K V self field0 builder =
     (let field = field_or_1 field0 in
      if is_nested field then
        let builder = size_write_tag (num field) WLen builder in
        rbind (map_encoded_size W K V self None 0) (\<lambda>size.
          Inr (size_write_bytes size (size_write_len size builder)))
      else rfold (\<lambda>kv. em_encoded_size (tuple2_encode W K V) kv (nested_in field)) self builder)"
  by pat_completeness auto
termination
  by (relation "measure (\<lambda>(W, K, V, self, field, builder). nested_measure field)") (auto simp: nested_measure_def)

function map_encode_to ::
    "'w bytes_write \<Rightarrow> ('k, 'w) encode_message \<Rightarrow> ('v, 'w) encode_message \<Rightarrow> ('k \<times> 'v) list \<Rightarrow> field_opt option
       \<Rightarrow> 'w \<Rightarrow> encode_error + 'w" where
  "map_encode_to W K V self field0 encoder =
     (let field = field_or_1 field0 in
      if is_nested field then
        rbind (write_tag W (num field) WLen encoder) (\<lambda>encoder.
        rbind (map_encoded_size W K V self None 0) (\<lambda>size.
        rbind (write_len W size encoder) (\<lambda>encoder.
          map_encode_to W K V self None encoder)))
      else rfold (\<lambda>kv. em_encode (tuple2_encode W K V) kv (nested_in field)) self encoder)"
  by pat_completeness auto
termination
  by (relation "measure (\<lambda>(W, K, V, self, field, encoder). nested_measure field)") (auto simp: nested_measure_def)

declare map_encoded_size.simps [simp del] map_encode_to.simps [simp del]

definition hash_map_encode ::
    "'w bytes_write \<Rightarrow> ('k, 'w) encode_message \<Rightarrow> ('v, 'w) encode_message \<Rightarrow> (('k \<times> 'v) list, 'w) encode_message" where
  "hash_map_encode W K V = \<lparr>
     em_wire_type = WLen,
     em_is_default = (\<lambda>self. self = []),
     em_encoded_size = map_encoded_size W K V,
     em_encode = map_encode_to W K V\<rparr>"

definition map_merge_field ::
    "'r bytes_read \<Rightarrow> 'k decode_message \<Rightarrow> 'v decode_message \<Rightarrow> ('k \<rightharpoonup> 'v) \<Rightarrow> field_kind
       \<Rightarrow> (decode_error + ('k \<rightharpoonup> 'v)) option" where
  "map_merge_field R K V self k =
     (let pair = tuple2_decode R K V
      in tbind (dm_merge pair (dm_decode_default pair) k False) (\<lambda>field.
           Some (Inr (self(fst field \<mapsto> snd field)))))"

definition hash_map_decode ::
    "'r bytes_read \<Rightarrow> 'k decode_message \<Rightarrow> 'v decode_message \<Rightarrow> ('k \<rightharpoonup> 'v) decode_message" where
  "hash_map_decode R K V = \<lparr>
     dm_wire_type = WLen,
     dm_decode_default = Map.empty,
     dm_merge = (\<lambda>self k is_field.
       if \<not> is_field then decode_fields R (merge_number_1 (map_merge_field R K V)) self k
       else map_merge_field R K V self k)\<rparr>"

section \<open>A repeated field\<close>

text \<open>
  The three types share a shape: the value is a repeated field, and where the number may
  not be repeated or there is none, a message whose field 1 is repeated.
\<close>

definition inner_message :: "field_kind list \<Rightarrow> field_kind" where
  "inner_message ks = KLen (concat (map (field_bytes 1) ks))"

context bytes_writer
begin

lemma repeated_encodes:
  assumes wire: "em_wire_type E = WLen"
    and size: "\<And>x field b. \<not> is_nested (field_or_1 field) \<Longrightarrow> em_encoded_size E x field b
      = Inr (b + of_nat (length (concat (map (field_bytes (num (field_or_1 field))) (flds x)))))"
    and size_nested: "\<And>x f b. is_nested f \<Longrightarrow> em_encoded_size E x (Some f) b
      = rbind (em_encoded_size E x None 0) (\<lambda>size.
          Inr (size_write_bytes size (size_write_len size (size_write_tag (num f) WLen b))))"
    and encode: "\<And>x field w. \<not> is_nested (field_or_1 field) \<Longrightarrow>
      wrote W room w (concat (map (field_bytes (num (field_or_1 field))) (flds x))) (em_encode E x field w)"
    and encode_nested: "\<And>x f w. is_nested f \<Longrightarrow> em_encode E x (Some f) w
      = rbind (write_tag W (num f) WLen w) (\<lambda>w. rbind (em_encoded_size E x None 0) (\<lambda>size.
          rbind (write_len W size w) (\<lambda>w. em_encode E x None w)))"
  shows "encodes W room E flds (\<lambda>x. inner_message (flds x))"
proof
  fix x field b
  show "em_encoded_size E x field b
      = Inr (b + of_nat (length (enc_bytes flds (\<lambda>x. inner_message (flds x)) x field)))"
    by (cases field)
      (auto simp: size size_nested codec_simps enc_bytes_def inner_message_def field_bytes_def)
next
  fix w x field
  have inner: "wrote W room w (concat (map (field_bytes 1) (flds x))) (em_encode E x None w)" for w
    using encode [of None w x] by simp
  show "wrote W room w (enc_bytes flds (\<lambda>x. inner_message (flds x)) x field) (em_encode E x field w)"
  proof (cases field)
    case None
    with inner show ?thesis by (simp add: inner_message_def)
  next
    case (Some f)
    show ?thesis
    proof (cases "is_nested f")
      case True
      with Some show ?thesis
        by (simp add: encode_nested size enc_bytes_def inner_message_def field_bytes_def)
          (intro wrote_bind encoder_wrote inner)
    next
      case False
      with Some encode [of field w x] show ?thesis by (simp add: enc_bytes_def)
    qed
  qed
qed (simp add: inner_message_def wire)

end

context bytes_reader
begin

lemma merge_number_1_fold:
  "tfold (merge_number_1 f) s (map (with_number 1) ks) = tfold f s ks"
  by (induction ks arbitrary: s) (simp_all add: merge_number_1_def)

lemma repeated_decodes:
  assumes merge: "dm_merge D = (\<lambda>self k is_field.
      if \<not> is_field then decode_fields R (merge_number_1 f) self k else f self k)"
    and total: "\<And>s k. f s k \<noteq> None"
    and fold: "\<And>x. ok x \<Longrightarrow> tfold f (dm_decode_default D) (flds x) = Some (Inr (dec x))"
    and nk: "\<And>x. ok x \<Longrightarrow> kind_ok (inner_message (flds x))"
    and flds: "\<And>x. ok x \<Longrightarrow> list_all kind_ok (flds x)"
  shows "decodes D flds (\<lambda>x. inner_message (flds x)) ok dec"
proof
  have "merge_number_1 f s fl \<noteq> None" for s fl
    using total [of s "kind fl"] by (simp add: merge_number_1_def)
  then show "dm_merge D s k is_field \<noteq> None" for s k is_field
    by (simp add: merge decode_fields_total total del: not_None_eq)
next
  fix x
  assume ok: "ok x"
  have "fields_of (concat (map (field_bytes 1) (flds x)) @ []) = (map (with_number 1) (flds x), None)"
    using fields_of_concat [OF _ flds [OF ok], of 1 "[]"] by simp
  then show "dm_merge D (dm_decode_default D) (inner_message (flds x)) False = Some (Inr (dec x))"
    by (simp add: merge inner_message_def codec_simps merge_number_1_fold fold [OF ok])
  show "tfold (\<lambda>s k. dm_merge D s k True) (dm_decode_default D) (flds x) = Some (Inr (dec x))"
    by (simp add: merge fold [OF ok])
qed (simp_all add: nk flds)

end

text \<open>A part of a message that fits is not too long itself.\<close>

lemma kind_ok_part: "k \<in> set ks \<Longrightarrow> kind_ok (inner_message ks) \<Longrightarrow> kind_ok k"
proof (induction ks)
  case (Cons a ks)
  show ?case
  proof (cases "k = a")
    case True
    with Cons.prems show ?thesis
      by (cases a) (simp_all add: inner_message_def field_bytes_def)
  next
    case False
    with Cons show ?thesis by (simp add: inner_message_def)
  qed
qed simp

section \<open>\<open>Option\<close>\<close>

definition option_flds :: "('a \<Rightarrow> field_kind) \<Rightarrow> 'a option \<Rightarrow> field_kind list" where
  "option_flds nkind x = (case x of Some v \<Rightarrow> [nkind v] | None \<Rightarrow> [])"

definition option_type where
  "option_type W R V = \<lparr>
     mt_enc = option_encode W (mt_enc V),
     mt_dec = option_decode R (mt_dec V),
     mt_flds = option_flds (mt_nkind V),
     mt_nkind = (\<lambda>x. inner_message (option_flds (mt_nkind V) x)),
     mt_ok = (\<lambda>x. pred_option (mt_ok V) x \<and> kind_ok (inner_message (option_flds (mt_nkind V) x))),
     mt_val = map_option (mt_val V)\<rparr>"

lemma option_lawful:
  assumes W: "bytes_writer W room" and R: "bytes_reader R" and V: "lawful W room V"
  shows "lawful W room (option_type W R V)"
proof -
  have e: "encodes W room (mt_enc V) (mt_flds V) (mt_nkind V)"
    and d: "decodes (mt_dec V) (mt_flds V) (mt_nkind V) (mt_ok V) (mt_val V)"
    using V by (auto simp: lawful_def codec_def)
  note size = encodes.size_law [OF e] and encode = encodes.encode_law [OF e]
  have "encodes W room (option_encode W (mt_enc V)) (option_flds (mt_nkind V))
      (\<lambda>x. inner_message (option_flds (mt_nkind V) x))"
  proof (rule bytes_writer.repeated_encodes [OF W])
    fix x field b w
    assume n: "\<not> is_nested (field_or_1 field)"
    show "em_encoded_size (option_encode W (mt_enc V)) x field b = Inr (b + of_nat
        (length (concat (map (field_bytes (num (field_or_1 field))) (option_flds (mt_nkind V) x)))))"
      using n by (subst option_encode_def) (simp add: option_encoded_size.simps size nested_in_def
          option_flds_def split: option.split)
    show "wrote W room w (concat (map (field_bytes (num (field_or_1 field))) (option_flds (mt_nkind V) x)))
        (em_encode (option_encode W (mt_enc V)) x field w)"
      using n encode [where field = "nested_in (field_or_1 field)"]
      by (simp add: option_encode_def option_encode_to.simps [of _ _ _ field] nested_in_def
          option_flds_def split: option.split)
  qed (simp_all add: option_encode_def option_encoded_size.simps [of _ _ "Some _"]
      option_encode_to.simps [of _ _ _ "Some _"] Let_def)
  moreover have "decodes (option_decode R (mt_dec V)) (option_flds (mt_nkind V))
      (\<lambda>x. inner_message (option_flds (mt_nkind V) x)) (mt_ok (option_type W R V)) (map_option (mt_val V))"
    by (rule bytes_reader.repeated_decodes [OF R, where f = "option_merge_field (mt_dec V)"])
      (auto simp: option_decode_def option_merge_field_def option_type_def option_flds_def tbind_eq_None
        decodes.total [OF d] decodes.read_nested [OF d] decodes.nkind_ok [OF d] simp del: not_None_eq split: option.splits)
  ultimately show ?thesis
    unfolding lawful_def by (auto simp: option_type_def option_encode_def option_decode_def intro!: codecI)
qed

section \<open>\<open>Vec\<close>\<close>

definition vec_flds :: "wire_type \<Rightarrow> ('a \<Rightarrow> field_kind) \<Rightarrow> 'a list \<Rightarrow> field_kind list" where
  "vec_flds t nkind xs =
     (if can_be_packed t \<and> 1 < length xs then [KLen (concat (map (\<lambda>x. body_of (nkind x)) xs))]
      else map nkind xs)"

definition vec_type where
  "vec_type W R V = (let flds = vec_flds (dm_wire_type (mt_dec V)) (mt_nkind V) in \<lparr>
     mt_enc = vec_encode W (mt_enc V),
     mt_dec = vec_decode R (mt_dec V),
     mt_flds = flds,
     mt_nkind = (\<lambda>x. inner_message (flds x)),
     mt_ok = (\<lambda>x. list_all (mt_ok V) x \<and> kind_ok (inner_message (flds x))),
     mt_val = map (mt_val V)\<rparr>)"

lemma tfold_push:
  assumes "\<And>x. x \<in> set xs \<Longrightarrow> dm_merge D (dm_decode_default D) (nkind x) False = Some (Inr (dec x))"
  shows "tfold (vec_push_merged D) ys (map nkind xs) = Some (Inr (ys @ map dec xs))"
  using assms by (induction xs arbitrary: ys) (simp_all add: vec_push_merged_def)

context encodes
begin

lemma elements_packed_size:
  "rfold (\<lambda>v. em_encoded_size E v None) xs b
     = Inr (b + of_nat (length (concat (map (\<lambda>x. body_of (nkind x)) xs))))"
  by (rule rfold_size) (simp add: size_law)

lemma elements_packed_wrote:
  "wrote W room w (concat (map (\<lambda>x. body_of (nkind x)) xs)) (rfold (\<lambda>v. em_encode E v None) xs w)"
  using encode_law [where field = None] by (intro rfold_wrote) simp

lemma elements_size:
  "rfold (\<lambda>v. em_encoded_size E v (nested_in f)) xs b
     = Inr (b + of_nat (length (concat (map (field_bytes (num f)) (map nkind xs)))))"
  unfolding map_map by (rule rfold_size) (simp add: size_law nested_in_def)

lemma elements_wrote:
  "wrote W room w (concat (map (field_bytes (num f)) (map nkind xs)))
     (rfold (\<lambda>v. em_encode E v (nested_in f)) xs w)"
  using encode_law [where field = "nested_in f"]
  unfolding map_map by (intro rfold_wrote) (simp add: nested_in_def)

lemma vec_encodes:
  defines "vflds \<equiv> vec_flds (em_wire_type E) nkind"
  shows "encodes W room (vec_encode W E) vflds (\<lambda>x. inner_message (vflds x))"
proof (rule repeated_encodes)
  fix xs field b w
  assume n: "\<not> is_nested (field_or_1 field)"
  show "em_encoded_size (vec_encode W E) xs field b
      = Inr (b + of_nat (length (concat (map (field_bytes (num (field_or_1 field))) (vflds xs)))))"
    using n by (simp add: vflds_def vec_encode_def vec_encoded_size.simps [of _ _ field] vec_flds_def
        elements_packed_size elements_size codec_simps field_bytes_def o_def Let_def)
  show "wrote W room w (concat (map (field_bytes (num (field_or_1 field))) (vflds xs)))
      (em_encode (vec_encode W E) xs field w)"
  proof (cases "can_be_packed (em_wire_type E) \<and> 1 < length xs")
    case True
    then show ?thesis
      using n by (simp add: vflds_def vec_encode_def vec_encode_to.simps [of _ _ _ field] vec_flds_def
          elements_packed_size field_bytes_def) (intro wrote_bind encoder_wrote elements_packed_wrote)
  next
    case False
    then show ?thesis
      using n elements_wrote [of w "field_or_1 field" xs] unfolding vflds_def vec_flds_def if_not_P [OF False]
      by (auto simp: vec_encode_def vec_encode_to.simps [of _ _ _ field] Let_def)
  qed
qed (simp_all add: vec_encode_def vec_encoded_size.simps [of _ _ "Some _"]
    vec_encode_to.simps [of _ _ _ "Some _"] Let_def)

end

lemma vec_decodes:
  assumes R: "bytes_reader R" and d: "decodes D flds0 nkind ok dec"
    and wire: "\<And>x. kind_wire_type (nkind x) = dm_wire_type D"
  defines "flds \<equiv> vec_flds (dm_wire_type D) nkind"
  shows "decodes (vec_decode R D) flds (\<lambda>x. inner_message (flds x))
    (\<lambda>x. list_all ok x \<and> kind_ok (inner_message (flds x))) (map dec)"
proof (rule bytes_reader.repeated_decodes [OF R, where f = "vec_merge_field R D"])
  have push: "vec_push_merged D s k \<noteq> None" for s k
    by (simp add: vec_push_merged_def tbind_eq_None decodes.total [OF d] del: not_None_eq)
  show "vec_merge_field R D s k \<noteq> None" for s k
    by (simp add: vec_merge_field_def push bytes_reader.decode_packed_total [OF R] del: not_None_eq)
next
  fix xs
  assume ok: "list_all ok xs \<and> kind_ok (inner_message (flds xs))"
  then have all: "ok x" if "x \<in> set xs" for x
    using that by (simp add: list_all_iff)
  have push: "tfold (vec_push_merged D) [] (map nkind xs) = Some (Inr (map dec xs))"
    using decodes.read_nested [OF d all] by (simp add: tfold_push)
  show "tfold (vec_merge_field R D) (dm_decode_default (vec_decode R D)) (flds xs) = Some (Inr (map dec xs))"
  proof (cases "can_be_packed (dm_wire_type D) \<and> 1 < length xs")
    case True
    then have "body_of (nkind x) = kind_bytes (nkind x)" for x
      by (intro body_of_not_len) (auto simp: wire can_be_packed_iff)
    then have "kinds_of (dm_wire_type D) (concat (map (\<lambda>x. body_of (nkind x)) xs)) = (map nkind xs, None)"
      using kinds_of_concat [of "map nkind xs" "dm_wire_type D"] decodes.nkind_ok [OF d all]
      by (simp add: wire list_all_iff o_def)
    with True push show ?thesis
      by (simp add: flds_def vec_flds_def vec_merge_field_def vec_decode_def
          bytes_reader.decode_packed_fold [OF R])
  next
    case False
    have "tfold (vec_merge_field R D) s (map nkind ys) = tfold (vec_push_merged D) s (map nkind ys)" for s ys
      by (induction ys arbitrary: s) (auto simp: vec_merge_field_def wire can_be_packed_iff intro!: tbind_cong)
    with push show ?thesis
      unfolding flds_def vec_flds_def if_not_P [OF False] by (simp add: vec_decode_def)
  qed
  show "list_all kind_ok (flds xs)"
    using ok kind_ok_part by (auto simp: list_all_iff)
qed (simp_all add: vec_decode_def fun_eq_iff)

lemma vec_lawful:
  assumes "bytes_writer W room" and R: "bytes_reader R" and V: "lawful W room V"
  shows "lawful W room (vec_type W R V)"
proof -
  have c: "codec W room (mt_enc V) (mt_dec V) (mt_flds V) (mt_nkind V) (mt_ok V) (mt_val V)"
    using V by (simp add: lawful_def)
  then have e: "encodes W room (mt_enc V) (mt_flds V) (mt_nkind V)"
    and d: "decodes (mt_dec V) (mt_flds V) (mt_nkind V) (mt_ok V) (mt_val V)"
    by (auto simp: codec_def)
  note wire = codec.same_wire [OF c]
  show ?thesis
    using encodes.vec_encodes [OF e] vec_decodes [OF R d] encodes.nkind_wire [OF e]
    by (auto simp: lawful_def vec_type_def Let_def vec_encode_def vec_decode_def wire intro!: codecI)
qed

section \<open>\<open>HashMap\<close>\<close>

lemma fold_map_upd:
  "distinct (map fst kvs) \<Longrightarrow> fold (\<lambda>kv m. m(fst kv \<mapsto> snd kv)) kvs m = m ++ map_of kvs"
proof (induction kvs arbitrary: m)
  case (Cons kv kvs)
  then have "fst kv \<notin> dom (map_of kvs)"
    by (simp add: dom_map_of_conv_image_fst)
  then have "m(fst kv \<mapsto> snd kv) ++ map_of kvs = m ++ map_of (kv # kvs)"
    by (cases kv) (simp add: map_add_upd_left del: fun_upd_apply)
  with Cons show ?case
    by (simp del: fun_upd_apply)
qed simp

definition map_flds where
  "map_flds K V = map (struct_kind (tuple2_fields K V))"

text \<open>The entries' keys stay different when they are decoded.\<close>

definition hash_map_type where
  "hash_map_type W R K V = \<lparr>
     mt_enc = hash_map_encode W (mt_enc K) (mt_enc V),
     mt_dec = hash_map_decode R (mt_dec K) (mt_dec V),
     mt_flds = map_flds K V,
     mt_nkind = (\<lambda>x. inner_message (map_flds K V x)),
     mt_ok = (\<lambda>x. list_all (mt_ok (tuple2_type W R K V)) x \<and> kind_ok (inner_message (map_flds K V x))
        \<and> distinct (map (mt_val K \<circ> fst) x)),
     mt_val = (\<lambda>x. map_of (map (map_prod (mt_val K) (mt_val V)) x))\<rparr>"

lemma hash_map_encodes:
  assumes W: "bytes_writer W room" and R: "bytes_reader R" and K: "lawful W room K" and V: "lawful W room V"
  shows "encodes W room (hash_map_encode W (mt_enc K) (mt_enc V)) (map_flds K V)
    (\<lambda>x. inner_message (map_flds K V x))"
proof -
  have "lawful W room (tuple2_type W R K V)"
    by (rule tuple2_lawful [OF W R K V])
  then have e: "encodes W room (tuple2_encode W (mt_enc K) (mt_enc V))
      (\<lambda>s. [struct_kind (tuple2_fields K V) s]) (struct_kind (tuple2_fields K V))"
    by (simp add: lawful_def tuple2_type_def codec_def)
  show ?thesis
  proof (rule bytes_writer.repeated_encodes [OF W])
    fix x field b w
    assume n: "\<not> is_nested (field_or_1 field)"
    show "em_encoded_size (hash_map_encode W (mt_enc K) (mt_enc V)) x field b
        = Inr (b + of_nat (length (concat (map (field_bytes (num (field_or_1 field))) (map_flds K V x)))))"
      using n by (simp add: hash_map_encode_def map_encoded_size.simps [of _ _ _ _ field] Let_def
          encodes.elements_size [OF e] map_flds_def)
    show "wrote W room w (concat (map (field_bytes (num (field_or_1 field))) (map_flds K V x)))
        (em_encode (hash_map_encode W (mt_enc K) (mt_enc V)) x field w)"
      using n encodes.elements_wrote [OF e]
      by (simp add: hash_map_encode_def map_encode_to.simps [of _ _ _ _ field] Let_def map_flds_def)
  qed (simp_all add: hash_map_encode_def map_encoded_size.simps [of _ _ _ _ "Some _"]
      map_encode_to.simps [of _ _ _ _ "Some _"] Let_def)
qed

lemma hash_map_decodes:
  assumes W: "bytes_writer W room" and R: "bytes_reader R" and K: "lawful W room K" and V: "lawful W room V"
  shows "decodes (hash_map_decode R (mt_dec K) (mt_dec V)) (map_flds K V)
    (\<lambda>x. inner_message (map_flds K V x)) (mt_ok (hash_map_type W R K V)) (mt_val (hash_map_type W R K V))"
proof -
  let ?f = "map_merge_field R (mt_dec K) (mt_dec V)"
  have "lawful W room (tuple2_type W R K V)"
    by (rule tuple2_lawful [OF W R K V])
  then have d: "decodes (tuple2_decode R (mt_dec K) (mt_dec V)) (\<lambda>s. [struct_kind (tuple2_fields K V) s])
      (struct_kind (tuple2_fields K V)) (mt_ok (tuple2_type W R K V)) (map_prod (mt_val K) (mt_val V))"
    by (simp add: lawful_def tuple2_type_def codec_def)
  have fold: "tfold ?f m (map_flds K V x)
      = Some (Inr (fold (\<lambda>kv m. m(fst kv \<mapsto> snd kv)) (map (map_prod (mt_val K) (mt_val V)) x) m))"
    if "list_all (mt_ok (tuple2_type W R K V)) x" for x m
    using that by (induction x arbitrary: m)
      (simp_all add: map_flds_def map_merge_field_def Let_def decodes.read_nested [OF d])
  show ?thesis
  proof (rule bytes_reader.repeated_decodes [OF R, where f = ?f])
    show "?f s k \<noteq> None" for s k
      by (simp add: map_merge_field_def Let_def tbind_eq_None decodes.total [OF d] del: not_None_eq)
    fix x
    assume ok: "mt_ok (hash_map_type W R K V) x"
    then have "distinct (map fst (map (map_prod (mt_val K) (mt_val V)) x))"
      by (simp add: hash_map_type_def o_def)
    from fold_map_upd [OF this] show "tfold ?f (dm_decode_default (hash_map_decode R (mt_dec K) (mt_dec V)))
        (map_flds K V x) = Some (Inr (mt_val (hash_map_type W R K V) x))"
      using ok by (simp add: fold hash_map_decode_def hash_map_type_def del: map_map)
    show "list_all kind_ok (map_flds K V x)"
      using ok kind_ok_part by (auto simp: list_all_iff hash_map_type_def)
  qed (simp_all add: hash_map_decode_def hash_map_type_def fun_eq_iff)
qed

lemma hash_map_lawful:
  assumes "bytes_writer W room" and "bytes_reader R" and "lawful W room K" and "lawful W room V"
  shows "lawful W room (hash_map_type W R K V)"
  using hash_map_encodes [OF assms] hash_map_decodes [OF assms]
  by (auto simp: lawful_def hash_map_type_def hash_map_encode_def hash_map_decode_def intro!: codecI)

end
