(* ===== verification/Enums.thy ===== *)
theory Enums
  imports Containers
begin

text \<open>
  What \<open>protopuffer-codegen\<close> generates for enums: \<open>expand_enum_no_fields\<close> for an enum with
  \<open>#[repr(i32)]\<close>, whose variants are numbers, and \<open>expand_enum_with_fields\<close> for the others,
  whose variants are the fields of a message of which one is present.
\<close>

section \<open>The code: enums without fields\<close>

text \<open>
  \<open>variants\<close> are the numbered variants, \<open>default_variant\<close> the one numbered 0. The numbers are
  literals of the source.
\<close>

definition enum_number :: "(nat \<times> 'a) list \<Rightarrow> nat \<times> 'a \<Rightarrow> 'a \<Rightarrow> 32 word" where
  "enum_number variants default_variant self =
     (case List.find (\<lambda>v. snd v = self) (variants @ [default_variant]) of
        Some v \<Rightarrow> of_nat (fst v)
      | None \<Rightarrow> 0)"

definition enum_no_fields_encode ::
    "'w bytes_write \<Rightarrow> (nat \<times> 'a) list \<Rightarrow> nat \<times> 'a \<Rightarrow> ('a, 'w) encode_message" where
  "enum_no_fields_encode W variants default_variant = \<lparr>
     em_wire_type = WVarint,
     em_is_default = (\<lambda>self. self = snd default_variant),
     em_encoded_size = (\<lambda>self field builder.
       Inr (size_write_varint (scast (enum_number variants default_variant self))
         (size_maybe_tag field WVarint builder))),
     em_encode = (\<lambda>self field encoder.
       rbind (maybe_tag W field WVarint encoder)
         (write_varint W (scast (enum_number variants default_variant self))))\<rparr>"

definition enum_no_fields_decode :: "(nat \<times> 'a) list \<Rightarrow> nat \<times> 'a \<Rightarrow> 'a decode_message" where
  "enum_no_fields_decode variants default_variant = \<lparr>
     dm_wire_type = WVarint,
     dm_decode_default = snd default_variant,
     dm_merge = (\<lambda>_ k _. Some (rbind (try_unwrap_varint k) (\<lambda>n.
       Inr (case List.find (\<lambda>v. of_nat (fst v) = n) variants of
              Some v \<Rightarrow> snd v
            | None \<Rightarrow> snd default_variant))))\<rparr>"

section \<open>The code: enums with fields\<close>

text \<open>One arm of the \<open>match self\<close> of the encoder and one of the \<open>match field.number\<close> of the decoder.\<close>

record ('s, 'w) enc_variant =
  ev_num :: u64
  ev_is :: "'s \<Rightarrow> bool"
  ev_size :: "'s \<Rightarrow> size_builder \<Rightarrow> encode_error + size_builder"
  ev_encode :: "'s \<Rightarrow> 'w \<Rightarrow> encode_error + 'w"

definition enc_field_variant :: "u64 \<Rightarrow> ('s \<Rightarrow> 'a option) \<Rightarrow> ('a, 'w) encode_message \<Rightarrow> ('s, 'w) enc_variant" where
  "enc_field_variant n sel E = \<lparr>
     ev_num = n,
     ev_is = (\<lambda>s. sel s \<noteq> None),
     ev_size = (\<lambda>s size. case sel s of Some v \<Rightarrow> em_encoded_size E v (Some (field_opt_new n)) size | None \<Rightarrow> Inr size),
     ev_encode = (\<lambda>s w. case sel s of Some v \<Rightarrow> em_encode E v (Some (field_opt_new n)) w | None \<Rightarrow> Inr w)\<rparr>"

definition enc_unit_variant :: "'w bytes_write \<Rightarrow> u64 \<Rightarrow> 's \<Rightarrow> ('s, 'w) enc_variant" where
  "enc_unit_variant W n ident = \<lparr>
     ev_num = n,
     ev_is = (\<lambda>s. s = ident),
     ev_size = (\<lambda>s size. Inr (size_write_empty_field n size)),
     ev_encode = (\<lambda>s w. write_empty_field W n w)\<rparr>"

definition enum_variant_size :: "('s, 'w) enc_variant list \<Rightarrow> 's \<Rightarrow> encode_error + size_builder" where
  "enum_variant_size vs self =
     (case List.find (\<lambda>v. ev_is v self) vs of Some v \<Rightarrow> ev_size v self 0 | None \<Rightarrow> Inr 0)"

definition enum_variant_encode :: "('s, 'w) enc_variant list \<Rightarrow> 's \<Rightarrow> 'w \<Rightarrow> encode_error + 'w" where
  "enum_variant_encode vs self encoder =
     (case List.find (\<lambda>v. ev_is v self) vs of Some v \<Rightarrow> ev_encode v self encoder | None \<Rightarrow> Inr encoder)"

definition enum_with_fields_encode :: "'w bytes_write \<Rightarrow> ('s, 'w) enc_variant list \<Rightarrow> ('s, 'w) encode_message" where
  "enum_with_fields_encode W vs = \<lparr>
     em_wire_type = WLen,
     em_is_default = (\<lambda>_. False),
     em_encoded_size = (\<lambda>self field builder.
       rbind (enum_variant_size vs self) (\<lambda>size.
         let builder = (case field of
               Some f \<Rightarrow> size_write_len size (size_write_tag (num f) WLen builder)
             | None \<Rightarrow> builder)
         in Inr (size_write_bytes size builder))),
     em_encode = (\<lambda>self field encoder.
       rbind (case field of
           Some f \<Rightarrow> rbind (write_tag W (num f) WLen encoder) (\<lambda>encoder.
             rbind (enum_variant_size vs self) (\<lambda>fields_size. write_len W fields_size encoder))
         | None \<Rightarrow> Inr encoder)
       (enum_variant_encode vs self))\<rparr>"

record 's dec_variant =
  dv_num :: u64
  dv_merge :: "'s \<Rightarrow> field_kind \<Rightarrow> (decode_error + 's) option"

text \<open>\<open>std_default\<close> is \<open>Default::default()\<close> of the field's type.\<close>

definition dec_field_variant ::
    "u64 \<Rightarrow> ('s \<Rightarrow> 'a option) \<Rightarrow> ('a \<Rightarrow> 's) \<Rightarrow> 'a \<Rightarrow> 'a decode_message \<Rightarrow> 's dec_variant" where
  "dec_field_variant n sel ident std_default D = \<lparr>
     dv_num = n,
     dv_merge = (\<lambda>self k. case sel self of
        Some v \<Rightarrow> tbind (dm_merge D v k True) (\<lambda>v. Some (Inr (ident v)))
      | None \<Rightarrow> tbind (dm_merge D std_default k True) (\<lambda>v. Some (Inr (ident v))))\<rparr>"

definition dec_unit_variant :: "u64 \<Rightarrow> 's \<Rightarrow> 's dec_variant" where
  "dec_unit_variant n ident = \<lparr>dv_num = n, dv_merge = (\<lambda>self k. Some (Inr ident))\<rparr>"

definition enum_merge_field :: "'s dec_variant list \<Rightarrow> 's \<Rightarrow> field \<Rightarrow> (decode_error + 's) option" where
  "enum_merge_field vs self fld =
     (case List.find (\<lambda>v. dv_num v = number fld) vs of
        Some v \<Rightarrow> dv_merge v self (kind fld)
      | None \<Rightarrow> Some (Inr self))"

text \<open>\<open>default_variant\<close> is the variant marked \<open>default\<close>, holding \<open>decode_default()\<close> if it has a field.\<close>

definition enum_with_fields_decode :: "'r bytes_read \<Rightarrow> 's dec_variant list \<Rightarrow> 's \<Rightarrow> 's decode_message" where
  "enum_with_fields_decode R vs default_variant = \<lparr>
     dm_wire_type = WLen,
     dm_decode_default = default_variant,
     dm_merge = (\<lambda>self k _. decode_fields R (enum_merge_field vs) self k)\<rparr>"

section \<open>The contract of an enum without fields\<close>

text \<open>
  What the compiler checks of the numbers: they are \<open>i32\<close> literals and differ from each
  other; \<open>variants_no_fields\<close> takes out the only one that is 0.
\<close>

definition enum_numbers_ok :: "(nat \<times> 'a) list \<Rightarrow> nat \<times> 'a \<Rightarrow> bool" where
  "enum_numbers_ok variants d \<longleftrightarrow>
     fst d = 0 \<and> distinct (map fst (variants @ [d])) \<and> distinct (map snd (variants @ [d]))
     \<and> list_all (\<lambda>(n, _). n < 2 ^ 31) variants"

lemma scast_small: "n < 2 ^ 31 \<Longrightarrow> scast (of_nat n :: 32 word) = (of_nat n :: 64 word)"
proof -
  assume n: "n < 2 ^ 31"
  have "sint (of_nat n :: 32 word) = int n"
    using n by (simp add: sint_uint uint_nat unat_of_nat take_bit_nat_eq_self signed_take_bit_int_eq_self)
  then show ?thesis
    by (simp add: scast_eq)
qed

lemma of_nat_u64_eq: "n < 2 ^ 31 \<Longrightarrow> m < 2 ^ 31 \<Longrightarrow> (of_nat n :: u64) = of_nat m \<longleftrightarrow> n = m"
proof -
  assume "n < 2 ^ 31" "m < 2 ^ 31"
  then have "unat (of_nat n :: u64) = n" "unat (of_nat m :: u64) = m"
    by (simp_all add: unat_of_nat_u64)
  then show ?thesis by metis
qed

lemma find_entry:
  "distinct (map f xs) \<Longrightarrow> x \<in> set xs \<Longrightarrow> List.find (\<lambda>y. f y = f x) xs = Some x"
  by (induction xs) auto

lemma find_cong: "(\<And>x. x \<in> set xs \<Longrightarrow> P x = Q x) \<Longrightarrow> List.find P xs = List.find Q xs"
  by (induction xs) auto

definition enum_no_fields_ok :: "(nat \<times> 'a) list \<Rightarrow> nat \<times> 'a \<Rightarrow> 'a \<Rightarrow> bool" where
  "enum_no_fields_ok vs d x \<longleftrightarrow> x \<in> snd ` set (vs @ [d])"

definition enum_no_fields_type where
  "enum_no_fields_type W vs d = (let kd = (\<lambda>x. KVarint (scast (enum_number vs d x))) in \<lparr>
     mt_enc = enum_no_fields_encode W vs d,
     mt_dec = enum_no_fields_decode vs d,
     mt_flds = (\<lambda>x. [kd x]),
     mt_nkind = kd,
     mt_ok = enum_no_fields_ok vs d,
     mt_val = (\<lambda>x. x)\<rparr>)"

lemma enum_number_entry:
  assumes "enum_numbers_ok vs d" and "(n, x) \<in> set (vs @ [d])"
  shows "enum_number vs d x = of_nat n \<and> n < 2 ^ 31"
proof -
  have "List.find (\<lambda>y. snd y = snd (n, x)) (vs @ [d]) = Some (n, x)"
    using assms by (intro find_entry) (auto simp: enum_numbers_ok_def)
  then have "List.find (\<lambda>y. snd y = x) (vs @ [d]) = Some (n, x)"
    by (simp only: snd_conv)
  then have "enum_number vs d x = of_nat n"
    by (simp only: enum_number_def) simp
  moreover have "n < 2 ^ 31"
    using assms by (auto simp: enum_numbers_ok_def list_all_iff)
  ultimately show ?thesis ..
qed

lemma enum_no_fields_back:
  assumes ok: "enum_numbers_ok vs d" and x: "enum_no_fields_ok vs d x"
  shows "dm_merge (enum_no_fields_decode vs d) s (KVarint (scast (enum_number vs d x))) b = Some (Inr x)"
proof -
  obtain n where n: "(n, x) \<in> set (vs @ [d])"
    using x unfolding enum_no_fields_ok_def by (metis imageE surjective_pairing)
  then have num: "scast (enum_number vs d x) = (of_nat n :: u64)" "n < 2 ^ 31"
    using enum_number_entry [OF ok n] by (simp_all add: scast_small)
  have find: "List.find (\<lambda>v. (of_nat (fst v) :: u64) = of_nat n) vs = List.find (\<lambda>y. fst y = n) vs"
    using ok num(2) by (intro find_cong) (auto simp: enum_numbers_ok_def list_all_iff of_nat_u64_eq)
  show ?thesis
  proof (cases "(n, x) \<in> set vs")
    case True
    then have "List.find (\<lambda>y. fst y = fst (n, x)) vs = Some (n, x)"
      using ok by (intro find_entry) (auto simp: enum_numbers_ok_def)
    then show ?thesis
      by (simp add: enum_no_fields_decode_def num find)
  next
    case False
    with n have d: "d = (n, x)" by auto
    with ok have "List.find (\<lambda>y. fst y = n) vs = None"
      by (force simp: find_None_iff enum_numbers_ok_def)
    with d show ?thesis
      by (simp add: enum_no_fields_decode_def num(1) [unfolded d] find)
  qed
qed

lemma enum_no_fields_lawful:
  assumes "bytes_writer W room" and "enum_numbers_ok vs d"
  shows "lawful W room (enum_no_fields_type W vs d)"
proof -
  let ?k = "\<lambda>x. KVarint (scast (enum_number vs d x))"
  have "encodes W room (enum_no_fields_encode W vs d) (\<lambda>x. [?k x]) ?k"
    by (rule bytes_writer.one_field_encodes [OF assms(1), where t = WVarint
          and sz = "\<lambda>x. size_write_varint (scast (enum_number vs d x))"
          and wr = "\<lambda>x. write_varint W (scast (enum_number vs d x))"])
      (simp_all add: enum_no_fields_encode_def codec_simps bytes_writer.write_varint_wrote [OF assms(1)])
  moreover have "decodes (enum_no_fields_decode vs d) (\<lambda>x. [?k x]) ?k (enum_no_fields_ok vs d) (\<lambda>x. x)"
    using enum_no_fields_back [OF assms(2)]
    by unfold_locales (simp_all add: enum_no_fields_decode_def [of vs d])
  ultimately show ?thesis
    unfolding lawful_def enum_no_fields_type_def Let_def
    by (auto simp: enum_no_fields_encode_def enum_no_fields_decode_def intro!: codecI)
qed

section \<open>The contract of an enum with fields\<close>

text \<open>
  A variant, with the kinds \<open>vt_kinds s\<close> that are written for a value \<open>s\<close> of it, and the
  value \<open>vt_val s\<close> that it is read back as.
\<close>

record ('s, 't, 'w) enum_variant =
  vt_enc :: "('s, 'w) enc_variant"
  vt_dec :: "'t dec_variant"
  vt_kinds :: "'s \<Rightarrow> field_kind list"
  vt_val :: "'s \<Rightarrow> 't"
  vt_ok :: "'s \<Rightarrow> bool"

definition vt_num :: "('s, 't, 'w) enum_variant \<Rightarrow> u64" where
  "vt_num v = ev_num (vt_enc v)"

definition variant_law :: "'w bytes_write \<Rightarrow> ('w \<Rightarrow> enat) \<Rightarrow> 't \<Rightarrow> ('s, 't, 'w) enum_variant \<Rightarrow> bool" where
  "variant_law W room dflt v \<longleftrightarrow>
     (let bytes = (\<lambda>s. concat (map (field_bytes (vt_num v)) (vt_kinds v s)))
      in num_ok (vt_num v) \<and> dv_num (vt_dec v) = vt_num v
       \<and> (\<forall>s b. ev_is (vt_enc v) s \<longrightarrow> ev_size (vt_enc v) s b = Inr (b + of_nat (length (bytes s))))
       \<and> (\<forall>s w. ev_is (vt_enc v) s \<longrightarrow> wrote W room w (bytes s) (ev_encode (vt_enc v) s w))
       \<and> (\<forall>s. ev_is (vt_enc v) s \<longrightarrow> vt_ok v s \<longrightarrow> vt_kinds v s \<noteq> [] \<longrightarrow>
            tfold (dv_merge (vt_dec v)) dflt (vt_kinds v s) = Some (Inr (vt_val v s)))
       \<and> (\<forall>s. vt_ok v s \<longrightarrow> list_all kind_ok (vt_kinds v s))
       \<and> (\<forall>t k. dv_merge (vt_dec v) t k \<noteq> None))"

definition unit_variant :: "'w bytes_write \<Rightarrow> u64 \<Rightarrow> 's \<Rightarrow> 't \<Rightarrow> ('s, 't, 'w) enum_variant" where
  "unit_variant W n ident dident = \<lparr>
     vt_enc = enc_unit_variant W n ident,
     vt_dec = dec_unit_variant n dident,
     vt_kinds = (\<lambda>_. [KLen []]),
     vt_val = (\<lambda>_. dident),
     vt_ok = (\<lambda>_. True)\<rparr>"

definition type_variant where
  "type_variant n sel dsel ident T = \<lparr>
     vt_enc = enc_field_variant n sel (mt_enc T),
     vt_dec = dec_field_variant n dsel ident (dm_decode_default (mt_dec T)) (mt_dec T),
     vt_kinds = (\<lambda>s. case sel s of Some v \<Rightarrow> mt_flds T v | None \<Rightarrow> []),
     vt_val = (\<lambda>s. ident (mt_val T (the (sel s)))),
     vt_ok = (\<lambda>s. pred_option (mt_ok T) (sel s))\<rparr>"

lemma unit_variant_law:
  assumes "bytes_writer W room" and "num_ok n"
  shows "variant_law W room dflt (unit_variant W n ident dident)"
  using assms bytes_writer.write_empty_field_wrote [OF assms(1)]
  by (simp add: variant_law_def unit_variant_def vt_num_def enc_unit_variant_def dec_unit_variant_def
      codec_simps)

text \<open>
  The decoder's variant: in any other variant, and in the default variant before the first
  field, it starts from the default of the field's type.
\<close>

lemma type_variant_fold:
  assumes sel: "\<And>v. dsel (ident v) = Some v" and dflt: "dsel dflt = None \<or> dsel dflt = Some z"
  shows "ks \<noteq> [] \<Longrightarrow> tfold (dv_merge (dec_field_variant n dsel ident z D)) dflt ks
    = tbind (tfold (\<lambda>v k. dm_merge D v k True) z ks) (\<lambda>v. Some (Inr (ident v)))"
proof -
  have inside: "tfold (dv_merge (dec_field_variant n dsel ident z D)) (ident v) ks
      = tbind (tfold (\<lambda>v k. dm_merge D v k True) v ks) (\<lambda>v. Some (Inr (ident v)))" for v ks
  proof (induction ks arbitrary: v)
    case (Cons k ks)
    then show ?case
      by (cases "dm_merge D v k True" rule: result_cases) (simp_all add: dec_field_variant_def sel)
  qed simp
  assume "ks \<noteq> []"
  then obtain k ks' where ks: "ks = k # ks'"
    by (cases ks) auto
  have "dv_merge (dec_field_variant n dsel ident z D) dflt k
      = tbind (dm_merge D z k True) (\<lambda>v. Some (Inr (ident v)))"
    using dflt by (auto simp: dec_field_variant_def)
  with inside ks show ?thesis
    by simp
qed

lemma type_variant_law:
  assumes T: "lawful W room T" and n: "num_ok n" and sel: "\<And>v. dsel (ident v) = Some v"
    and dflt: "dsel dflt = None \<or> dsel dflt = Some (dm_decode_default (mt_dec T))"
  shows "variant_law W room dflt (type_variant n sel dsel ident T)"
proof -
  have e: "encodes W room (mt_enc T) (mt_flds T) (mt_nkind T)"
    and d: "decodes (mt_dec T) (mt_flds T) (mt_nkind T) (mt_ok T) (mt_val T)"
    using T by (auto simp: lawful_def codec_def)
  note size = encodes.size_law [OF e, of _ "Some (field_opt_new n)", unfolded enc_bytes_simps]
    and encode = encodes.encode_law [OF e, of _ _ "Some (field_opt_new n)", unfolded enc_bytes_simps]
  have num: "vt_num (type_variant n sel dsel ident T) = n"
    by (simp add: vt_num_def type_variant_def enc_field_variant_def)
  have "dv_merge (vt_dec (type_variant n sel dsel ident T)) t k \<noteq> None" for t k
    by (simp add: type_variant_def dec_field_variant_def tbind_eq_None decodes.total [OF d]
        del: not_None_eq split: option.split)
  moreover have "tfold (dv_merge (vt_dec (type_variant n sel dsel ident T))) dflt (vt_kinds (type_variant n sel dsel ident T) s)
      = Some (Inr (vt_val (type_variant n sel dsel ident T) s))"
    if "ev_is (vt_enc (type_variant n sel dsel ident T)) s" "vt_ok (type_variant n sel dsel ident T) s"
      "vt_kinds (type_variant n sel dsel ident T) s \<noteq> []" for s
    using that
    by (auto simp: type_variant_def enc_field_variant_def type_variant_fold [where dsel = dsel and ident = ident and dflt = dflt, OF sel dflt]
        decodes.read_fields [OF d])
  ultimately show ?thesis
    unfolding variant_law_def Let_def num
    by (auto simp: n type_variant_def enc_field_variant_def dec_field_variant_def size encode
        decodes.flds_ok [OF d] split: option.splits simp del: not_None_eq)
qed

text \<open>The fields of the message that a value becomes.\<close>

definition enum_parts :: "('s, 't, 'w) enum_variant list \<Rightarrow> 's \<Rightarrow> field list" where
  "enum_parts vs s = (case List.find (\<lambda>v. ev_is (vt_enc v) s) vs of
     Some v \<Rightarrow> map (with_number (vt_num v)) (vt_kinds v s) | None \<Rightarrow> [])"

definition enum_kind :: "('s, 't, 'w) enum_variant list \<Rightarrow> 's \<Rightarrow> field_kind" where
  "enum_kind vs s = KLen (concat (map bytes_of_field (enum_parts vs s)))"

definition enum_val :: "('s, 't, 'w) enum_variant list \<Rightarrow> 't \<Rightarrow> 's \<Rightarrow> 't" where
  "enum_val vs dflt s = (case List.find (\<lambda>v. ev_is (vt_enc v) s) vs of
     Some v \<Rightarrow> vt_val v s | None \<Rightarrow> dflt)"

text \<open>
  The values that survive: those that write at least one field, and the default itself.
\<close>

definition enum_ok :: "('s, 't, 'w) enum_variant list \<Rightarrow> 't \<Rightarrow> 's \<Rightarrow> bool" where
  "enum_ok vs dflt s \<longleftrightarrow>
     (case List.find (\<lambda>v. ev_is (vt_enc v) s) vs of
        Some v \<Rightarrow> vt_ok v s \<and> (vt_kinds v s \<noteq> [] \<or> vt_val v s = dflt)
      | None \<Rightarrow> False)
     \<and> kind_ok (enum_kind vs s)"

definition enum_law :: "'w bytes_write \<Rightarrow> ('w \<Rightarrow> enat) \<Rightarrow> 't \<Rightarrow> ('s, 't, 'w) enum_variant list \<Rightarrow> bool" where
  "enum_law W room dflt vs \<longleftrightarrow> list_all (variant_law W room dflt) vs \<and> distinct (map vt_num vs)"

lemma find_map: "List.find P (map f xs) = map_option f (List.find (\<lambda>x. P (f x)) xs)"
  by (induction xs) auto

lemma enum_find_law:
  assumes "enum_law W room dflt vs" and "List.find (\<lambda>v. ev_is (vt_enc v) s) vs = Some v"
  shows "v \<in> set vs \<and> variant_law W room dflt v \<and> ev_is (vt_enc v) s"
  using assms find_SomeD [OF assms(2)] by (auto simp: enum_law_def list_all_iff)

lemma enum_size_eq:
  assumes "enum_law W room dflt vs"
  shows "enum_variant_size (map vt_enc vs) s = Inr (of_nat (length (body_of (enum_kind vs s))))"
proof (cases "List.find (\<lambda>v. ev_is (vt_enc v) s) vs")
  case (Some v)
  with enum_find_law [OF assms Some] show ?thesis
    by (simp add: enum_variant_size_def find_map enum_kind_def enum_parts_def variant_law_def Let_def o_def)
qed (simp add: enum_variant_size_def find_map enum_kind_def enum_parts_def)

lemma enum_encode_wrote:
  assumes "enum_law W room dflt vs"
  shows "wrote W room w (body_of (enum_kind vs s)) (enum_variant_encode (map vt_enc vs) s w)"
proof (cases "List.find (\<lambda>v. ev_is (vt_enc v) s) vs")
  case (Some v)
  with enum_find_law [OF assms Some] show ?thesis
    by (simp add: enum_variant_encode_def find_map enum_kind_def enum_parts_def variant_law_def Let_def o_def)
qed (simp add: enum_variant_encode_def find_map enum_kind_def enum_parts_def)

lemma enum_parts_ok:
  assumes "enum_law W room dflt vs" and "enum_ok vs dflt s"
  shows "list_all field_ok (enum_parts vs s)"
proof -
  obtain v where v: "List.find (\<lambda>v. ev_is (vt_enc v) s) vs = Some v"
    using assms(2) by (auto simp: enum_ok_def split: option.splits)
  from enum_find_law [OF assms(1) v] assms(2) v show ?thesis
    by (auto simp: enum_parts_def enum_ok_def variant_law_def Let_def list_all_iff field_ok_def)
qed

lemma enum_fold_parts:
  assumes law: "enum_law W room dflt vs" and ok: "enum_ok vs dflt s"
  shows "tfold (enum_merge_field (map vt_dec vs)) dflt (enum_parts vs s) = Some (Inr (enum_val vs dflt s))"
proof -
  obtain v where v: "List.find (\<lambda>v. ev_is (vt_enc v) s) vs = Some v"
      and v_ok: "vt_ok v s" "vt_kinds v s \<noteq> [] \<or> vt_val v s = dflt"
    using ok by (auto simp: enum_ok_def split: option.splits)
  note v_law = enum_find_law [OF law v]
  have dv: "dv_num (vt_dec u) = vt_num u" if "u \<in> set vs" for u
    using that law by (auto simp: enum_law_def list_all_iff variant_law_def Let_def)
  have "List.find (\<lambda>u. vt_num u = vt_num v) vs = Some v"
    using law v_law by (intro find_entry) (auto simp: enum_law_def)
  then have "List.find (\<lambda>d. dv_num d = vt_num v) (map vt_dec vs) = Some (vt_dec v)"
    using dv by (simp add: find_map cong: find_cong)
  then have merge: "enum_merge_field (map vt_dec vs) t (with_number (vt_num v) k) = dv_merge (vt_dec v) t k" for t k
    by (simp add: enum_merge_field_def)
  have "tfold (enum_merge_field (map vt_dec vs)) t (map (with_number (vt_num v)) ks)
      = tfold (dv_merge (vt_dec v)) t ks" for t ks
    by (induction ks arbitrary: t) (simp_all add: merge)
  with v v_ok v_law show ?thesis
    by (cases "vt_kinds v s = []") (simp_all add: enum_parts_def enum_val_def variant_law_def Let_def)
qed

lemma enum_decodes:
  assumes R: "bytes_reader R" and law: "enum_law W room dflt vs"
  shows "decodes (enum_with_fields_decode R (map vt_dec vs) dflt)
    (\<lambda>s. [enum_kind vs s]) (enum_kind vs) (enum_ok vs dflt) (enum_val vs dflt)"
proof
  fix s k is_field
  have "enum_merge_field (map vt_dec vs) s f \<noteq> None" for s f
    using law by (auto simp: enum_merge_field_def enum_law_def list_all_iff variant_law_def Let_def
        dest!: find_SomeD split: option.split)
  then show "dm_merge (enum_with_fields_decode R (map vt_dec vs) dflt) s k is_field \<noteq> None"
    by (simp add: enum_with_fields_decode_def bytes_reader.decode_fields_total [OF R] del: not_None_eq)
next
  fix s
  assume ok: "enum_ok vs dflt s"
  then show read: "dm_merge (enum_with_fields_decode R (map vt_dec vs) dflt)
      (dm_decode_default (enum_with_fields_decode R (map vt_dec vs) dflt)) (enum_kind vs s) False
    = Some (Inr (enum_val vs dflt s))"
    using fields_of_bytes [OF enum_parts_ok [OF law ok]] enum_fold_parts [OF law ok]
    by (simp add: enum_with_fields_decode_def enum_kind_def bytes_reader.decode_fields_fold [OF R])
  then show "tfold (\<lambda>s k. dm_merge (enum_with_fields_decode R (map vt_dec vs) dflt) s k True)
      (dm_decode_default (enum_with_fields_decode R (map vt_dec vs) dflt)) [enum_kind vs s]
    = Some (Inr (enum_val vs dflt s))"
    by (simp add: enum_with_fields_decode_def)
qed (simp_all add: enum_ok_def)

lemma enum_codec:
  assumes W: "bytes_writer W room" and R: "bytes_reader R" and law: "enum_law W room dflt vs"
  shows "codec W room (enum_with_fields_encode W (map vt_enc vs)) (enum_with_fields_decode R (map vt_dec vs) dflt)
    (\<lambda>s. [enum_kind vs s]) (enum_kind vs) (enum_ok vs dflt) (enum_val vs dflt)"
proof (rule codecI)
  show "encodes W room (enum_with_fields_encode W (map vt_enc vs)) (\<lambda>s. [enum_kind vs s]) (enum_kind vs)"
    by (rule bytes_writer.message_encodes [OF W _ _ _ _ enum_size_eq enum_encode_wrote, OF _ _ _ _ law law])
      (simp_all add: enum_with_fields_encode_def enum_kind_def)
  show "decodes (enum_with_fields_decode R (map vt_dec vs) dflt)
      (\<lambda>s. [enum_kind vs s]) (enum_kind vs) (enum_ok vs dflt) (enum_val vs dflt)"
    by (rule enum_decodes [OF R law])
qed (simp_all add: enum_with_fields_encode_def enum_with_fields_decode_def)

text \<open>
  A variant whose field writes nothing (an empty \<open>Vec\<close>, \<open>None\<close>, an empty map) is encoded as
  the empty message, which is read back as the default variant.
\<close>

lemma enum_empty_payload:
  assumes "enum_law W room dflt vs" and "bytes_owned W room" and "bytes_reader R"
    and "List.find (\<lambda>v. ev_is (vt_enc v) s) vs = Some v" and "vt_kinds v s = []"
  shows "write_to_bytes W (enum_with_fields_encode W (map vt_enc vs)) s = Inr []
    \<and> parse_from_bytes (enum_with_fields_decode R ds dflt) [] = Some (Inr dflt)"
proof -
  have "wrote W room (bw_new W) [] (enum_variant_encode (map vt_enc vs) s (bw_new W))"
    using enum_encode_wrote [OF assms(1), of "bw_new W" s] assms(4,5)
    by (simp add: enum_kind_def enum_parts_def)
  then obtain w where "enum_variant_encode (map vt_enc vs) s (bw_new W) = Inr w" "bw_as_bytes W w = []"
    using assms(2) by (auto simp: wrote_def bytes_owned.grows bytes_owned.new_empty split: sum.splits)
  then show ?thesis
    by (simp add: write_to_bytes_def parse_from_bytes_def enum_with_fields_encode_def
        enum_with_fields_decode_def bytes_reader.decode_fields_fold [OF assms(3)])
qed

end
