(* ===== verification/Messages.thy ===== *)
theory Messages
  imports Enums
begin

text \<open>
  The types of the library with their contracts, the contracts of the derived types of
  \<open>protopuffer/tests/basic_test.rs\<close> (a struct in a struct, an enum with and one without
  fields, a packed vector, a tuple, a map), and the interpretation of the interfaces of
  \<open>Codec\<close> on all of them, over the slice reader and the growable buffer.
\<close>

section \<open>The types of the library\<close>

definition bool_type where
  "bool_type W = \<lparr>mt_enc = bool_encode W, mt_dec = bool_decode,
     mt_flds = (\<lambda>x. [KVarint (of_bool x)]), mt_nkind = (\<lambda>x. KVarint (of_bool x)),
     mt_ok = (\<lambda>_. True), mt_val = (\<lambda>x. x)\<rparr>"

definition u32_type where
  "u32_type W = \<lparr>mt_enc = u32_encode W, mt_dec = int32_decode,
     mt_flds = (\<lambda>x. [KVarint (ucast x)]), mt_nkind = (\<lambda>x. KVarint (ucast x)),
     mt_ok = (\<lambda>_. True), mt_val = (\<lambda>x. x)\<rparr>"

definition i32_type where
  "i32_type W = \<lparr>mt_enc = i32_encode W, mt_dec = int32_decode,
     mt_flds = (\<lambda>x. [KVarint (scast x)]), mt_nkind = (\<lambda>x. KVarint (scast x)),
     mt_ok = (\<lambda>_. True), mt_val = (\<lambda>x. x)\<rparr>"

definition u64_type where
  "u64_type W = \<lparr>mt_enc = u64_encode W, mt_dec = int64_decode,
     mt_flds = (\<lambda>x. [KVarint x]), mt_nkind = KVarint,
     mt_ok = (\<lambda>_. True), mt_val = (\<lambda>x. x)\<rparr>"

definition i64_type where
  "i64_type W = \<lparr>mt_enc = i64_encode W, mt_dec = int64_decode,
     mt_flds = (\<lambda>x. [KVarint x]), mt_nkind = KVarint,
     mt_ok = (\<lambda>_. True), mt_val = (\<lambda>x. x)\<rparr>"

definition f32_type where
  "f32_type W = \<lparr>mt_enc = f32_encode W, mt_dec = f32_decode,
     mt_flds = (\<lambda>x. [KI32 x]), mt_nkind = KI32,
     mt_ok = (\<lambda>bits. bits \<noteq> 0x80000000), mt_val = (\<lambda>x. x)\<rparr>"

definition f64_type where
  "f64_type W = \<lparr>mt_enc = f64_encode W, mt_dec = f64_decode,
     mt_flds = (\<lambda>x. [KI64 x]), mt_nkind = KI64,
     mt_ok = (\<lambda>bits. bits \<noteq> 0x8000000000000000), mt_val = (\<lambda>x. x)\<rparr>"

definition bytes_type where
  "bytes_type W = \<lparr>mt_enc = slice_u8_encode W, mt_dec = vec_u8_decode,
     mt_flds = (\<lambda>bs. [KLen bs]), mt_nkind = KLen,
     mt_ok = (\<lambda>bs. length bs < 2 ^ 64), mt_val = (\<lambda>bs. bs)\<rparr>"

definition array_u8_type where
  "array_u8_type W S = \<lparr>mt_enc = slice_u8_encode W, mt_dec = array_u8_decode S,
     mt_flds = (\<lambda>bs. [KLen bs]), mt_nkind = KLen,
     mt_ok = (\<lambda>bs. length bs = S \<and> S < 2 ^ 64), mt_val = (\<lambda>bs. bs)\<rparr>"

definition string_type where
  "string_type W = \<lparr>mt_enc = string_encode W, mt_dec = string_decode,
     mt_flds = (\<lambda>bs. [KLen bs]), mt_nkind = KLen,
     mt_ok = (\<lambda>bs. utf8_valid bs \<and> length bs < 2 ^ 64), mt_val = (\<lambda>bs. bs)\<rparr>"

lemma scalar_lawful:
  assumes "bytes_writer W room"
  shows "lawful W room (bool_type W)" and "lawful W room (u32_type W)" and "lawful W room (i32_type W)"
    and "lawful W room (u64_type W)" and "lawful W room (i64_type W)"
    and "lawful W room (f32_type W)" and "lawful W room (f64_type W)"
    and "lawful W room (bytes_type W)" and "lawful W room (array_u8_type W S)"
    and "lawful W room (string_type W)"
  using bytes_writer.bool_codec [OF assms] bytes_writer.u32_codec [OF assms]
    bytes_writer.i32_codec [OF assms] bytes_writer.u64_codec [OF assms]
    bytes_writer.i64_codec [OF assms] bytes_writer.f32_codec [OF assms]
    bytes_writer.f64_codec [OF assms] bytes_writer.bytes_codec [OF assms]
    bytes_writer.array_u8_codec [OF assms] bytes_writer.string_codec [OF assms]
  by (simp_all add: lawful_def bool_type_def u32_type_def i32_type_def u64_type_def i64_type_def
      f32_type_def f64_type_def bytes_type_def array_u8_type_def string_type_def)

section \<open>Structs and enums as types\<close>

definition struct_type ::
    "'w bytes_write \<Rightarrow> 'r bytes_read \<Rightarrow> ('s, 't, 'w) struct_field list \<Rightarrow> 't \<Rightarrow> ('s, 't, 'w) message_type" where
  "struct_type W R fs dflt = \<lparr>
     mt_enc = struct_encode W (map fl_enc fs),
     mt_dec = struct_decode R (map fl_dec fs) dflt,
     mt_flds = (\<lambda>s. [struct_kind fs s]),
     mt_nkind = struct_kind fs,
     mt_ok = struct_ok fs,
     mt_val = (\<lambda>s. struct_put fs s dflt)\<rparr>"

lemma struct_lawful:
  assumes "bytes_writer W room" and "bytes_reader R"
    and "struct_law W room fs" and "list_all (\<lambda>f. fl_fresh f dflt) fs"
  shows "lawful W room (struct_type W R fs dflt)"
  using struct_codec [OF assms refl] by (simp add: lawful_def struct_type_def)

definition enum_type ::
    "'w bytes_write \<Rightarrow> 'r bytes_read \<Rightarrow> ('s, 't, 'w) enum_variant list \<Rightarrow> 't \<Rightarrow> ('s, 't, 'w) message_type" where
  "enum_type W R vs dflt = \<lparr>
     mt_enc = enum_with_fields_encode W (map vt_enc vs),
     mt_dec = enum_with_fields_decode R (map vt_dec vs) dflt,
     mt_flds = (\<lambda>s. [enum_kind vs s]),
     mt_nkind = enum_kind vs,
     mt_ok = enum_ok vs dflt,
     mt_val = enum_val vs dflt\<rparr>"

lemma enum_lawful:
  assumes "bytes_writer W room" and "bytes_reader R" and "enum_law W room dflt vs"
  shows "lawful W room (enum_type W R vs dflt)"
  using enum_codec [OF assms] by (simp add: lawful_def enum_type_def)

section \<open>Derived types\<close>

text \<open>\<open>Test4\<close>: the variants with their numbers; \<open>Unknown = 0\<close> is the default.\<close>

datatype test4 = Unknown4 | One4 | Two4

definition test4_encode :: "'w bytes_write \<Rightarrow> (test4, 'w) encode_message" where
  "test4_encode W = enum_no_fields_encode W [(1, One4), (2, Two4)] (0, Unknown4)"

definition test4_decode :: "test4 decode_message" where
  "test4_decode = enum_no_fields_decode [(1, One4), (2, Two4)] (0, Unknown4)"

definition test4_type where
  "test4_type W = enum_no_fields_type W [(1, One4), (2, Two4)] (0, Unknown4)"

text \<open>\<open>Test3\<close>: \<open>One(String)\<close> is field 1, \<open>Two\<close> field 2 and the default.\<close>

datatype test3 = One3 "byte list" | Two3

fun test3_One :: "test3 \<Rightarrow> byte list option" where
  "test3_One (One3 s) = Some s"
| "test3_One Two3 = None"

definition test3_encode :: "'w bytes_write \<Rightarrow> (test3, 'w) encode_message" where
  "test3_encode W = enum_with_fields_encode W
     [enc_field_variant 1 test3_One (string_encode W), enc_unit_variant W 2 Two3]"

definition test3_decode :: "'r bytes_read \<Rightarrow> test3 decode_message" where
  "test3_decode R = enum_with_fields_decode R
     [dec_field_variant 1 test3_One One3 [] string_decode, dec_unit_variant 2 Two3] Two3"

definition test3_variants where
  "test3_variants W = [type_variant 1 test3_One test3_One One3 (string_type W), unit_variant W 2 Two3 Two3]"

text \<open>
  \<open>Test2\<close> and \<open>Test1\<close>. The type of the map is a parameter: the entries in the order of the
  iteration when encoding, the map when decoding.
\<close>

record 'm test2 =
  t2_nums :: "u32 list"
  t2_compl_enum :: test3
  t2_tupls :: "u32 \<times> u64"
  t2_map :: 'm
  t2_test4 :: test4

definition test2_encode :: "'w bytes_write \<Rightarrow> ((byte list \<times> test4) list test2, 'w) encode_message" where
  "test2_encode W = struct_encode W
     [enc_field 1 t2_nums (vec_encode W (u32_encode W)),
      enc_field 2 t2_compl_enum (test3_encode W),
      enc_field 4 t2_tupls (tuple2_encode W (u32_encode W) (u64_encode W)),
      enc_field 6 t2_map (hash_map_encode W (string_encode W) (test4_encode W)),
      enc_field 200 t2_test4 (test4_encode W)]"

definition test2_default :: "(byte list \<rightharpoonup> test4) test2" where
  "test2_default = \<lparr>t2_nums = [], t2_compl_enum = Two3, t2_tupls = (0, 0), t2_map = Map.empty,
     t2_test4 = Unknown4\<rparr>"

definition test2_decode :: "'r bytes_read \<Rightarrow> (byte list \<rightharpoonup> test4) test2 decode_message" where
  "test2_decode R = struct_decode R
     [dec_field 1 t2_nums (\<lambda>v s. s\<lparr>t2_nums := v\<rparr>) (vec_decode R int32_decode),
      dec_field 2 t2_compl_enum (\<lambda>v s. s\<lparr>t2_compl_enum := v\<rparr>) (test3_decode R),
      dec_field 4 t2_tupls (\<lambda>v s. s\<lparr>t2_tupls := v\<rparr>) (tuple2_decode R int32_decode int64_decode),
      dec_field 6 t2_map (\<lambda>v s. s\<lparr>t2_map := v\<rparr>) (hash_map_decode R string_decode test4_decode),
      dec_field 200 t2_test4 (\<lambda>v s. s\<lparr>t2_test4 := v\<rparr>) test4_decode]
     test2_default"

record 'm test1 =
  t1_s :: "byte list"
  t1_some_struct :: "'m test2"

definition test1_encode :: "'w bytes_write \<Rightarrow> ((byte list \<times> test4) list test1, 'w) encode_message" where
  "test1_encode W = struct_encode W
     [enc_field 1 t1_s (string_encode W), enc_field 5 t1_some_struct (test2_encode W)]"

definition test1_default :: "(byte list \<rightharpoonup> test4) test1" where
  "test1_default = \<lparr>t1_s = [], t1_some_struct = test2_default\<rparr>"

definition test1_decode :: "'r bytes_read \<Rightarrow> (byte list \<rightharpoonup> test4) test1 decode_message" where
  "test1_decode R = struct_decode R
     [dec_field 1 t1_s (\<lambda>v s. s\<lparr>t1_s := v\<rparr>) string_decode,
      dec_field 5 t1_some_struct (\<lambda>v s. s\<lparr>t1_some_struct := v\<rparr>) (test2_decode R)]
     test1_default"

text \<open>The same as fields with their contracts.\<close>

definition test2_fields ::
    "'w bytes_write \<Rightarrow> 'r bytes_read
      \<Rightarrow> ((byte list \<times> test4) list test2, (byte list \<rightharpoonup> test4) test2, 'w) struct_field list" where
  "test2_fields W R =
     [type_field 1 t2_nums t2_nums (\<lambda>v s. s\<lparr>t2_nums := v\<rparr>) (vec_type W R (u32_type W)),
      type_field 2 t2_compl_enum t2_compl_enum (\<lambda>v s. s\<lparr>t2_compl_enum := v\<rparr>) (enum_type W R (test3_variants W) Two3),
      type_field 4 t2_tupls t2_tupls (\<lambda>v s. s\<lparr>t2_tupls := v\<rparr>) (tuple2_type W R (u32_type W) (u64_type W)),
      type_field 6 t2_map t2_map (\<lambda>v s. s\<lparr>t2_map := v\<rparr>) (hash_map_type W R (string_type W) (test4_type W)),
      type_field 200 t2_test4 t2_test4 (\<lambda>v s. s\<lparr>t2_test4 := v\<rparr>) (test4_type W)]"

definition test2_type where
  "test2_type W R = struct_type W R (test2_fields W R) test2_default"

definition test1_fields ::
    "'w bytes_write \<Rightarrow> 'r bytes_read
      \<Rightarrow> ((byte list \<times> test4) list test1, (byte list \<rightharpoonup> test4) test1, 'w) struct_field list" where
  "test1_fields W R =
     [type_field 1 t1_s t1_s (\<lambda>v s. s\<lparr>t1_s := v\<rparr>) (string_type W),
      type_field 5 t1_some_struct t1_some_struct (\<lambda>v s. s\<lparr>t1_some_struct := v\<rparr>) (test2_type W R)]"

definition test1_type where
  "test1_type W R = struct_type W R (test1_fields W R) test1_default"

text \<open>The contracts are about the derived code.\<close>

lemma test4_type_code:
  "mt_enc (test4_type W) = test4_encode W" "mt_dec (test4_type W) = test4_decode"
  by (simp_all add: test4_type_def enum_no_fields_type_def Let_def test4_encode_def test4_decode_def)

lemma test3_type_code:
  "mt_enc (enum_type W R (test3_variants W) Two3) = test3_encode W"
  "mt_dec (enum_type W R (test3_variants W) Two3) = test3_decode R"
  by (simp_all add: enum_type_def test3_variants_def type_variant_def unit_variant_def string_type_def
      test3_encode_def test3_decode_def string_decode_def)

lemma test2_type_code:
  "mt_enc (test2_type W R) = test2_encode W" "mt_dec (test2_type W R) = test2_decode R"
  by (simp_all add: test2_type_def struct_type_def test2_fields_def test2_encode_def test2_decode_def
      test4_type_code test3_type_code vec_type_def tuple2_type_def hash_map_type_def u32_type_def
      u64_type_def string_type_def Let_def)

lemma test1_type_code:
  "mt_enc (test1_type W R) = test1_encode W" "mt_dec (test1_type W R) = test1_decode R"
  by (simp_all add: test1_type_def struct_type_def test1_fields_def test1_encode_def test1_decode_def
      test2_type_code string_type_def)

section \<open>The derived types keep the contract\<close>

lemma test4_lawful: "bytes_writer W room \<Longrightarrow> lawful W room (test4_type W)"
  unfolding test4_type_def by (rule enum_no_fields_lawful) (simp_all add: enum_numbers_ok_def)

lemma vt_num_simps [simp]:
  "vt_num (unit_variant W n ident dident) = n" "vt_num (type_variant n sel dsel ident' T) = n"
  by (simp_all add: vt_num_def unit_variant_def type_variant_def enc_unit_variant_def enc_field_variant_def)

lemma test3_lawful:
  assumes "bytes_writer W room" and "bytes_reader R"
  shows "lawful W room (enum_type W R (test3_variants W) Two3)"
  using assms
  by (intro enum_lawful)
    (auto simp: enum_law_def test3_variants_def intro!: type_variant_law unit_variant_law scalar_lawful)

lemma test2_places:
  "place t2_nums (\<lambda>v s. s\<lparr>t2_nums := v\<rparr>)" "place t2_compl_enum (\<lambda>v s. s\<lparr>t2_compl_enum := v\<rparr>)"
  "place t2_tupls (\<lambda>v s. s\<lparr>t2_tupls := v\<rparr>)" "place t2_map (\<lambda>v s. s\<lparr>t2_map := v\<rparr>)"
  "place t2_test4 (\<lambda>v s. s\<lparr>t2_test4 := v\<rparr>)"
  by unfold_locales simp_all

lemma test2_lawful:
  assumes "bytes_writer W room" and "bytes_reader R"
  shows "lawful W room (test2_type W R)"
  unfolding test2_type_def
proof (rule struct_lawful [OF assms])
  show "struct_law W room (test2_fields W R)"
    using assms
    by (auto simp: struct_law_def test2_fields_def
        intro!: type_field_law test2_places vec_lawful test3_lawful tuple2_lawful hash_map_lawful
          test4_lawful scalar_lawful)
  show "list_all (\<lambda>f. fl_fresh f test2_default) (test2_fields W R)"
    by (simp add: test2_fields_def test2_default_def test3_type_code test4_type_code vec_type_def
        tuple2_type_def hash_map_type_def test3_decode_def test4_decode_def vec_decode_def
        tuple2_decode_def struct_decode_def enum_with_fields_decode_def enum_no_fields_decode_def
        hash_map_decode_def u32_type_def u64_type_def int32_decode_def int64_decode_def
        impl_varint_decode_def Let_def)
qed

lemma test1_lawful:
  assumes "bytes_writer W room" and "bytes_reader R"
  shows "lawful W room (test1_type W R)"
  unfolding test1_type_def
proof (rule struct_lawful [OF assms])
  have "place t1_s (\<lambda>v s. s\<lparr>t1_s := v\<rparr>)" "place t1_some_struct (\<lambda>v s. s\<lparr>t1_some_struct := v\<rparr>)"
    by unfold_locales simp_all
  then show "struct_law W room (test1_fields W R)"
    using assms
    by (auto simp: struct_law_def test1_fields_def intro!: type_field_law test2_lawful scalar_lawful)
  show "list_all (\<lambda>f. fl_fresh f test1_default) (test1_fields W R)"
    by (simp add: test1_fields_def test1_default_def test2_type_code string_type_def string_decode_def
        test2_decode_def struct_decode_def)
qed

end
