(* ===== verification/Protopuffer_Props.thy ===== *)
theory Protopuffer_Props
  imports Messages
begin

text \<open>
  What the contracts of \<open>Codec\<close> say of \<open>to_vec\<close>, \<open>to_bytes_writer\<close> and \<open>from_slice\<close>: round
  trips, sizes, full buffers, termination on any input, the freedom a decoder has, and the two
  places where the code departs from the protobuf encoding.
\<close>

section \<open>The interfaces on the derived types\<close>

interpretation test4_enc: encodes vec_writer unbounded "test4_encode vec_writer"
    "mt_flds (test4_type vec_writer)" "mt_nkind (test4_type vec_writer)"
  using test4_lawful [OF vec.bytes_writer_axioms] by (simp add: lawful_def codec_def test4_type_code)

interpretation test4_dec: decodes test4_decode "mt_flds (test4_type vec_writer)"
    "mt_nkind (test4_type vec_writer)" "mt_ok (test4_type vec_writer)" "mt_val (test4_type vec_writer)"
  using test4_lawful [OF vec.bytes_writer_axioms] by (simp add: lawful_def codec_def test4_type_code)

interpretation test2: codec vec_writer unbounded "test2_encode vec_writer" "test2_decode slice_reader"
    "mt_flds (test2_type vec_writer slice_reader)" "mt_nkind (test2_type vec_writer slice_reader)"
    "mt_ok (test2_type vec_writer slice_reader)" "mt_val (test2_type vec_writer slice_reader)"
  using test2_lawful [OF vec.bytes_writer_axioms slice.bytes_reader_axioms]
  by (simp add: lawful_def test2_type_code)

lemma lawful_roundtrip:
  assumes "lawful W room T" and "bytes_owned W room" and "mt_ok T x" and "dm_wire_type (mt_dec T) = WLen"
  shows "\<exists>bs. to_vec W (mt_enc T) x = Inr bs \<and> from_slice (mt_dec T) bs = Some (Inr (mt_val T x))"
  using codec_roundtrip [of W room "mt_enc T" "mt_dec T" "mt_flds T" "mt_nkind T" "mt_ok T" "mt_val T" x] assms
  by (simp add: lawful_def to_vec_def from_slice_def)

lemma owned_writer: "bytes_owned W room \<Longrightarrow> bytes_writer W room"
  by (simp add: bytes_owned_def)

section \<open>The derived struct of the tests\<close>

text \<open>The value that a \<open>Test1\<close> is read back as: the entries of its map as a map.\<close>

definition test2_owned :: "('k \<times> 'v) list test2 \<Rightarrow> ('k \<rightharpoonup> 'v) test2" where
  "test2_owned t = \<lparr>t2_nums = t2_nums t, t2_compl_enum = t2_compl_enum t, t2_tupls = t2_tupls t,
     t2_map = map_of (t2_map t), t2_test4 = t2_test4 t\<rparr>"

definition test1_owned :: "('k \<times> 'v) list test1 \<Rightarrow> ('k \<rightharpoonup> 'v) test1" where
  "test1_owned t = \<lparr>t1_s = t1_s t, t1_some_struct = test2_owned (t1_some_struct t)\<rparr>"

lemma test3_val: "enum_val (test3_variants W) Two3 x = x"
  by (cases x) (simp_all add: enum_val_def test3_variants_def type_variant_def unit_variant_def
      enc_field_variant_def enc_unit_variant_def string_type_def)

lemma test2_val: "mt_val (test2_type W R) x = test2_owned x"
  by (cases "t2_tupls x")
    (simp add: test2_type_def struct_type_def struct_put_def test2_fields_def test2_owned_def
      test2_default_def vec_type_def enum_type_def tuple2_type_def hash_map_type_def test4_type_def
      enum_no_fields_type_def u32_type_def u64_type_def string_type_def test3_val Let_def)

lemma test1_val: "mt_val (test1_type W R) x = test1_owned x"
  by (simp add: test1_type_def struct_type_def struct_put_def test1_fields_def test1_owned_def
      test1_default_def string_type_def test2_val)

text \<open>
  What the Rust types guarantee: strings are UTF-8, and the keys of a map differ.
\<close>

definition test3_typed :: "test3 \<Rightarrow> bool" where
  "test3_typed x = (case x of One3 s \<Rightarrow> utf8_valid s | Two3 \<Rightarrow> True)"

definition test2_typed :: "(byte list \<times> test4) list test2 \<Rightarrow> bool" where
  "test2_typed x \<longleftrightarrow> test3_typed (t2_compl_enum x)
     \<and> list_all (\<lambda>kv. utf8_valid (fst kv)) (t2_map x) \<and> distinct (map fst (t2_map x))"

definition test1_typed :: "(byte list \<times> test4) list test1 \<Rightarrow> bool" where
  "test1_typed x \<longleftrightarrow> utf8_valid (t1_s x) \<and> test2_typed (t1_some_struct x)"

text \<open>If a whole message is short enough for the lengths in it, so are its parts.\<close>

lemma length_tag_1: "length (varint_bytes (tag_of 1 t)) = 1"
  by (cases t) (simp_all add: tag_of_def length_varint_bytes digits128.simps)

lemma length_field_1: "length (field_bytes 1 k) \<le> length (field_bytes n k)"
  using length_varint_bytes_bounds [of "tag_of n (kind_wire_type k)"]
  by (simp add: field_bytes_def length_tag_1 [unfolded One_nat_def])

lemma length_fields_1:
  "length (concat (map (field_bytes 1) ks)) \<le> length (concat (map (field_bytes n) ks))"
  by (induction ks) (auto intro: add_mono length_field_1)

lemma fields_length:
  assumes "f \<in> set fs" and "kind_ok (struct_kind fs s)" and "\<not> ef_is_default (fl_enc f) s"
  shows "length (concat (map (field_bytes (fl_num f)) (fl_kinds f s))) < 2 ^ 64"
proof -
  have "length (concat (map bytes_of_field (fl_parts s f))) \<le> length (body_of (struct_kind fs s))"
    using assms(1) by (induction fs) (auto simp: struct_kind_def)
  with assms(2,3) show ?thesis
    by (simp add: struct_kind_def fl_parts_def o_def)
qed

lemma repeated_part_ok:
  assumes "f \<in> set fs" and "kind_ok (struct_kind fs s)"
    and "ef_is_default (fl_enc f) s \<Longrightarrow> fl_kinds f s = []"
  shows "kind_ok (inner_message (fl_kinds f s))"
  using fields_length [OF assms(1,2)] assms(3) length_fields_1 [of "fl_kinds f s" "fl_num f"]
  by (cases "ef_is_default (fl_enc f) s") (auto simp: inner_message_def intro: le_less_trans)

lemma single_part_ok:
  assumes "f \<in> set fs" and "kind_ok (struct_kind fs s)"
    and "\<not> ef_is_default (fl_enc f) s" and "fl_kinds f s = [k]"
  shows "kind_ok k"
  using fields_length [OF assms(1-3)] assms(4) by (cases k) (simp_all add: field_bytes_def)

lemmas field_part_simps = type_field_def codec_field_def enc_field_def

lemma pair_ok:
  assumes "kind_ok (struct_kind (tuple2_fields (string_type W) (test4_type W)) kv)" and "utf8_valid (fst kv)"
  shows "mt_ok (tuple2_type W R (string_type W) (test4_type W)) kv"
proof -
  have "kind_ok (KLen (fst kv))"
    using single_part_ok [OF _ assms(1), of "hd (tuple2_fields (string_type W) (test4_type W))" "KLen (fst kv)"]
    by (cases "fst kv = []")
      (simp_all add: tuple2_fields_def field_part_simps string_type_def string_encode_def slice_u8_encode_def)
  moreover have "x = Unknown4 \<or> x = One4 \<or> x = Two4" for x by (cases x) simp_all
  ultimately show ?thesis
    using assms by (auto simp: tuple2_type_def struct_ok_def tuple2_fields_def string_type_def test4_type_def
        enum_no_fields_type_def enum_no_fields_ok_def Let_def)
qed

lemma test3_ok:
  assumes "kind_ok (enum_kind (test3_variants W) x)" and "test3_typed x"
  shows "enum_ok (test3_variants W) Two3 x"
  using assms
  by (cases x) (auto simp: enum_ok_def enum_kind_def enum_parts_def test3_typed_def test3_variants_def
      type_variant_def unit_variant_def enc_field_variant_def enc_unit_variant_def string_type_def
      field_bytes_def)

lemma test2_ok:
  assumes k: "kind_ok (struct_kind (test2_fields W R) x)" and typed: "test2_typed x"
  shows "mt_ok (test2_type W R) x"
proof -
  have nth: "test2_fields W R ! i \<in> set (test2_fields W R)" if "i < 5" for i
    using that by (intro nth_mem) (simp add: test2_fields_def)
  have "kind_ok (inner_message (fl_kinds (test2_fields W R ! 0) x))"
    by (rule repeated_part_ok [OF nth k])
      (simp_all add: test2_fields_def field_part_simps vec_type_def vec_encode_def vec_flds_def Let_def)
  then have nums: "mt_ok (vec_type W R (u32_type W)) (t2_nums x)"
    by (simp add: test2_fields_def field_part_simps vec_type_def u32_type_def Let_def list_all_iff)
  have "kind_ok (enum_kind (test3_variants W) (t2_compl_enum x))"
    by (rule single_part_ok [OF nth k, of 1])
      (simp_all add: test2_fields_def field_part_simps enum_type_def enum_with_fields_encode_def)
  then have enum: "enum_ok (test3_variants W) Two3 (t2_compl_enum x)"
    using typed by (intro test3_ok) (auto simp: test2_typed_def)
  have tuple: "kind_ok (struct_kind (tuple2_fields (u32_type W) (u64_type W)) (t2_tupls x))"
    by (rule single_part_ok [OF nth k, of 2])
      (simp_all add: test2_fields_def field_part_simps tuple2_type_def tuple2_encode_def struct_encode_def)
  have map: "kind_ok (inner_message (map_flds (string_type W) (test4_type W) (t2_map x)))"
    using repeated_part_ok [OF nth k, of 3]
    by (simp add: test2_fields_def field_part_simps hash_map_type_def hash_map_encode_def map_flds_def)
  have "mt_ok (tuple2_type W R (string_type W) (test4_type W)) kv" if "kv \<in> set (t2_map x)" for kv
    using that typed map by (intro pair_ok kind_ok_part [OF _ map]) (auto simp: map_flds_def test2_typed_def list_all_iff)
  with map typed have "mt_ok (hash_map_type W R (string_type W) (test4_type W)) (t2_map x)"
    by (auto simp: hash_map_type_def list_all_iff test2_typed_def string_type_def o_def)
  moreover have "y = Unknown4 \<or> y = One4 \<or> y = Two4" for y by (cases y) simp_all
  ultimately show ?thesis
    using k nums enum tuple
    by (auto simp: test2_type_def struct_type_def struct_ok_def test2_fields_def enum_type_def
        tuple2_type_def tuple2_fields_def u32_type_def u64_type_def test4_type_def
        enum_no_fields_type_def enum_no_fields_ok_def Let_def)
qed

lemma test1_ok:
  assumes k: "kind_ok (struct_kind (test1_fields W R) x)" and typed: "test1_typed x"
  shows "mt_ok (test1_type W R) x"
proof -
  have nth: "test1_fields W R ! i \<in> set (test1_fields W R)" if "i < 2" for i
    using that by (intro nth_mem) (simp add: test1_fields_def)
  have "kind_ok (KLen (t1_s x))"
    using single_part_ok [OF nth k, of 0 "KLen (t1_s x)"]
    by (cases "t1_s x = []")
      (simp_all add: test1_fields_def field_part_simps string_type_def string_encode_def slice_u8_encode_def)
  moreover have "kind_ok (struct_kind (test2_fields W R) (t1_some_struct x))"
    by (rule single_part_ok [OF nth k, of 1])
      (simp_all add: test1_fields_def field_part_simps test2_type_def struct_type_def struct_encode_def)
  ultimately show ?thesis
    using k typed test2_ok
    by (auto simp: test1_type_def struct_type_def struct_ok_def test1_fields_def test1_typed_def string_type_def)
qed

lemma test1_nkind: "mt_nkind (test1_type W R) = struct_kind (test1_fields W R)"
  by (simp add: test1_type_def struct_type_def)

text \<open>What is written for a message of a lawful type.\<close>

lemma lawful_to_vec:
  assumes "lawful W room T" and "bytes_owned W room"
  shows "to_vec W (mt_enc T) x = Inr (body_of (mt_nkind T x))"
proof -
  have "wrote W room (bw_new W) (body_of (mt_nkind T x)) (em_encode (mt_enc T) x None (bw_new W))"
    using assms(1) encodes.encode_law [of W room "mt_enc T" "mt_flds T" "mt_nkind T" "bw_new W" x None]
    by (simp add: lawful_def codec_def)
  then show ?thesis
    using assms(2) by (auto simp: to_vec_def write_to_bytes_def wrote_def bytes_owned.grows
        bytes_owned.new_empty split: sum.splits)
qed

lemma lawful_to_writer:
  assumes "lawful W room T"
  shows "wrote W room w (body_of (mt_nkind T x)) (to_bytes_writer (mt_enc T) x w)"
  using assms encodes.encode_law [of W room "mt_enc T" "mt_flds T" "mt_nkind T" w x None]
  by (simp add: lawful_def codec_def to_bytes_writer_def)

section \<open>Properties\<close>

text \<open>
  C6. A value of the nested struct \<open>Test1\<close> (a string, a packed vector, an enum with fields, a
  tuple, a map and an enum without fields) is always encoded by \<open>to_vec\<close>, and \<open>from_slice\<close>
  gives the value back. The only condition is on the size: the whole is shorter than \<open>2 ^ 64\<close>.
\<close>

theorem test1_roundtrip:
  assumes "bytes_owned W room" and "bytes_reader R" and "test1_typed x"
  shows "\<exists>bs. to_vec W (test1_encode W) x = Inr bs
    \<and> (length bs < 2 ^ 64 \<longrightarrow> from_slice (test1_decode R) bs = Some (Inr (test1_owned x)))"
proof -
  have law: "lawful W room (test1_type W R)"
    using assms by (intro test1_lawful owned_writer)
  have vec: "to_vec W (test1_encode W) x = Inr (body_of (struct_kind (test1_fields W R) x))"
    using lawful_to_vec [OF law assms(1), of x] by (simp add: test1_type_code test1_nkind)
  moreover have "from_slice (test1_decode R) (body_of (struct_kind (test1_fields W R) x)) = Some (Inr (test1_owned x))"
    if "length (body_of (struct_kind (test1_fields W R) x)) < 2 ^ 64"
  proof -
    have "mt_ok (test1_type W R) x"
      using that assms(3) by (intro test1_ok) (simp_all add: struct_kind_def)
    with lawful_roundtrip [OF law assms(1), of x] vec show ?thesis
      by (simp add: test1_type_code test1_val test1_decode_def struct_decode_def)
  qed
  ultimately show ?thesis by blast
qed

definition test1_example :: "(byte list \<times> test4) list test1" where
  "test1_example = \<lparr>t1_s = [72, 101, 0xC3, 0xBC], t1_some_struct =
     \<lparr>t2_nums = [0, 1, 300], t2_compl_enum = One3 [97], t2_tupls = (10, 20),
      t2_map = [([97, 98], One4), ([99], Two4)], t2_test4 = One4\<rparr>\<rparr>"

theorem test1_roundtrip_witness:
  "\<exists>bs. to_vec vec_writer (test1_encode vec_writer) test1_example = Inr bs
    \<and> (length bs < 2 ^ 64 \<longrightarrow> from_slice (test1_decode slice_reader) bs = Some (Inr (test1_owned test1_example)))"
  by (rule test1_roundtrip [OF vec.bytes_owned_axioms slice.bytes_reader_axioms]) code_simp

text \<open>
  Every derived struct: if the implementations of its fields' types keep the contract and
  its field numbers differ, a value that fits is encoded, and is read back field by field.
\<close>

theorem struct_roundtrip:
  assumes "bytes_owned W room" and "bytes_reader R"
    and "struct_law W room fs" and "list_all (\<lambda>f. fl_fresh f dflt) fs" and "struct_ok fs s"
  shows "\<exists>bs. to_vec W (struct_encode W (map fl_enc fs)) s = Inr bs
    \<and> from_slice (struct_decode R (map fl_dec fs) dflt) bs = Some (Inr (struct_put fs s dflt))"
  using lawful_roundtrip [OF struct_lawful [OF owned_writer [OF assms(1)] assms(2-4)] assms(1), of s] assms(5)
  by (simp add: struct_type_def struct_decode_def)

text \<open>
  Every derived enum with fields: a value whose variant writes a field, or which is the
  default, is read back.
\<close>

theorem enum_roundtrip:
  assumes "bytes_owned W room" and "bytes_reader R" and "enum_law W room dflt vs" and "enum_ok vs dflt s"
  shows "\<exists>bs. to_vec W (enum_with_fields_encode W (map vt_enc vs)) s = Inr bs
    \<and> from_slice (enum_with_fields_decode R (map vt_dec vs) dflt) bs = Some (Inr (enum_val vs dflt s))"
  using lawful_roundtrip [OF enum_lawful [OF owned_writer [OF assms(1)] assms(2,3)] assms(1), of s] assms(4)
  by (simp add: enum_type_def enum_with_fields_decode_def)

text \<open>
  \<open>Vec<V>\<close>, packed or not, for every lawful \<open>V\<close>.
\<close>

theorem vec_roundtrip:
  assumes "bytes_owned W room" and "bytes_reader R" and "lawful W room V"
    and "mt_ok (vec_type W R V) xs"
  shows "\<exists>bs. to_vec W (vec_encode W (mt_enc V)) xs = Inr bs
    \<and> from_slice (vec_decode R (mt_dec V)) bs = Some (Inr (map (mt_val V) xs))"
  using lawful_roundtrip [OF vec_lawful [OF owned_writer [OF assms(1)] assms(2,3)] assms(1), of xs] assms(4)
  by (simp add: vec_type_def Let_def vec_decode_def)

text \<open>
  The size computed before writing is exact: it is by how much the buffer grows. So the
  lengths written before nested messages are right and no \<open>debug_assert\<close> fires.
\<close>

theorem encoded_size_exact:
  assumes "lawful W room T" and "em_encode (mt_enc T) x field w = Inr w'"
  shows "em_encoded_size (mt_enc T) x field 0 = Inr (written_len W w' - written_len W w)"
  using assms encodes.size_is_length [of W room "mt_enc T" "mt_flds T" "mt_nkind T" x field w w']
  by (simp add: lawful_def codec_def)

lemma test3_kind_any: "enum_kind (test3_variants W) x = enum_kind (test3_variants V) x"
  by (cases x) (simp_all add: enum_kind_def enum_parts_def test3_variants_def type_variant_def
      unit_variant_def enc_field_variant_def enc_unit_variant_def string_type_def vt_num_def)

lemma pair_kind_any:
  "struct_kind (tuple2_fields (string_type W) (test4_type W))
     = struct_kind (tuple2_fields (string_type V) (test4_type V))"
  by (rule ext) (simp add: struct_kind_def tuple2_fields_def fl_parts_def fl_num_def field_part_simps
      string_type_def test4_type_def enum_no_fields_type_def Let_def string_encode_def
      slice_u8_encode_def enum_no_fields_encode_def)

lemma test2_kind_any: "struct_kind (test2_fields W R) x = struct_kind (test2_fields V Q) x"
  using test3_kind_any [of W "t2_compl_enum x" V] pair_kind_any [of W V]
  by (simp add: struct_kind_def [of "test2_fields _ _"] test2_fields_def fl_parts_def fl_num_def field_part_simps
      vec_type_def vec_encode_def u32_type_def Let_def enum_type_def enum_with_fields_encode_def
      tuple2_type_def tuple2_encode_def struct_encode_def hash_map_type_def hash_map_encode_def
      map_flds_def test4_type_def enum_no_fields_type_def enum_no_fields_encode_def int32_decode_def
      impl_varint_decode_def u64_type_def)
    (simp add: struct_kind_def tuple2_fields_def fl_parts_def fl_num_def field_part_simps
      u32_encode_def u64_encode_def impl_varint_encode_def)

lemma test1_kind_any: "struct_kind (test1_fields W R) x = struct_kind (test1_fields V Q) x"
  using test2_kind_any [of W R "t1_some_struct x" V Q]
  unfolding struct_kind_def [of "test1_fields W R"] struct_kind_def [of "test1_fields V Q"]
  by (simp add: test1_fields_def fl_parts_def fl_num_def field_part_simps
      string_type_def string_encode_def slice_u8_encode_def test2_type_def struct_type_def struct_encode_def)

text \<open>
  Writing into a buffer of \<open>n\<close> bytes gives the bytes of \<open>to_vec\<close> if they fit and
  \<open>BufferExausted\<close> otherwise.
\<close>

theorem fixed_buffer:
  assumes "to_vec vec_writer (test1_encode vec_writer) x = Inr bs"
  shows "to_bytes_writer (test1_encode (fixed_writer n)) x []
    = (if length bs \<le> n then Inr bs else Inl BufferExausted)"
proof -
  have "bs = body_of (struct_kind (test1_fields vec_writer slice_reader) x)"
    using assms lawful_to_vec [OF test1_lawful [OF vec.bytes_writer_axioms slice.bytes_reader_axioms]
        vec.bytes_owned_axioms, of x]
    by (simp add: test1_type_code test1_nkind)
  then have "wrote (fixed_writer n) (fixed_room n) [] bs (to_bytes_writer (test1_encode (fixed_writer n)) x [])"
    using lawful_to_writer [OF test1_lawful [OF fixed.bytes_writer_axioms slice.bytes_reader_axioms], of n "[]" x]
      test1_kind_any [of vec_writer slice_reader x "fixed_writer n" slice_reader]
    by (simp add: test1_type_code test1_nkind)
  then show ?thesis
    by (auto simp: wrote_def fixed_room_def fixed_writer_def split: sum.splits)
qed

section \<open>The properties on concrete values\<close>

definition pair_fields :: "(u32 \<times> byte list, u32 \<times> byte list, byte list) struct_field list" where
  "pair_fields = [type_field 1 fst fst set_fst (u32_type vec_writer), type_field 2 snd snd set_snd (string_type vec_writer)]"

lemma pair_fields_law: "struct_law vec_writer unbounded pair_fields"
  by (auto simp: struct_law_def pair_fields_def set_fst_def set_snd_def
      intro!: type_field_law fst_place.place_axioms snd_place.place_axioms
        scalar_lawful [OF vec.bytes_writer_axioms])

theorem struct_roundtrip_witness:
  "\<exists>bs. to_vec vec_writer (struct_encode vec_writer (map fl_enc pair_fields)) (300, [65]) = Inr bs
    \<and> from_slice (struct_decode slice_reader (map fl_dec pair_fields) (0, [])) bs
      = Some (Inr (struct_put pair_fields (300, [65]) (0, [])))"
proof (rule struct_roundtrip [OF vec.bytes_owned_axioms slice.bytes_reader_axioms pair_fields_law])
  show "list_all (\<lambda>f. fl_fresh f (0, [])) pair_fields"
    by (simp add: pair_fields_def u32_type_def int32_decode_def impl_varint_decode_def string_type_def string_decode_def)
  show "struct_ok pair_fields (300, [65])"
    by (simp add: pair_fields_def struct_ok_def struct_kind_def field_part_simps fl_parts_def u32_type_def
        u32_encode_def impl_varint_encode_def string_type_def string_encode_def slice_u8_encode_def
        fl_num_def with_number_def bytes_of_field_def field_bytes_def length_varint_bytes digits128.simps tag_of_def)
qed

theorem enum_roundtrip_witness:
  "\<exists>bs. to_vec vec_writer (enum_with_fields_encode vec_writer (map vt_enc (test3_variants vec_writer))) (One3 [97]) = Inr bs
    \<and> from_slice (enum_with_fields_decode slice_reader (map vt_dec (test3_variants vec_writer)) Two3) bs
      = Some (Inr (enum_val (test3_variants vec_writer) Two3 (One3 [97])))"
proof (rule enum_roundtrip [OF vec.bytes_owned_axioms slice.bytes_reader_axioms])
  show "enum_law vec_writer unbounded Two3 (test3_variants vec_writer)"
    using scalar_lawful [OF vec.bytes_writer_axioms]
    by (auto simp: enum_law_def test3_variants_def intro!: type_variant_law unit_variant_law vec.bytes_writer_axioms)
  show "enum_ok (test3_variants vec_writer) Two3 (One3 [97])"
    by (rule test3_ok) (simp_all add: test3_typed_def enum_kind_def enum_parts_def test3_variants_def type_variant_def
        enc_field_variant_def string_type_def vt_num_def field_bytes_def length_varint_bytes digits128.simps tag_of_def)
qed

theorem vec_roundtrip_witness:
  "\<exists>bs. to_vec vec_writer (vec_encode vec_writer (mt_enc (u32_type vec_writer))) [1, 300] = Inr bs
    \<and> from_slice (vec_decode slice_reader (mt_dec (u32_type vec_writer))) bs
      = Some (Inr (map (mt_val (u32_type vec_writer)) [1, 300]))"
  by (rule vec_roundtrip [OF vec.bytes_owned_axioms slice.bytes_reader_axioms scalar_lawful(2) [OF vec.bytes_writer_axioms]])
    (simp add: vec_type_def vec_flds_def u32_type_def int32_decode_def impl_varint_decode_def inner_message_def
      field_bytes_def length_varint_bytes digits128.simps tag_of_def Let_def)

theorem encoded_size_exact_witness:
  "em_encoded_size (mt_enc (string_type vec_writer)) [65, 66] (Some (field_opt_new 3)) 0
     = Inr (written_len vec_writer [9, 26, 2, 65, 66] - written_len vec_writer [9])"
  by (rule encoded_size_exact [OF scalar_lawful(10) [OF vec.bytes_writer_axioms]]) code_simp

theorem fixed_buffer_witness:
  "to_bytes_writer (test1_encode (fixed_writer 4)) \<lparr>t1_s = [72], t1_some_struct = \<lparr>t2_nums = [],
       t2_compl_enum = Two3, t2_tupls = (0, 0), t2_map = [], t2_test4 = Unknown4\<rparr>\<rparr> []
    = (if length [10, 1, 72, 42, 6, 18, 2, 18, 0, 34, 0 :: byte] \<le> 4 then Inr [10, 1, 72, 42, 6, 18, 2, 18, 0, 34, 0]
       else Inl BufferExausted)"
  by (rule fixed_buffer) code_simp

section \<open>Decoding any input\<close>

text \<open>Every call of \<open>merge\<close> returns.\<close>

definition returns :: "'a decode_message \<Rightarrow> bool" where
  "returns D \<longleftrightarrow> (\<forall>s k is_field. dm_merge D s k is_field \<noteq> None)"

lemma returns_slice: "returns D \<Longrightarrow> \<exists>res. from_slice D bs = Some res"
  by (simp add: returns_def from_slice_def parse_from_bytes_def tbind_eq_None flip: not_None_eq)

lemma returns_scalar [simp]:
  "returns string_decode" "returns int32_decode" "returns int64_decode" "returns test4_decode"
  by (simp_all add: returns_def string_decode_def int32_decode_def int64_decode_def impl_varint_decode_def
      test4_decode_def enum_no_fields_decode_def)

lemma dec_field_returns: "returns D \<Longrightarrow> df_merge (dec_field n get put D) s k is_field \<noteq> None"
  by (simp add: returns_def dec_field_def tbind_eq_None del: not_None_eq)

context bytes_reader
begin

lemma struct_returns:
  assumes "\<forall>f \<in> set fs. \<forall>s k is_field. df_merge f s k is_field \<noteq> None"
  shows "returns (struct_decode R fs dflt)"
proof -
  have "struct_merge_field fs s f \<noteq> None" for s f
    using assms by (auto simp: struct_merge_field_def dest!: find_SomeD split: option.split)
  then show ?thesis by (simp add: returns_def struct_decode_def decode_fields_total del: not_None_eq)
qed

lemma enum_returns:
  assumes "\<forall>v \<in> set vs. \<forall>s k. dv_merge v s k \<noteq> None"
  shows "returns (enum_with_fields_decode R vs dflt)"
proof -
  have "enum_merge_field vs s f \<noteq> None" for s f
    using assms by (auto simp: enum_merge_field_def dest!: find_SomeD split: option.split)
  then show ?thesis by (simp add: returns_def enum_with_fields_decode_def decode_fields_total del: not_None_eq)
qed

lemma number_1_returns:
  assumes "\<And>s k. f s k \<noteq> None"
  shows "decode_fields R (merge_number_1 f) s k \<noteq> None"
  using assms by (intro decode_fields_total) (simp add: merge_number_1_def)

lemma vec_returns:
  assumes "returns V"
  shows "returns (vec_decode R V)"
proof -
  have "vec_push_merged V s k \<noteq> None" for s k
    using assms by (simp add: returns_def vec_push_merged_def tbind_eq_None del: not_None_eq)
  then have "vec_merge_field R V s k \<noteq> None" for s k
    by (simp add: vec_merge_field_def decode_packed_total del: not_None_eq)
  then show ?thesis by (simp add: returns_def vec_decode_def number_1_returns del: not_None_eq)
qed

lemma option_returns:
  assumes "returns V"
  shows "returns (option_decode R V)"
proof -
  have "option_merge_field V s k \<noteq> None" for s k
    using assms by (cases s) (simp_all add: returns_def option_merge_field_def tbind_eq_None del: not_None_eq)
  then show ?thesis by (simp add: returns_def option_decode_def number_1_returns del: not_None_eq)
qed

lemma tuple2_returns: "returns A \<Longrightarrow> returns B \<Longrightarrow> returns (tuple2_decode R A B)"
  by (simp add: tuple2_decode_def struct_returns dec_field_returns del: not_None_eq)

lemma map_returns:
  assumes "returns K" and "returns V"
  shows "returns (hash_map_decode R K V)"
proof -
  have "map_merge_field R K V s k \<noteq> None" for s k
    using tuple2_returns [OF assms]
    by (simp add: returns_def map_merge_field_def Let_def tbind_eq_None del: not_None_eq split_paired_All)
  then show ?thesis by (simp add: returns_def hash_map_decode_def number_1_returns del: not_None_eq)
qed

lemma test_types_return: "returns (test1_decode R)" "returns (test2_decode R)" "returns (test3_decode R)"
proof -
  show "returns (test3_decode R)"
    unfolding test3_decode_def
    by (rule enum_returns)
      (auto simp: dec_field_variant_def dec_unit_variant_def string_decode_def tbind_eq_None simp del: not_None_eq
        split: option.split)
  then show "returns (test2_decode R)"
    by (simp add: test2_decode_def struct_returns dec_field_returns vec_returns tuple2_returns map_returns del: not_None_eq)
  then show "returns (test1_decode R)"
    by (simp add: test1_decode_def struct_returns dec_field_returns del: not_None_eq)
qed

end

text \<open>
  C28. Decoding returns on every input, well-formed or not: the loops over fields and packed elements
  end, in structs, enums with fields, vectors, options and maps over parts whose \<open>merge\<close>
  returns, and so in the types of the tests.
\<close>

theorem decode_returns:
  assumes "bytes_reader R"
  shows "(\<exists>res. from_slice (test1_decode R) bs = Some res) \<and> (\<exists>res. from_slice (test2_decode R) bs = Some res)
    \<and> (\<exists>res. from_slice (test3_decode R) bs = Some res) \<and> (\<exists>res. from_slice test4_decode bs = Some res)
    \<and> (\<forall>fs dflt. (\<forall>f \<in> set fs. \<forall>s k is_field. df_merge f s k is_field \<noteq> None)
        \<longrightarrow> (\<exists>res. from_slice (struct_decode R fs dflt) bs = Some res))
    \<and> (\<forall>vs dflt. (\<forall>v \<in> set vs. \<forall>s k. dv_merge v s k \<noteq> None)
        \<longrightarrow> (\<exists>res. from_slice (enum_with_fields_decode R vs dflt) bs = Some res))
    \<and> (\<forall>V. returns V \<longrightarrow> (\<exists>res. from_slice (vec_decode R V) bs = Some res)
        \<and> (\<exists>res. from_slice (option_decode R V) bs = Some res))
    \<and> (\<forall>K V. returns K \<and> returns V \<longrightarrow> (\<exists>res. from_slice (hash_map_decode R K V) bs = Some res))"
proof (intro conjI allI impI returns_slice)
  note R = assms
  show "returns (test1_decode R)" "returns (test2_decode R)" "returns (test3_decode R)" "returns test4_decode"
    using bytes_reader.test_types_return [OF R] by simp_all
  show "returns (struct_decode R fs dflt)" if "\<forall>f \<in> set fs. \<forall>s k is_field. df_merge f s k is_field \<noteq> None" for fs dflt
    using bytes_reader.struct_returns [OF R that] .
  show "returns (enum_with_fields_decode R vs dflt)" if "\<forall>v \<in> set vs. \<forall>s k. dv_merge v s k \<noteq> None" for vs dflt
    using bytes_reader.enum_returns [OF R that] .
  show "returns (vec_decode R V)" "returns (option_decode R V)" if "returns V" for V
    using bytes_reader.vec_returns [OF R that] bytes_reader.option_returns [OF R that] by simp_all
  show "returns (hash_map_decode R K V)" if "returns K \<and> returns V" for K V
    using bytes_reader.map_returns [OF R] that by blast
qed

theorem decode_returns_witness:
  "\<exists>res. from_slice (test1_decode slice_reader) [10, 200, 1] = Some res"
  using decode_returns [OF slice.bytes_reader_axioms] by blast

text \<open>
  C29. A vector of numbers is read the same whether the elements come one by one or packed into
  one field, as protobuf requires of decoders.
\<close>

theorem packed_or_not:
  assumes "bytes_reader R" and "can_be_packed (dm_wire_type V)"
    and "list_all kind_ok ks" and "\<forall>k \<in> set ks. kind_wire_type k = dm_wire_type V"
    and "length (concat (map kind_bytes ks)) < 2 ^ 64"
  shows "dm_merge (vec_decode R V) s (KLen (concat (map (field_bytes 1) ks))) False
    = dm_merge (vec_decode R V) s (KLen (field_bytes 1 (KLen (concat (map kind_bytes ks))))) False"
proof -
  have one: "tfold (vec_merge_field R V) s ks = tfold (vec_push_merged V) s ks"
    using assms(4,2)
    by (induction ks arbitrary: s) (auto simp: vec_merge_field_def can_be_packed_iff intro!: tbind_cong)
  have many: "vec_merge_field R V s (KLen (concat (map kind_bytes ks))) = tfold (vec_push_merged V) s ks"
    using kinds_of_concat [OF assms(3,4)] assms(2)
    by (simp add: vec_merge_field_def bytes_reader.decode_packed_fold [OF assms(1)])
  have split: "fields_of (concat (map (field_bytes 1) ks)) = (map (with_number 1) ks, None)"
    using fields_of_concat [OF _ assms(3), of 1 "[]"] by (simp add: fields_of_bytes [of "[]", simplified])
  have whole: "fields_of (field_bytes 1 (KLen (concat (map kind_bytes ks))))
      = ([with_number 1 (KLen (concat (map kind_bytes ks)))], None)"
    using fields_of_bytes [of "[with_number 1 (KLen (concat (map kind_bytes ks)))]"] assms(5)
    by (simp add: field_ok_def)
  show ?thesis
    using one many
    by (simp add: vec_decode_def bytes_reader.decode_fields_fold [OF assms(1)] split whole
        bytes_reader.merge_number_1_fold [OF assms(1)])
      (simp add: merge_number_1_def then_stop_None [unfolded then_stop_def, simplified])
qed

theorem packed_or_not_witness:
  "dm_merge (vec_decode slice_reader (int32_decode :: u32 decode_message)) [] (KLen (concat (map (field_bytes 1) [KVarint 3, KVarint 270]))) False
    = dm_merge (vec_decode slice_reader int32_decode) [] (KLen (field_bytes 1 (KLen (concat (map kind_bytes [KVarint 3, KVarint 270]))))) False"
  by (rule packed_or_not [OF slice.bytes_reader_axioms])
    (simp_all add: int32_decode_def impl_varint_decode_def length_varint_bytes digits128.simps)

section \<open>Varints\<close>

text \<open>
  C27. \<open>Varint::write\<close> appends bytes that \<open>Varint::read\<close> takes off again, leaving what follows
  them, for every \<open>u64\<close>; there are \<open>Varint::size\<close> of them, between 1 and 10.
\<close>

theorem varint_roundtrip:
  assumes "bytes_owned W room" and "bytes_reader R"
  shows "\<exists>bs w'. varint_write W v w = Some w' \<and> bw_as_bytes W w' = bw_as_bytes W w @ bs
    \<and> varint_size v = of_nat (length bs) \<and> 1 \<le> length bs \<and> length bs \<le> 10
    \<and> (\<exists>r. varint_read R (br_from R (bs @ rest)) = Some (v, r) \<and> br_remaining R r = rest)"
proof -
  obtain w' where "varint_write W v w = Some w'" "bw_as_bytes W w' = bw_as_bytes W w @ varint_bytes v"
    using bytes_owned.appends_owned [OF assms(1) bytes_writer.varint_write_appends [OF owned_writer [OF assms(1)]]]
    by blast
  moreover have "\<exists>r. varint_read R (br_from R (varint_bytes v @ rest)) = Some (v, r) \<and> br_remaining R r = rest"
    by (rule bytes_reader.varint_read_bytes [OF assms(2)]) (simp add: bytes_reader.remaining_from [OF assms(2)])
  ultimately show ?thesis
    using varint_size_bytes [of v] length_varint_bytes_bounds [of v] by blast
qed

theorem varint_roundtrip_witness:
  "\<exists>bs w'. varint_write vec_writer 300 [7] = Some w' \<and> bw_as_bytes vec_writer w' = bw_as_bytes vec_writer [7] @ bs
    \<and> varint_size 300 = of_nat (length bs) \<and> 1 \<le> length bs \<and> length bs \<le> 10
    \<and> (\<exists>r. varint_read slice_reader (br_from slice_reader (bs @ [5])) = Some (300, r) \<and> br_remaining slice_reader r = [5])"
  by (rule varint_roundtrip [OF vec.bytes_owned_axioms slice.bytes_reader_axioms])

section \<open>Departures from protobuf\<close>

text \<open>
  C39. \<open>ZigZag<i32>\<close> does not decode \<open>sint32\<close>: the shift is arithmetic, so exactly the numbers
  whose two highest bits are equal (half of them) are read back.
\<close>

theorem zigzag32_decodes_half:
  "dm_merge zigzag32_decode s (KVarint (ucast (zigzag v))) b = Some (Inr v) \<longleftrightarrow> bit v 31 = bit v 30"
proof -
  have "zigzag_of (zigzag v) = v \<longleftrightarrow> bit v 31 = bit v 30"
  proof
    assume "zigzag_of (zigzag v) = v"
    with bit_zigzag_of_zigzag [of 31 v] show "bit v 31 = bit v 30"
      by (simp add: min_def)
  next
    assume eq: "bit v 31 = bit v 30"
    show "zigzag_of (zigzag v) = v"
    proof (rule bit_word_eqI)
      fix n
      assume "n < LENGTH(32)"
      then show "bit (zigzag_of (zigzag v)) n = bit v n"
        using bit_zigzag_of_zigzag [of n v] eq by (cases "n = 31") (simp_all add: min_def)
    qed
  qed
  then show ?thesis by (simp add: zigzag32_decode_def)
qed

text \<open>
  C40. A variant of an enum with fields whose value writes no field (an empty \<open>Vec\<close>, \<open>None\<close>, an
  empty map) is encoded as the empty message, and that is read back as the default variant.
\<close>

theorem empty_variant_lost:
  assumes "bytes_owned W room" and "bytes_reader R" and "enum_law W room dflt vs"
    and "List.find (\<lambda>v. ev_is (vt_enc v) s) vs = Some v" and "vt_kinds v s = []"
  shows "to_vec W (enum_with_fields_encode W (map vt_enc vs)) s = Inr []
    \<and> from_slice (enum_with_fields_decode R (map vt_dec vs) dflt) [] = Some (Inr dflt)"
  using enum_empty_payload [OF assms(3,1,2,4,5), of "map vt_dec vs"] by (simp add: to_vec_def from_slice_def)

text \<open>\<open>enum { #[field(1)] A(Option<u32>), #[field(2, default)] B }\<close>, \<open>B\<close> being \<open>None\<close>.\<close>

definition lost_variants where
  "lost_variants = [type_variant 1 (\<lambda>x. x) (\<lambda>x. x) Some (option_type vec_writer slice_reader (u32_type vec_writer)),
     unit_variant vec_writer 2 None None]"

theorem empty_variant_lost_witness:
  "to_vec vec_writer (enum_with_fields_encode vec_writer (map vt_enc lost_variants)) (Some None) = Inr []
    \<and> from_slice (enum_with_fields_decode slice_reader (map vt_dec lost_variants) None) [] = Some (Inr None)"
proof (rule empty_variant_lost [OF vec.bytes_owned_axioms slice.bytes_reader_axioms])
  show "enum_law vec_writer unbounded None lost_variants"
    using option_lawful [OF vec.bytes_writer_axioms slice.bytes_reader_axioms scalar_lawful(2) [OF vec.bytes_writer_axioms]]
    by (auto simp: enum_law_def lost_variants_def intro!: type_variant_law unit_variant_law vec.bytes_writer_axioms)
  show "List.find (\<lambda>v. ev_is (vt_enc v) (Some None)) lost_variants = Some (hd lost_variants)"
    by (simp add: lost_variants_def type_variant_def enc_field_variant_def)
  show "vt_kinds (hd lost_variants) (Some None) = []"
    by (simp add: lost_variants_def type_variant_def option_type_def option_flds_def)
qed

end
