(* ===== verification/Api_Props.thy ===== *)
theory Api_Props
  imports Requests Protopuffer_Props Packet_Props Handler_Props
begin

text \<open>
  Properties of \<open>lafere-api\<close>: a request gives what the function that handles it returns, over a
  connection or without one, and which parameter lists of handlers work.
\<close>

section \<open>Conversions\<close>

text \<open>
  A type whose values become messages from whose bodies they are read back; \<open>wfb\<close> are the buffers
  made for messages.
\<close>

locale message_conversion =
  fixes B :: "'b packet_bytes" and wfb :: "'b \<Rightarrow> bool" and c :: "('t, 'a, 'b) as_message" and ok :: "'t \<Rightarrow> bool"
  assumes converts: "ok x \<Longrightarrow> \<exists>m. into_message c x = Inr m \<and> message_is_success m \<and> wfb (ms_bytes m)
    \<and> (\<forall>m'. pb_body B (ms_bytes m') = pb_body B (ms_bytes m) \<longrightarrow> from_message c m' = Some (Inr x))"

lemma new_message_success: "message_is_success (message_empty B)"
  by (simp add: message_is_success_def message_empty_def header_empty_def message_flags_new_def
      set_success_def is_success_def SUCCESS_BIT_def)

text \<open>Every protobuf type with a lawful codec, for the values that are read back as they are.\<close>

lemma protobuf_conversion:
  assumes T: "lawful W room T" and W: "bytes_owned W room" and len: "dm_wire_type (mt_dec T) = WLen"
    and own: "\<And>x. ok x \<Longrightarrow> mt_ok T x \<and> mt_val T x = x" and B: "packet_buffer B wfb mac"
  shows "message_conversion B (wfb HEADER_LEN) (protobuf_message W B (mt_enc T) (mt_dec T)) ok"
proof
  fix x assume "ok x"
  with own have "mt_ok T x" "mt_val T x = x" by simp_all
  with lawful_roundtrip [OF T W _ len, of x] obtain bs
    where bs: "to_vec W (mt_enc T) x = Inr bs" "parse_from_bytes (mt_dec T) bs = Some (Inr x)"
    by (auto simp: from_slice_def)
  then obtain w where w: "em_encode (mt_enc T) x None (bw_new W) = Inr w" "bw_as_bytes W w = bs"
    by (auto simp: to_vec_def write_to_bytes_def rbind_eq_Inr)
  let ?m = "(message_empty B)\<lparr>ms_bytes := pb_set_body B bs (pb_new B HEADER_LEN)\<rparr>"
  have "pb_body B (ms_bytes ?m) = bs" "wfb HEADER_LEN (ms_bytes ?m)"
    using packet_buffer.set_body [OF B packet_buffer.new_wf [OF B, of HEADER_LEN], of bs] by simp_all
  moreover have "message_is_success ?m"
    using new_message_success [of B] by (simp add: message_is_success_def)
  ultimately show "\<exists>m. into_message (protobuf_message W B (mt_enc T) (mt_dec T)) x = Inr m \<and> message_is_success m
    \<and> wfb HEADER_LEN (ms_bytes m) \<and> (\<forall>m'. pb_body B (ms_bytes m') = pb_body B (ms_bytes m)
        \<longrightarrow> from_message (protobuf_message W B (mt_enc T) (mt_dec T)) m' = Some (Inr x))"
    using w bs(2)
    by (intro exI [of _ ?m])
      (simp add: protobuf_message_def protobuf_encode_def protobuf_decode_def message_empty_def)
qed

interpretation bytes_conversion: message_conversion plain_packet_bytes "plain_wf HEADER_LEN"
    "protobuf_message vec_writer plain_packet_bytes (mt_enc (bytes_type vec_writer)) (mt_dec (bytes_type vec_writer))"
    "mt_ok (bytes_type vec_writer)"
proof (rule protobuf_conversion [OF _ vec.bytes_owned_axioms _ _ plain.packet_buffer_axioms])
  show "lawful vec_writer unbounded (bytes_type vec_writer)"
    by (rule scalar_lawful) (rule vec.bytes_writer_axioms)
qed (simp_all add: bytes_type_def vec_u8_decode_def)

interpretation string_conversion: message_conversion plain_packet_bytes "plain_wf HEADER_LEN"
    "protobuf_message vec_writer plain_packet_bytes (mt_enc (string_type vec_writer)) (mt_dec (string_type vec_writer))"
    "mt_ok (string_type vec_writer)"
proof (rule protobuf_conversion [OF _ vec.bytes_owned_axioms _ _ plain.packet_buffer_axioms])
  show "lawful vec_writer unbounded (string_type vec_writer)"
    by (rule scalar_lawful) (rule vec.bytes_writer_axioms)
qed (simp_all add: string_type_def string_decode_def)

section \<open>What a connection does to a message\<close>

text \<open>The id, the kind and the length in the header change; the rest arrives as it was.\<close>

definition carried :: "'b packet_bytes \<Rightarrow> ('a, 'b) message \<Rightarrow> ('a, 'b) message \<Rightarrow> bool" where
  "carried B m m' \<longleftrightarrow> pb_body B (ms_bytes m') = pb_body B (ms_bytes m)
     \<and> hd_action (ms_header m') = hd_action (ms_header m)
     \<and> hd_msg_flags (ms_header m') = hd_msg_flags (ms_header m)"

lemma carried_facts:
  assumes "carried B m m'"
  shows "message_action m' = message_action m" and "message_is_success m' = message_is_success m"
    and "pb_body B (ms_bytes m') = pb_body B (ms_bytes m)"
  using assms by (simp_all add: carried_def message_action_def message_is_success_def)

text \<open>
  \<open>send\<close> is a connection to the given handlers: it carries the request to them and their answer
  back, or reports that there was none.
\<close>

definition connects ::
    "'b packet_bytes \<Rightarrow> ('b \<Rightarrow> bool) \<Rightarrow> ('a, 'b, 'q, 'v, 'w) handlers \<Rightarrow> 'v session
      \<Rightarrow> (('a, 'b) message \<Rightarrow> (request_error + ('a, 'b) message, 'w) task) \<Rightarrow> bool" where
  "connects B wfb self session send \<longleftrightarrow> (\<forall>msg w. wfb (ms_bytes msg) \<longrightarrow> (\<exists>msg'. carried B msg msg' \<and>
     (case respond self session msg' w of
        None \<Rightarrow> send msg w = None
      | Some (None, w') \<Rightarrow> send msg w = Some (Returned (Inl NoResponse), w')
      | Some (Some res, w') \<Rightarrow> wfb (ms_bytes res) \<longrightarrow>
          (\<exists>res'. carried B res res' \<and> send msg w = Some (Returned (Inr res'), w')))))"

text \<open>
  Connections for the examples below, whose two ways do to the messages what is given, as the
  handler and the stream do: \<open>wire_way\<close>.
\<close>

definition over ::
    "(('a, 'b) message \<Rightarrow> ('a, 'b) message) \<Rightarrow> (('a, 'b) message \<Rightarrow> ('a, 'b) message)
      \<Rightarrow> ('a, 'b, 'q, 'v, 'w) handlers \<Rightarrow> 'v session \<Rightarrow> ('a, 'b) message \<Rightarrow> (request_error + ('a, 'b) message, 'w) task" where
  "over there back self session msg w =
     (case respond self session (there msg) w of
        None \<Rightarrow> None
      | Some (None, w) \<Rightarrow> Some (Returned (Inl NoResponse), w)
      | Some (Some res, w) \<Rightarrow> Some (Returned (Inr (back res)), w))"

definition wire_way ::
    "int_bytes \<Rightarrow> 'a action \<Rightarrow> 'b packet_bytes \<Rightarrow> packet_kind \<Rightarrow> u32 \<Rightarrow> ('a, 'b) message \<Rightarrow> ('a, 'b) message" where
  "wire_way N A B k i msg = arrived N A B (stamped (api_header N A) (api_packet N A B) k i msg)"

lemma over_connects:
  fixes self :: "('a, 'b, 'q, 'v, 'w) handlers"
  assumes "\<And>msg. wfb (ms_bytes msg) \<Longrightarrow> carried B msg (there msg)"
    and "\<And>msg. wfb (ms_bytes msg) \<Longrightarrow> carried B msg (back msg)"
  shows "connects B wfb self session (over there back self session)"
  unfolding connects_def
proof (intro allI impI exI conjI)
  fix msg :: "('a, 'b) message" and w :: 'w
  assume "wfb (ms_bytes msg)"
  then show "carried B msg (there msg)" by (rule assms(1))
  show "case respond self session (there msg) w of
      None \<Rightarrow> over there back self session msg w = None
    | Some (None, w') \<Rightarrow> over there back self session msg w = Some (Returned (Inl NoResponse), w')
    | Some (Some res, w') \<Rightarrow> wfb (ms_bytes res) \<longrightarrow>
        (\<exists>res'. carried B res res' \<and> over there back self session msg w = Some (Returned (Inr res'), w'))"
    using assms(2) by (auto simp: over_def split: option.split)
qed

lemma wire_carries:
  assumes "int_codec N" and "packet_buffer B wfb mac" and "wfb HEADER_LEN (ms_bytes msg)"
  shows "carried B msg (wire_way N A B k i msg)"
proof -
  have "length (header_to_bytes N A h) = HEADER_LEN" for h
    by (rule int_codec.header_to_bytes_len [OF assms(1)])
  from packet_buffer.set_header [OF assms(2,3) this]
  have *: "pb_full_body B (pb_set_header B (header_to_bytes N A h) (ms_bytes msg)) = pb_full_body B (ms_bytes msg)"
    "wfb HEADER_LEN (pb_set_header B (header_to_bytes N A h) (ms_bytes msg))" for h
    by simp_all
  then have "pb_body B (pb_set_header B (header_to_bytes N A h) (ms_bytes msg)) = pb_body B (ms_bytes msg)" for h
    using packet_buffer.body_view [OF assms(2)] assms(3) by metis
  then show ?thesis
    by (simp add: carried_def wire_way_def arrived_def sent_header_def stamped_def with_id_def with_flags_def
        message_into_bytes_def api_packet_def api_header_def Let_def)
qed

lemma set_action_simps [simp]:
  "message_action (message_set_action a m) = Some a"
  "message_is_success (message_set_action a m) = message_is_success m"
  "ms_bytes (message_set_action a m) = ms_bytes m"
  by (simp_all add: message_set_action_def message_action_def message_is_success_def set_action_def)

lemma set_success_simps [simp]:
  "message_is_success (message_set_success False m) = False"
  "ms_bytes (message_set_success False m) = ms_bytes m"
  by (simp_all add: message_set_success_def message_is_success_def set_success_def is_success_def SUCCESS_BIT_def
      and.assoc)

section \<open>Conversions that look only at what is carried\<close>

text \<open>Reading depends only on what a connection carries, and the buffers that are made can be sent.\<close>

definition content_conversion :: "'b packet_bytes \<Rightarrow> ('b \<Rightarrow> bool) \<Rightarrow> ('t, 'a, 'b) as_message \<Rightarrow> bool" where
  "content_conversion B wfb c \<longleftrightarrow>
     (\<forall>m m'. carried B m m' \<longrightarrow> from_message c m' = from_message c m)
     \<and> (\<forall>x m. into_message c x = Inr m \<longrightarrow> wfb (ms_bytes m))"

lemma protobuf_content:
  assumes "packet_buffer B wfb mac"
  shows "content_conversion B (wfb HEADER_LEN) (protobuf_message W B E D)"
  using packet_buffer.set_body [OF assms packet_buffer.new_wf [OF assms, of HEADER_LEN]]
  by (auto simp: content_conversion_def protobuf_message_def protobuf_encode_def protobuf_decode_def carried_def
      message_empty_def rbind_eq_Inr map_err_def split: sum.splits)

lemma json_content:
  assumes "packet_buffer B wfb mac"
  shows "content_conversion B (wfb HEADER_LEN)
    \<lparr>into_message = json_encode to_writer B, from_message = (\<lambda>msg. Some (json_decode read_slice B msg))\<rparr>"
  using packet_buffer.set_body [OF assms packet_buffer.new_wf [OF assms, of HEADER_LEN]]
  by (auto simp: content_conversion_def json_encode_def json_decode_def carried_def
      message_empty_def rbind_eq_Inr map_err_def split: sum.splits)

lemma read_response_carried:
  assumes "content_conversion B wfb (rq_response R)" and "content_conversion B wfb (rq_error R)" and "carried B m m'"
  shows "read_response R m' = read_response R m"
  using assms carried_facts(2) [OF assms(3)] by (auto simp: read_response_def content_conversion_def)

lemma api_handle_carried:
  assumes "content_conversion B wfb (rq_request R)" and "carried B m m'"
  shows "api_handle T R params f m' = api_handle T R params f m"
proof -
  have "from_message (rq_request R) m' = from_message (rq_request R) m"
    using assms by (auto simp: content_conversion_def)
  then show ?thesis by (simp add: fun_eq_iff api_handle_def handle_with_api_err_def)
qed

lemma api_handle_makes:
  assumes "content_conversion B wfb (rq_response R)" and "content_conversion B wfb (rq_error R)"
    and "api_handle T R params f msg data session w = Some (Returned (Inr ans), w')"
  shows "wfb (ms_bytes ans)"
proof -
  from assms(3) obtain res where res: "handle_with_api_err T R params f msg data session w = Some (Returned res, w')"
    and ans: "(case res of Inr m \<Rightarrow> Inr m
      | Inl e \<Rightarrow> map_err MessageError (rbind (into_message (rq_error R) e) (\<lambda>msg. Inr (message_set_success False msg)))) = Inr ans"
    by (auto simp: api_handle_def task_then_def task_return_def split: option.splits prod.splits outcome.splits)
  show ?thesis
  proof (cases res)
    case (Inl e)
    with ans assms(2) show ?thesis
      by (auto simp: content_conversion_def map_err_def rbind_eq_Inr split: sum.splits)
  next
    case (Inr m)
    with res obtain resp where "into_message (rq_response R) resp = Inr m"
      by (auto simp: handle_with_api_err_def task_then_def task_try_def task_return_def task_of_def task_panic_def map_err_def
          split: option.splits prod.splits outcome.splits sum.splits)
    with Inr ans assms(1) show ?thesis by (auto simp: content_conversion_def)
  qed
qed

section \<open>Properties\<close>

text \<open>The answer of a generated handler, when all conversions succeed.\<close>

lemma api_handle_result:
  assumes conv: "message_conversion B wfb (rq_request R) okr" "message_conversion B wfb (rq_response R) okt"
      "message_conversion B wfb (rq_error R) oke"
    and msg: "from_message (rq_request R) msg = Some (Inr r)"
    and args: "handler_args T data session params (dm_new r) = Returned args"
    and run: "f args w = Some (Returned res, w')"
    and ok: "case res of Inl e \<Rightarrow> oke e | Inr t \<Rightarrow> okt t"
  shows "\<exists>m. api_handle T R params f msg data session w = Some (Returned (Inr m), w') \<and> wfb (ms_bytes m)
    \<and> (\<forall>m'. carried B m m' \<or> (\<exists>a. carried B (message_set_action a m) m') \<longrightarrow> read_response R m' = Some res)"
proof (cases res)
  case (Inr t)
  with ok message_conversion.converts [OF conv(2), of t] obtain m where
    m: "into_message (rq_response R) t = Inr m" "message_is_success m" "wfb (ms_bytes m)"
      "\<And>m'. pb_body B (ms_bytes m') = pb_body B (ms_bytes m) \<Longrightarrow> from_message (rq_response R) m' = Some (Inr t)"
    by auto
  have "api_handle T R params f msg data session w = Some (Returned (Inr m), w')"
    using run Inr
    by (simp add: api_handle_def handle_with_api_err_def msg args m(1) task_then_def task_try_def task_return_def task_of_def)
  moreover have "read_response R m' = Some res" if "carried B m m' \<or> (\<exists>a. carried B (message_set_action a m) m')" for m'
    using that m Inr by (auto simp: read_response_def carried_facts(2,3))
  ultimately show ?thesis using m(3) by blast
next
  case (Inl e)
  with ok message_conversion.converts [OF conv(3), of e] obtain m where
    m: "into_message (rq_error R) e = Inr m" "wfb (ms_bytes m)"
      "\<And>m'. pb_body B (ms_bytes m') = pb_body B (ms_bytes m) \<Longrightarrow> from_message (rq_error R) m' = Some (Inr e)"
    by auto
  have "api_handle T R params f msg data session w = Some (Returned (Inr (message_set_success False m)), w')"
    using run Inl
    by (simp add: api_handle_def handle_with_api_err_def msg args m(1) task_then_def task_try_def task_return_def task_of_def)
  moreover have "read_response R m' = Some res"
    if "carried B (message_set_success False m) m' \<or> (\<exists>a. carried B (message_set_action a (message_set_success False m)) m')" for m'
    using that m Inl by (auto simp: read_response_def carried_facts(2,3))
  ultimately show ?thesis using m(2) by (intro exI [of _ "message_set_success False m"]) simp
qed

text \<open>What such handlers answer to a request that a connection has carried to them.\<close>

lemma respond_result:
  assumes conv: "message_conversion B wfb (rq_request R) okr" "message_conversion B wfb (rq_response R) okt"
      "message_conversion B wfb (rq_error R) oke"
    and h: "get_handler (rq_action R) self = Some (api_handler T R params f)"
    and args: "handler_args T (hr_data self) session params (dm_new r) = Returned args"
    and run: "f args w = Some (Returned res, w')"
    and ok: "okr r" "case res of Inl e \<Rightarrow> oke e | Inr t \<Rightarrow> okt t"
    and m: "into_message (rq_request R) r = Inr m"
    and msg': "carried B (message_set_action (rq_action R) m) msg'"
  shows "wfb (ms_bytes m) \<and> (\<exists>ans. respond self session msg' w = Some (Some ans, w') \<and> wfb (ms_bytes ans)
    \<and> (\<forall>m'. carried B ans m' \<longrightarrow> read_response R m' = Some res))"
proof -
  from message_conversion.converts [OF conv(1) ok(1)] m have
    m': "wfb (ms_bytes m)" "\<And>m'. pb_body B (ms_bytes m') = pb_body B (ms_bytes m) \<Longrightarrow> from_message (rq_request R) m' = Some (Inr r)"
    by auto
  then have "from_message (rq_request R) msg' = Some (Inr r)"
    using carried_facts(3) [OF msg'] by simp
  from api_handle_result [where f = f and w = w and okr = okr and okt = okt and oke = oke, OF conv this args run ok(2)]
  obtain ans where
    ans: "api_handle T R params f msg' (hr_data self) session w = Some (Returned (Inr ans), w')" "wfb (ms_bytes ans)"
      "\<And>m'. carried B (message_set_action (rq_action R) ans) m' \<Longrightarrow> read_response R m' = Some res"
    by blast
  have "respond self session msg' w = Some (Some (message_set_action (rq_action R) ans), w')"
    using carried_facts(1) [OF msg'] h ans(1)
    by (simp add: respond_def dispatch_def run_request_def api_handler_def)
  with ans(2,3) m'(1) show ?thesis by simp
qed

text \<open>The same without a connection.\<close>

lemma built_calls_handler:
  assumes conv: "message_conversion B wfb (rq_request R) okr" "message_conversion B wfb (rq_response R) okt"
      "message_conversion B wfb (rq_error R) oke"
    and h: "get_handler (rq_action R) self = Some (api_handler T R params f)"
    and args: "handler_args T (hr_data self) session params (dm_new r) = Returned args"
    and run: "f args w = Some (Returned res, w')"
    and ok: "okr r" "case res of Inl e \<Rightarrow> oke e | Inr t \<Rightarrow> okt t"
  shows "built_request self R r session w = Some (Returned res, w')"
proof -
  from message_conversion.converts [OF conv(1) ok(1)] obtain m where
    m: "into_message (rq_request R) r = Inr m" "from_message (rq_request R) (message_set_action (rq_action R) m) = Some (Inr r)"
    by auto
  from api_handle_result [where f = f and w = w and okr = okr and okt = okt and oke = oke, OF conv m(2) args run ok(2)]
  obtain ans where
    "api_handle T R params f (message_set_action (rq_action R) m) (hr_data self) session w = Some (Returned (Inr ans), w')"
    "\<And>m'. carried B (message_set_action (rq_action R) ans) m' \<Longrightarrow> read_response R m' = Some res"
    by blast
  moreover from this(2) have "read_response R (message_set_action (rq_action R) ans) = Some res"
    by (simp add: carried_def)
  ultimately show ?thesis
    using m(1) h by (simp add: built_request_def api_handler_def task_run task_return_def)
qed

text \<open>
  A request gives what the function behind it returns: if the three types of a request convert to
  messages and back, and the handlers at the other end hold the generated handler of a
  function, then the result of the client's call is the function's result on the request, its
  error included, whatever the connection changes in the headers.
\<close>

theorem request_calls_handler:
  assumes "message_conversion B wfb (rq_request R) okr" and "message_conversion B wfb (rq_response R) okt"
    and "message_conversion B wfb (rq_error R) oke"
    and "connects B wfb self session send"
    and "get_handler (rq_action R) self = Some (api_handler T R params f)"
    and "handler_args T (hr_data self) session params (dm_new r) = Returned args"
    and "f args w = Some (Returned res, w')"
    and "okr r" and "case res of Inl e \<Rightarrow> oke e | Inr t \<Rightarrow> okt t"
  shows "client_request send R r w = Some (Returned res, w')"
proof -
  from message_conversion.converts [OF assms(1,8)] obtain m where
    m: "into_message (rq_request R) r = Inr m" "wfb (ms_bytes m)"
    by blast
  let ?msg = "message_set_action (rq_action R) m"
  have "wfb (ms_bytes ?msg)" using m(2) by simp
  with assms(4) obtain msg' where msg': "carried B ?msg msg'"
    and sent: "case respond self session msg' w of
        None \<Rightarrow> send ?msg w = None
      | Some (None, w') \<Rightarrow> send ?msg w = Some (Returned (Inl NoResponse), w')
      | Some (Some res, w') \<Rightarrow> wfb (ms_bytes res) \<longrightarrow>
          (\<exists>res'. carried B res res' \<and> send ?msg w = Some (Returned (Inr res'), w'))"
    unfolding connects_def by blast
  from respond_result [OF assms(1-3,5-9) m(1) msg'] sent
  obtain res' where "send ?msg w = Some (Returned (Inr res'), w')" "read_response R res' = Some res"
    by auto
  then show ?thesis
    by (simp add: client_request_def m(1) task_then_def task_try_def task_return_def task_of_def)
qed

text \<open>
  C14. \<open>BuiltServer::request\<close> behaves as a client's request over any connection to the same handlers,
  which changes headers on both ways: the same result, error and effect on the world, for all
  generated handlers and all conversions that look only at what a connection carries. Only a
  handler that panics ends the caller of \<open>BuiltServer::request\<close>, and is reported as \<open>NoResponse\<close>
  over the connection.
\<close>

theorem local_request_equals_remote:
  assumes "content_conversion B wfb (rq_request R)" and "content_conversion B wfb (rq_response R)"
    and "content_conversion B wfb (rq_error R)" and "connects B wfb self session send"
    and "\<And>h. get_handler (rq_action R) self = Some h \<Longrightarrow> \<exists>T params f. h = api_handler T R params f"
  shows "(case built_request self R r session w of
      Some (Panic msg, w') \<Rightarrow> client_request send R r w
        = Some (Returned (Inl (from_request_error (rq_api_error R) NoResponse)), w')
    | result \<Rightarrow> client_request send R r w = result)"
proof (cases "into_message (rq_request R) r")
  case (Inl e)
  then show ?thesis by (simp add: built_request_def client_request_def task_return_def)
next
  case (Inr m)
  let ?msg = "message_set_action (rq_action R) m"
  note defs = built_request_def client_request_def run_request_def
    task_then_def task_try_def task_return_def task_of_def
  have "wfb (ms_bytes ?msg)" using assms(1) Inr by (auto simp: content_conversion_def)
  with assms(4) obtain msg' where msg': "carried B ?msg msg'"
    and sent: "case respond self session msg' w of
        None \<Rightarrow> send ?msg w = None
      | Some (None, w') \<Rightarrow> send ?msg w = Some (Returned (Inl NoResponse), w')
      | Some (Some res, w') \<Rightarrow> wfb (ms_bytes res) \<longrightarrow>
          (\<exists>res'. carried B res res' \<and> send ?msg w = Some (Returned (Inr res'), w'))"
    unfolding connects_def by blast
  have respond: "respond self session msg' w = run_request self session (rq_action R) msg' w"
    using carried_facts(1) [OF msg'] by (simp add: respond_def dispatch_def)
  show ?thesis
  proof (cases "get_handler (rq_action R) self")
    case None
    with Inr sent show ?thesis by (simp add: defs respond [unfolded run_request_def])
  next
    case (Some h)
    then obtain T params f where h: "h = api_handler T R params f" using assms(5) by blast
    have same: "rh_handle h msg' = rh_handle h ?msg"
      using api_handle_carried [OF assms(1) msg'] by (simp add: h api_handler_def fun_eq_iff)
    show ?thesis
    proof (cases "rh_handle h ?msg (hr_data self) session w")
      case None
      with Inr sent Some show ?thesis by (simp add: defs respond [unfolded run_request_def] same)
    next
      case (Some out)
      then obtain o1 w1 where out: "rh_handle h ?msg (hr_data self) session w = Some (o1, w1)" by (cases out) simp
      note found = \<open>get_handler (rq_action R) self = Some h\<close>
      show ?thesis
      proof (cases "\<exists>ans. o1 = Returned (Inr ans)")
        case True
        then obtain ans where ans: "o1 = Returned (Inr ans)" by blast
        with out have "wfb (ms_bytes ans)"
          using api_handle_makes [OF assms(2,3)] by (simp add: h api_handler_def)
        with sent out ans found obtain res' where
          "carried B (message_set_action (rq_action R) ans) res'" "send ?msg w = Some (Returned (Inr res'), w1)"
          by (auto simp: respond run_request_def same)
        with Inr out ans found read_response_carried [OF assms(2,3)] show ?thesis
          by (auto simp: defs split: option.split)
      next
        case False
        with Inr out found sent show ?thesis
          by (cases o1) (auto simp: defs respond same split: sum.splits)
      qed
    qed
  qed
qed

text \<open>
  C15. When the arguments of a handler are there: a parameter list that was accepted when the handler
  was registered, with the data registered since, gives all arguments exactly if it takes the
  request at most once by value, and then not also by reference. The other lists are accepted
  as well, and panic with every request.
\<close>

theorem handler_args_exact:
  assumes "validate_data T params data"
  shows "returned (handler_args T (fold (\<lambda>(D, v). data_insert D v) later data) session params (dm_new r)) \<longleftrightarrow>
    owned_uses T params = 0 \<or> owned_uses T params = 1 \<and> ref_uses T params = 0"
proof -
  have "validate_data T params (fold (\<lambda>(D, v). data_insert D v) later data)"
    using assms by (induction later arbitrary: data) (auto simp: valid_insert)
  from handler_args_return [OF this, of session "dm_new r"] show ?thesis by (simp add: dm_new_def)
qed

section \<open>The properties on concrete values\<close>

text \<open>A request that has bytes appended to it, which come from the data of the server.\<close>

definition append_request :: "(byte list, byte list, byte list, some_action, plain_bytes) request" where
  "append_request = \<lparr>
     rq_action = Act1,
     rq_request = protobuf_message vec_writer plain_packet_bytes (mt_enc (bytes_type vec_writer)) (mt_dec (bytes_type vec_writer)),
     rq_response = protobuf_message vec_writer plain_packet_bytes (mt_enc (bytes_type vec_writer)) (mt_dec (bytes_type vec_writer)),
     rq_error = protobuf_message vec_writer plain_packet_bytes (mt_enc (string_type vec_writer)) (mt_dec (string_type vec_writer)),
     rq_api_error = \<lparr>from_request_error = (\<lambda>_. [114]), from_message_error = (\<lambda>_. [109])\<rparr>\<rparr>"

fun append_function :: "(byte list, byte list) argument list \<Rightarrow> (byte list + byte list, nat) task" where
  "append_function [ArgRequest r, ArgValue v] w = Some (Returned (if r = [] then Inl [101] else Inr (r @ v)), w + 1)"
| "append_function _ w = Some (Panic ''arguments'', w)"

definition append_server :: "(some_action, plain_bytes, unit, byte list, nat) handlers" where
  "append_server = \<lparr>
     hr_inner = [Act1 \<mapsto> api_handler (TypeOf 0) append_request [Owned (TypeOf 0), ByRef (TypeOf 1)] append_function],
     hr_enable = None, hr_data = data_insert (TypeOf 1) [9] data_new\<rparr>"

lemma append_server_registered:
  "register_request (api_handler (TypeOf 0) append_request [Owned (TypeOf 0), ByRef (TypeOf 1)] append_function)
     (register_data (TypeOf 1) [9] handlers_new) = Returned append_server"
  by (simp add: register_request_def register_data_def handlers_new_def append_server_def api_handler_def
      validate_data_def valid_data_as_owned_def valid_data_as_ref_def data_exists_def data_insert_def data_new_def
      is_req_def append_request_def)

lemma append_conversions:
  "message_conversion plain_packet_bytes (plain_wf HEADER_LEN) (rq_request append_request) (mt_ok (bytes_type vec_writer))"
  "message_conversion plain_packet_bytes (plain_wf HEADER_LEN) (rq_response append_request) (mt_ok (bytes_type vec_writer))"
  "message_conversion plain_packet_bytes (plain_wf HEADER_LEN) (rq_error append_request) (mt_ok (string_type vec_writer))"
  by (simp_all add: append_request_def bytes_conversion.message_conversion_axioms
      string_conversion.message_conversion_axioms)

lemma append_args:
  "handler_args (TypeOf 0) (hr_data append_server) session [Owned (TypeOf 0), ByRef (TypeOf 1)] (dm_new r)
     = Returned [ArgRequest r, ArgValue [9]]"
  by (simp add: append_server_def get_data_as_owned_def get_data_as_ref_def is_req_def is_session_def is_data_def
      dm_new_def dm_take_def data_get_def data_insert_def)

theorem request_calls_handler_witness:
  "client_request (over (wire_way be_ints some_action plain_packet_bytes KRequest 3)
      (wire_way be_ints some_action plain_packet_bytes KResponse 3) append_server (session_new ''127.0.0.1''))
     append_request [7, 8] 0 = Some (Returned (Inr [7, 8, 9]), 1)"
proof (rule request_calls_handler [OF append_conversions _ _ append_args])
  show "connects plain_packet_bytes (plain_wf HEADER_LEN) append_server (session_new ''127.0.0.1'')
    (over (wire_way be_ints some_action plain_packet_bytes KRequest 3)
      (wire_way be_ints some_action plain_packet_bytes KResponse 3) append_server (session_new ''127.0.0.1''))"
    by (intro over_connects wire_carries [OF be.int_codec_axioms plain.packet_buffer_axioms])
  show "get_handler (rq_action append_request) append_server
    = Some (api_handler (TypeOf 0) append_request [Owned (TypeOf 0), ByRef (TypeOf 1)] append_function)"
    by (simp add: get_handler_def append_server_def append_request_def)
qed (simp_all add: bytes_type_def)

theorem local_request_equals_remote_witness:
  "built_request append_server append_request [7, 8] (session_new ''127.0.0.1'') 0 = Some (Returned (Inr [7, 8, 9]), 1)
    \<and> client_request (over (wire_way be_ints some_action plain_packet_bytes KRequest 3)
      (wire_way be_ints some_action plain_packet_bytes KResponse 3) append_server (session_new ''127.0.0.1''))
     append_request [7, 8] 0 = Some (Returned (Inr [7, 8, 9]), 1)"
proof -
  let ?send = "over (wire_way be_ints some_action plain_packet_bytes KRequest 3)
      (wire_way be_ints some_action plain_packet_bytes KResponse 3) append_server (session_new ''127.0.0.1'')"
  have content: "content_conversion plain_packet_bytes (plain_wf HEADER_LEN) (rq_request append_request)"
    "content_conversion plain_packet_bytes (plain_wf HEADER_LEN) (rq_response append_request)"
    "content_conversion plain_packet_bytes (plain_wf HEADER_LEN) (rq_error append_request)"
    by (simp_all add: append_request_def protobuf_content [OF plain.packet_buffer_axioms])
  have con: "connects plain_packet_bytes (plain_wf HEADER_LEN) append_server (session_new ''127.0.0.1'') ?send"
    by (intro over_connects wire_carries [OF be.int_codec_axioms plain.packet_buffer_axioms])
  have h: "get_handler (rq_action append_request) append_server
      = Some (api_handler (TypeOf 0) append_request [Owned (TypeOf 0), ByRef (TypeOf 1)] append_function)"
    by (simp add: get_handler_def append_server_def append_request_def)
  have "built_request append_server append_request [7, 8] (session_new ''127.0.0.1'') 0 = Some (Returned (Inr [7, 8, 9]), 1)"
    by (rule built_calls_handler [OF append_conversions h append_args]) (simp_all add: bytes_type_def)
  moreover from this local_request_equals_remote [OF content con, of "[7, 8]" 0] h
  have "client_request ?send append_request [7, 8] 0 = Some (Returned (Inr [7, 8, 9]), 1)" by auto
  ultimately show ?thesis by blast
qed

theorem handler_args_exact_witness:
  "returned (handler_args (TypeOf 0) (fold (\<lambda>(D, v). data_insert D v) [(TypeOf 2, 5)] (data_insert (TypeOf 1) (9 :: nat) data_new))
      (session_new ''127.0.0.1'') [Owned (TypeOf 0), ByRef (TypeOf 0)] (dm_new True))
    = (owned_uses (TypeOf 0) [Owned (TypeOf 0), ByRef (TypeOf 0)] = 0
       \<or> owned_uses (TypeOf 0) [Owned (TypeOf 0), ByRef (TypeOf 0)] = 1 \<and> ref_uses (TypeOf 0) [Owned (TypeOf 0), ByRef (TypeOf 0)] = 0)"
  by (rule handler_args_exact)
    (simp add: validate_data_def valid_data_as_owned_def valid_data_as_ref_def is_req_def)

end
