(* ===== verification/Derive_Message.thy ===== *)
theory Derive_Message
  imports Messages
begin

text \<open>
  The derive macros of \<open>protopuffer-codegen\<close>: how \<open>derive(EncodeMessage)\<close> and
  \<open>derive(DecodeMessage)\<close> read the attributes of a type (\<open>attr.rs\<close>, \<open>util.rs\<close>), what they refuse, and
  which of the implementations of \<open>Structs\<close> and \<open>Enums\<close> they generate (\<open>encode.rs\<close>, \<open>decode.rs\<close>). A
  macro is a function from the syntax tree to the implementation; an error is its text. The
  implementation is what the generated code means if the compiler accepts it, which is not
  modelled: it refuses literals of other types, such as \<open>A = 1i32\<close> in \<open>derive(DecodeMessage)\<close>, and the
  \<open>match\<close> that \<open>derive(DecodeMessage)\<close> generates for an enum with \<open>#[repr(i32)]\<close> that has the default
  variant only, which begins with a comma.
\<close>

section \<open>The crate syn\<close>

text \<open>
  Parsing the arguments of an attribute, and finding the name of the crate, are the business of
  the crates \<open>syn\<close> and \<open>proc_macro_crate\<close>, parameters of the model. A literal is its value.
\<close>

record 'i syn =
  sy_lit_int :: "'i \<Rightarrow> string + nat \<times> 'i"
  sy_peek_comma :: "'i \<Rightarrow> bool"
  sy_comma :: "'i \<Rightarrow> string + 'i"
  sy_path :: "'i \<Rightarrow> string + string \<times> 'i"
  sy_type_path :: "'i \<Rightarrow> string + string \<times> 'i"
  sy_end :: "'i \<Rightarrow> string + unit"
  sy_crate_name :: "string + unit"

text \<open>Of the syntax trees only what the macros read is kept.\<close>

record 'i syn_attribute =
  sa_path :: string
  sa_args :: 'i

record 'i syn_field =
  sf_attrs :: "'i syn_attribute list"
  sf_ident :: string

datatype 'i syn_fields =
  FieldsNamed "'i syn_field list" | FieldsUnnamed "'i syn_field list" | FieldsUnit

datatype syn_expr = ExprInt nat | ExprOther

record 'i syn_variant =
  sv_attrs :: "'i syn_attribute list"
  sv_ident :: string
  sv_fields :: "'i syn_fields"
  sv_discriminant :: "syn_expr option"

datatype 'i syn_data = DataStruct "'i syn_fields" | DataEnum "'i syn_variant list" | DataUnion

record 'i derive_input =
  di_attrs :: "'i syn_attribute list"
  di_generics :: bool
  di_data :: "'i syn_data"

text \<open>\<open>attr.parse_args()\<close>: the parser must take all of the arguments.\<close>

definition parse_args :: "'i syn \<Rightarrow> ('i \<Rightarrow> string + 'a \<times> 'i) \<Rightarrow> 'i syn_attribute \<Rightarrow> string + 'a" where
  "parse_args S parse attr =
     rbind (parse (sa_args attr)) (\<lambda>(x, input). rbind (sy_end S input) (\<lambda>_. Inr x))"

text \<open>\<open>collect\<close> of an iterator of results.\<close>

fun collect :: "('a \<Rightarrow> 'e + 'b) \<Rightarrow> 'a list \<Rightarrow> 'e + 'b list" where
  "collect f [] = Inr []"
| "collect f (x # xs) = rbind (f x) (\<lambda>y. rbind (collect f xs) (\<lambda>ys. Inr (y # ys)))"

section \<open>The attributes\<close>

record field_attr =
  fieldnum :: nat
  default_path :: "string option"

definition field_attr_parse :: "'i syn \<Rightarrow> 'i \<Rightarrow> string + field_attr \<times> 'i" where
  "field_attr_parse S input =
     rbind (sy_lit_int S input) (\<lambda>(n, input).
     rbind (if sy_peek_comma S input
            then rbind (sy_comma S input) (\<lambda>input.
              rbind (sy_path S input) (\<lambda>(p, input). Inr (Some p, input)))
            else Inr (None, input)) (\<lambda>(default, input).
     if n = 0 then Inl ''numbers need to be > 0''
     else Inr (\<lparr>fieldnum = n, default_path = default\<rparr>, input)))"

fun from_attrs :: "'i syn \<Rightarrow> 'i syn_attribute list \<Rightarrow> string + field_attr" where
  "from_attrs S [] = Inl ''expected #[field(..)]''"
| "from_attrs S (attr # attrs) =
     (if sa_path attr \<noteq> ''field'' then from_attrs S attrs else parse_args S (field_attr_parse S) attr)"

fun repr_loop :: "'i syn \<Rightarrow> 'i syn_attribute list \<Rightarrow> string option \<Rightarrow> string + string option" where
  "repr_loop S [] repr_as = Inr repr_as"
| "repr_loop S (attr # attrs) repr_as =
     (if sa_path attr \<noteq> ''repr'' then repr_loop S attrs repr_as
      else rbind (parse_args S (sy_type_path S) attr) (\<lambda>ty. repr_loop S attrs (Some ty)))"

definition repr_as_i32 :: "'i syn \<Rightarrow> 'i syn_attribute list \<Rightarrow> string + bool" where
  "repr_as_i32 S attrs =
     rbind (repr_loop S attrs None) (\<lambda>repr_as. case repr_as of
       Some path \<Rightarrow> if path \<noteq> ''i32'' then Inl ''expected i32'' else Inr True
     | None \<Rightarrow> Inr False)"

section \<open>Fields and variants\<close>

definition parse_fields :: "'i syn \<Rightarrow> 'i syn_fields \<Rightarrow> string + (field_attr \<times> 'i syn_field) list" where
  "parse_fields S d =
     collect (\<lambda>f. rbind (from_attrs S (sf_attrs f)) (\<lambda>attr. Inr (attr, f)))
       (case d of FieldsNamed fs \<Rightarrow> fs | _ \<Rightarrow> [])"

definition numbered_variant :: "'i syn_variant \<Rightarrow> string + nat \<times> string" where
  "numbered_variant v =
     (case sv_discriminant v of
        None \<Rightarrow> Inl ''needs to have a field number `Ident = x`''
      | Some ExprOther \<Rightarrow> Inl ''expected = int''
      | Some (ExprInt n) \<Rightarrow>
          if sv_fields v \<noteq> FieldsUnit then Inl ''no fields allowed'' else Inr (n, sv_ident v))"

text \<open>The numbered variants without the first one that is 0, and that one.\<close>

definition numbered_variants :: "'i syn_variant list \<Rightarrow> string + (nat \<times> string) list \<times> nat \<times> string" where
  "numbered_variants vs =
     rbind (collect numbered_variant vs) (\<lambda>variants.
       case List.find (\<lambda>v. fst v = 0) variants of
         None \<Rightarrow> Inl ''a fields needs to be the default''
       | Some default_variant \<Rightarrow>
           let variants = takeWhile (\<lambda>v. fst v \<noteq> 0) variants @ tl (dropWhile (\<lambda>v. fst v \<noteq> 0) variants)
           in if list_ex (\<lambda>v. fst v = 0) variants then Inl ''only one variant can be default = 0''
              else Inr (variants, default_variant))"

definition field_variant :: "'i syn \<Rightarrow> 'i syn_variant \<Rightarrow> string + field_attr \<times> string \<times> 'i syn_field option" where
  "field_variant S v =
     rbind (from_attrs S (sv_attrs v)) (\<lambda>attr.
       case sv_fields v of
         FieldsUnnamed unnamed \<Rightarrow>
           if length unnamed \<noteq> 1 then Inl ''only one unnamed field allowed''
           else Inr (attr, sv_ident v, Some (hd unnamed))
       | FieldsUnit \<Rightarrow> Inr (attr, sv_ident v, None)
       | FieldsNamed _ \<Rightarrow> Inl ''named fields not supported'')"

definition is_default_variant :: "field_attr \<times> string \<times> 'i syn_field option \<Rightarrow> bool" where
  "is_default_variant v \<longleftrightarrow> default_path (fst v) \<noteq> None"

definition field_variants ::
    "'i syn \<Rightarrow> 'i syn_variant list \<Rightarrow> string + (field_attr \<times> string \<times> 'i syn_field option) list" where
  "field_variants S vs =
     rbind (collect (field_variant S) vs) (\<lambda>v.
       let defaults = length (filter is_default_variant v)
       in if defaults = 0 then Inl ''one variant needs to the default have #[field(num, default)]''
          else if defaults > 1 then Inl ''only one variant can be the default''
          else Inr v)"

section \<open>derive(EncodeMessage)\<close>

text \<open>
  What the names in the generated code stand for: \<open>self.#id\<close> with the implementation of its type,
  \<open>Self::#ident\<close>, and \<open>Self::#ident(v)\<close> with that of \<open>v\<close>'s type.
\<close>

record ('s, 'w) enc_names =
  en_field :: "string \<Rightarrow> u64 \<Rightarrow> ('s, 'w) enc_field"
  en_value :: "string \<Rightarrow> 's"
  en_variant :: "string \<Rightarrow> u64 \<Rightarrow> ('s, 'w) enc_variant"

definition encode_expand_struct ::
    "'i syn \<Rightarrow> 'w bytes_write \<Rightarrow> ('s, 'w) enc_names \<Rightarrow> 'i syn_fields \<Rightarrow> string + ('s, 'w) encode_message" where
  "encode_expand_struct S W N d =
     (case d of
        FieldsNamed _ \<Rightarrow>
          rbind (parse_fields S d) (\<lambda>fields.
          rbind (sy_crate_name S) (\<lambda>_.
          Inr (struct_encode W (map (\<lambda>(attr, f). en_field N (sf_ident f) (of_nat (fieldnum attr))) fields))))
      | _ \<Rightarrow> Inl ''only named structs'')"

definition encode_expand_enum_no_fields ::
    "'i syn \<Rightarrow> 'w bytes_write \<Rightarrow> ('s, 'w) enc_names \<Rightarrow> 'i syn_variant list \<Rightarrow> string + ('s, 'w) encode_message" where
  "encode_expand_enum_no_fields S W N d =
     rbind (numbered_variants d) (\<lambda>(variants, default_variant).
     rbind (sy_crate_name S) (\<lambda>_.
     Inr (enum_no_fields_encode W (map (map_prod (\<lambda>n. n) (en_value N)) variants)
       (map_prod (\<lambda>n. n) (en_value N) default_variant))))"

definition encode_arm ::
    "'w bytes_write \<Rightarrow> ('s, 'w) enc_names \<Rightarrow> field_attr \<times> string \<times> 'i syn_field option \<Rightarrow> ('s, 'w) enc_variant" where
  "encode_arm W N v =
     (case v of (attr, ident, field) \<Rightarrow> case field of
        Some _ \<Rightarrow> en_variant N ident (of_nat (fieldnum attr))
      | None \<Rightarrow> enc_unit_variant W (of_nat (fieldnum attr)) (en_value N ident))"

definition encode_expand_enum_with_fields ::
    "'i syn \<Rightarrow> 'w bytes_write \<Rightarrow> ('s, 'w) enc_names \<Rightarrow> 'i syn_variant list \<Rightarrow> string + ('s, 'w) encode_message" where
  "encode_expand_enum_with_fields S W N d =
     rbind (field_variants S d) (\<lambda>variants.
     rbind (sy_crate_name S) (\<lambda>_.
     Inr (enum_with_fields_encode W (map (encode_arm W N) variants))))"

definition encode_expand ::
    "'i syn \<Rightarrow> 'w bytes_write \<Rightarrow> ('s, 'w) enc_names \<Rightarrow> 'i derive_input \<Rightarrow> string + ('s, 'w) encode_message" where
  "encode_expand S W N input =
     (case di_data input of
        DataStruct d \<Rightarrow> encode_expand_struct S W N d
      | DataEnum e \<Rightarrow> rbind (repr_as_i32 S (di_attrs input)) (\<lambda>repr.
          if repr then encode_expand_enum_no_fields S W N e else encode_expand_enum_with_fields S W N e)
      | DataUnion \<Rightarrow> Inl ''union not supported'')"

section \<open>derive(DecodeMessage)\<close>

text \<open>
  \<open>dn_struct\<close> is \<open>Self\<close> with every field \<open>decode_default()\<close>, and \<open>dn_holding\<close> is
  \<open>Self::#ident(decode_default())\<close>.
\<close>

record 's dec_names =
  dn_field :: "string \<Rightarrow> u64 \<Rightarrow> 's dec_field"
  dn_struct :: 's
  dn_value :: "string \<Rightarrow> 's"
  dn_variant :: "string \<Rightarrow> u64 \<Rightarrow> 's dec_variant"
  dn_holding :: "string \<Rightarrow> 's"

definition decode_expand_struct ::
    "'i syn \<Rightarrow> 'r bytes_read \<Rightarrow> 's dec_names \<Rightarrow> bool \<Rightarrow> 'i syn_fields \<Rightarrow> string + 's decode_message" where
  "decode_expand_struct S R N generics d =
     (case d of
        FieldsNamed _ \<Rightarrow>
          if generics then Inl ''generics not supported''
          else rbind (parse_fields S d) (\<lambda>fields.
            rbind (sy_crate_name S) (\<lambda>_.
            Inr (struct_decode R (map (\<lambda>(attr, f). dn_field N (sf_ident f) (of_nat (fieldnum attr))) fields)
              (dn_struct N))))
      | _ \<Rightarrow> Inl ''only named structs'')"

definition decode_expand_enum_no_fields ::
    "'i syn \<Rightarrow> 's dec_names \<Rightarrow> bool \<Rightarrow> 'i syn_variant list \<Rightarrow> string + 's decode_message" where
  "decode_expand_enum_no_fields S N generics d =
     (if generics then Inl ''generics not supported''
      else rbind (numbered_variants d) (\<lambda>(variants, default_variant).
        rbind (sy_crate_name S) (\<lambda>_.
        Inr (enum_no_fields_decode (map (map_prod (\<lambda>n. n) (dn_value N)) variants)
          (map_prod (\<lambda>n. n) (dn_value N) default_variant)))))"

definition decode_arm ::
    "'s dec_names \<Rightarrow> field_attr \<times> string \<times> 'i syn_field option \<Rightarrow> 's dec_variant" where
  "decode_arm N v =
     (case v of (attr, ident, field) \<Rightarrow> case field of
        Some _ \<Rightarrow> dn_variant N ident (of_nat (fieldnum attr))
      | None \<Rightarrow> dec_unit_variant (of_nat (fieldnum attr)) (dn_value N ident))"

definition default_value :: "'s dec_names \<Rightarrow> field_attr \<times> string \<times> 'i syn_field option \<Rightarrow> 's" where
  "default_value N v =
     (case v of (attr, ident, field) \<Rightarrow> case field of Some _ \<Rightarrow> dn_holding N ident | None \<Rightarrow> dn_value N ident)"

definition decode_expand_enum_with_fields ::
    "'i syn \<Rightarrow> 'r bytes_read \<Rightarrow> 's dec_names \<Rightarrow> bool \<Rightarrow> 'i syn_variant list \<Rightarrow> string + 's decode_message" where
  "decode_expand_enum_with_fields S R N generics d =
     (if generics then Inl ''generics not supported''
      else rbind (field_variants S d) (\<lambda>variants.
        case List.find is_default_variant variants of
          None \<Rightarrow> Inl ''called `Option::unwrap()` on a `None` value''
        | Some default_variant \<Rightarrow>
            rbind (sy_crate_name S) (\<lambda>_.
            Inr (enum_with_fields_decode R (map (decode_arm N) variants) (default_value N default_variant)))))"

definition decode_expand ::
    "'i syn \<Rightarrow> 'r bytes_read \<Rightarrow> 's dec_names \<Rightarrow> 'i derive_input \<Rightarrow> string + 's decode_message" where
  "decode_expand S R N input =
     (case di_data input of
        DataStruct d \<Rightarrow> decode_expand_struct S R N (di_generics input) d
      | DataEnum e \<Rightarrow> rbind (repr_as_i32 S (di_attrs input)) (\<lambda>repr.
          if repr then decode_expand_enum_no_fields S N (di_generics input) e
          else decode_expand_enum_with_fields S R N (di_generics input) e)
      | DataUnion \<Rightarrow> Inl ''union not supported'')"

end
