(* ===== verification/Derive_Message_Props.thy ===== *)
theory Derive_Message_Props
  imports Derive_Message Protopuffer_Props "HOL-Library.Multiset"
begin

text \<open>
  What types that the derive macros of \<open>protopuffer\<close> accept can rely on: round trips of structs and enums,
  which of them \<open>derive(DecodeMessage)\<close> refuses, and what happens to fields with equal numbers, which
  neither macro refuses.
\<close>

section \<open>What the macros have read\<close>

lemma collect_all: "collect f xs = Inr ys \<longleftrightarrow> list_all2 (\<lambda>x y. f x = Inr y) xs ys"
  by (induction xs arbitrary: ys) (auto simp: rbind_eq_Inr list_all2_Cons1)

lemma parse_args_Inr:
  "parse_args S parse attr = Inr x \<longleftrightarrow> (\<exists>input. parse (sa_args attr) = Inr (x, input) \<and> sy_end S input = Inr ())"
  by (auto simp: parse_args_def rbind_eq_Inr)

lemma parse_fields_read:
  assumes "parse_fields S (FieldsNamed fs) = Inr xs"
  shows "map snd xs = fs" and "\<forall>x \<in> set xs. from_attrs S (sf_attrs (snd x)) = Inr (fst x)"
proof -
  have "list_all2 (\<lambda>f x. from_attrs S (sf_attrs f) = Inr (fst x) \<and> snd x = f) fs xs"
    using assms by (simp add: parse_fields_def collect_all rbind_eq_Inr)
      (erule list_all2_mono, auto)
  then show "map snd xs = fs" "\<forall>x \<in> set xs. from_attrs S (sf_attrs (snd x)) = Inr (fst x)"
    by (induction rule: list_all2_induct) auto
qed

lemma field_variants_default:
  assumes "field_variants S vs = Inr v"
  shows "\<exists>d. List.find is_default_variant v = Some d"
proof -
  have "filter is_default_variant v \<noteq> []"
    using assms by (auto simp: field_variants_def rbind_eq_Inr Let_def split: if_splits)
  then have "List.find is_default_variant v \<noteq> None"
    by (induction v) auto
  then show ?thesis by blast
qed

lemma find_earlier:
  "distinct (before @ x # between @ y # after) \<Longrightarrow> key x = key y
    \<Longrightarrow> List.find (\<lambda>z. key z = n) (before @ x # between @ y # after) \<noteq> Some y"
proof (induction before)
  case Nil
  then show ?case using find_SomeD [of "\<lambda>z. key z = n" "between @ y # after" y] by auto
qed auto

section \<open>The fields of a struct\<close>

text \<open>
  What the names of a struct with the fields \<open>idents\<close> stand for: \<open>members i n\<close> is the field \<open>i\<close> with the
  number \<open>n\<close>. The implementation of its type keeps the contract, and it is a place of its own.
\<close>

locale struct_members =
  fixes W :: "'w bytes_write" and room and EN :: "('s, 'w) enc_names" and DN :: "'t dec_names"
    and members :: "string \<Rightarrow> u64 \<Rightarrow> ('s, 't, 'w) struct_field" and idents :: "string set"
  assumes enc_name: "i \<in> idents \<Longrightarrow> en_field EN i n = fl_enc (members i n)"
    and dec_name: "i \<in> idents \<Longrightarrow> dn_field DN i n = fl_dec (members i n)"
    and number: "i \<in> idents \<Longrightarrow> fl_num (members i n) = n \<and> df_num (fl_dec (members i n)) = n"
    and law: "i \<in> idents \<Longrightarrow> num_ok n \<Longrightarrow> field_law W room (members i n)"
    and fresh: "i \<in> idents \<Longrightarrow> fl_fresh (members i n) (dn_struct DN)"
    and put_apart: "i \<in> idents \<Longrightarrow> j \<in> idents \<Longrightarrow> i \<noteq> j \<Longrightarrow> fl_fresh (members j m) t
      \<Longrightarrow> fl_fresh (members j m) (fl_put (members i n) s t)"
    and merge_apart: "i \<in> idents \<Longrightarrow> j \<in> idents \<Longrightarrow> i \<noteq> j \<Longrightarrow> fl_fresh (members j m) t
      \<Longrightarrow> df_merge (fl_dec (members i n)) t k b = Some (Inr t') \<Longrightarrow> fl_fresh (members j m) t'"

definition derived_field ::
    "(string \<Rightarrow> u64 \<Rightarrow> ('s, 't, 'w) struct_field) \<Rightarrow> field_attr \<times> 'i syn_field \<Rightarrow> ('s, 't, 'w) struct_field" where
  "derived_field members x = members (sf_ident (snd x)) (of_nat (fieldnum (fst x)))"

text \<open>Numbers that the wire format has room for, all different.\<close>

definition numbers_ok :: "nat list \<Rightarrow> bool" where
  "numbers_ok ns \<longleftrightarrow> distinct ns \<and> list_all (\<lambda>n. n < 2 ^ 61) ns"

lemma numbers_ok_words:
  assumes "numbers_ok ns"
  shows "distinct (map (\<lambda>n. of_nat n :: u64) ns)" and "n \<in> set ns \<Longrightarrow> num_ok (of_nat n)"
proof -
  have "unat (of_nat n :: u64) = n" if "n \<in> set ns" for n
    using assms that by (force simp: numbers_ok_def list_all_iff unat_of_nat_u64)
  then show "distinct (map (\<lambda>n. of_nat n :: u64) ns)" "n \<in> set ns \<Longrightarrow> num_ok (of_nat n)"
    using assms by (auto simp: numbers_ok_def num_ok_def distinct_map list_all_iff intro!: inj_onI) metis
qed

context struct_members
begin

lemma derived_struct_law:
  assumes "sf_ident ` snd ` set xs \<subseteq> idents" and "distinct (map (sf_ident \<circ> snd) xs)"
    and "numbers_ok (map (fieldnum \<circ> fst) xs)"
  shows "struct_law W room (map (derived_field members) xs)"
proof -
  note ok = numbers_ok_words [OF assms(3)]
  have inside: "sf_ident (snd x) \<in> idents" if "x \<in> set xs" for x
    using assms(1) that by blast
  have num: "fl_num (derived_field members x) = of_nat (fieldnum (fst x))" if "x \<in> set xs" for x
    using number [OF inside [OF that]] by (simp add: derived_field_def)
  have "field_law W room (derived_field members x)" if "x \<in> set xs" for x
    unfolding derived_field_def using that by (intro law inside ok(2)) auto
  moreover have "map fl_num (map (derived_field members) xs) = map (\<lambda>n. of_nat n) (map (fieldnum \<circ> fst) xs)"
    using num by simp
  moreover have "fl_fresh (derived_field members y) (fl_put (derived_field members x) s t)"
    if "x \<in> set xs" "y \<in> set xs" "fl_num (derived_field members x) \<noteq> fl_num (derived_field members y)"
      "fl_fresh (derived_field members y) t" for x y s t
  proof -
    have "x \<noteq> y" using that(3) by blast
    then have "sf_ident (snd x) \<noteq> sf_ident (snd y)"
      using assms(2) that(1,2) by (auto simp: distinct_map inj_on_def)
    with that show ?thesis
      unfolding derived_field_def by (intro put_apart inside) simp_all
  qed
  ultimately show ?thesis
    using ok(1) by (simp only: struct_law_def) (auto simp: list_all_iff)
qed

lemma derived_fresh:
  "sf_ident ` snd ` set xs \<subseteq> idents \<Longrightarrow> list_all (\<lambda>f. fl_fresh f (dn_struct DN)) (map (derived_field members) xs)"
  by (auto simp: list_all_iff derived_field_def intro!: fresh)

text \<open>Only the first field with a number is ever written to when a message is read.\<close>

lemma later_field_untouched:
  assumes xs: "sf_ident ` snd ` set xs \<subseteq> idents" "distinct (map (sf_ident \<circ> snd) xs)"
    and split: "xs = before @ x # between @ y # after" and same: "fieldnum (fst x) = fieldnum (fst y)"
    and fresh: "fl_fresh (derived_field members y) t"
    and merge: "struct_merge_field (map (\<lambda>z. fl_dec (derived_field members z)) xs) t fld = Some (Inr t')"
  shows "fl_fresh (derived_field members y) t'"
proof -
  have inside: "sf_ident (snd z) \<in> idents" if "z \<in> set xs" for z
    using xs(1) that by blast
  define key where "key = (\<lambda>z :: field_attr \<times> 'a syn_field. of_nat (fieldnum (fst z)) :: u64)"
  have "df_num (fl_dec (derived_field members z)) = key z" if "z \<in> set xs" for z
    using number [OF inside [OF that]] by (simp add: derived_field_def key_def)
  then have "List.find (\<lambda>d. df_num d = number fld) (map (\<lambda>z. fl_dec (derived_field members z)) xs)
      = map_option (\<lambda>z. fl_dec (derived_field members z)) (List.find (\<lambda>z. key z = number fld) xs)"
    by (simp add: find_map cong: find_cong)
  with merge consider "t' = t"
    | z where "List.find (\<lambda>z. key z = number fld) xs = Some z"
        "df_merge (fl_dec (derived_field members z)) t (kind fld) True = Some (Inr t')"
    by (auto simp: struct_merge_field_def split: option.splits)
  then show ?thesis
  proof cases
    case 1
    with fresh show ?thesis by simp
  next
    case (2 z)
    have "distinct xs" "key x = key y"
      using xs(2) same by (simp_all add: distinct_map key_def)
    then have "z \<noteq> y"
      using find_earlier [of before x between y after key "number fld"] 2(1) unfolding split by blast
    moreover have "z \<in> set xs" "y \<in> set xs"
      using find_SomeD [OF 2(1)] split by simp_all
    ultimately have "sf_ident (snd z) \<noteq> sf_ident (snd y)"
      using xs(2) by (auto simp: distinct_map inj_on_def)
    with \<open>z \<in> set xs\<close> \<open>y \<in> set xs\<close> show ?thesis
      using merge_apart inside fresh 2(2) unfolding derived_field_def by blast
  qed
qed

end

section \<open>What is generated\<close>

lemma parse_fields_idents:
  assumes "parse_fields S (FieldsNamed fs) = Inr xs"
  shows "sf_ident ` snd ` set xs \<subseteq> sf_ident ` set fs" and "map (sf_ident \<circ> snd) xs = map sf_ident fs"
    and "(attr, f) \<in> set xs \<Longrightarrow> sf_ident f \<in> sf_ident ` set fs"
  unfolding parse_fields_read(1) [OF assms, symmetric] by (auto, force)

lemma encode_struct_is:
  assumes "encode_expand S W EN input = Inr E" and "di_data input = DataStruct (FieldsNamed fs)"
    and "struct_members W room EN DN members (sf_ident ` set fs)" and "parse_fields S (FieldsNamed fs) = Inr xs"
  shows "E = struct_encode W (map fl_enc (map (derived_field members) xs))"
proof -
  have "en_field EN (sf_ident f) (of_nat (fieldnum attr)) = fl_enc (derived_field members (attr, f))"
    if "(attr, f) \<in> set xs" for attr f
    using struct_members.enc_name [OF assms(3) parse_fields_idents(3) [OF assms(4) that]]
    by (simp add: derived_field_def)
  then have "map (\<lambda>(attr, f). en_field EN (sf_ident f) (of_nat (fieldnum attr))) xs
      = map fl_enc (map (derived_field members) xs)"
    by auto
  with assms show ?thesis
    by (auto simp: encode_expand_def encode_expand_struct_def rbind_eq_Inr simp del: map_map map_eq_conv)
qed

lemma decode_struct_is:
  assumes "decode_expand S R DN input = Inr D" and "di_data input = DataStruct (FieldsNamed fs)"
    and "struct_members W room EN DN members (sf_ident ` set fs)" and "parse_fields S (FieldsNamed fs) = Inr xs"
  shows "D = struct_decode R (map fl_dec (map (derived_field members) xs)) (dn_struct DN)"
proof -
  have "dn_field DN (sf_ident f) (of_nat (fieldnum attr)) = fl_dec (derived_field members (attr, f))"
    if "(attr, f) \<in> set xs" for attr f
    using struct_members.dec_name [OF assms(3) parse_fields_idents(3) [OF assms(4) that]]
    by (simp add: derived_field_def)
  then have "map (\<lambda>(attr, f). dn_field DN (sf_ident f) (of_nat (fieldnum attr))) xs
      = map fl_dec (map (derived_field members) xs)"
    by auto
  with assms show ?thesis
    by (auto simp: decode_expand_def decode_expand_struct_def rbind_eq_Inr
        simp del: map_map map_eq_conv split: if_splits)
qed

text \<open>Such a struct is one of the types with a contract.\<close>

lemma derived_struct_lawful:
  assumes "bytes_writer W room" and "bytes_reader R"
    and "di_data input = DataStruct (FieldsNamed fs)" and "distinct (map sf_ident fs)"
    and "encode_expand S W EN input = Inr E" and "decode_expand S R DN input = Inr D"
    and "struct_members W room EN DN members (sf_ident ` set fs)"
    and "parse_fields S (FieldsNamed fs) = Inr xs" and "numbers_ok (map (fieldnum \<circ> fst) xs)"
  shows "lawful W room (struct_type W R (map (derived_field members) xs) (dn_struct DN))"
    and "E = mt_enc (struct_type W R (map (derived_field members) xs) (dn_struct DN))"
    and "D = mt_dec (struct_type W R (map (derived_field members) xs) (dn_struct DN))"
proof -
  have idents: "sf_ident ` snd ` set xs \<subseteq> sf_ident ` set fs" "distinct (map (sf_ident \<circ> snd) xs)"
    using parse_fields_idents [OF assms(8)] assms(4) by simp_all
  show "lawful W room (struct_type W R (map (derived_field members) xs) (dn_struct DN))"
    by (rule struct_lawful [OF assms(1,2) struct_members.derived_struct_law [OF assms(7) idents assms(9)]
          struct_members.derived_fresh [OF assms(7) idents(1)]])
  show "E = mt_enc (struct_type W R (map (derived_field members) xs) (dn_struct DN))"
    "D = mt_dec (struct_type W R (map (derived_field members) xs) (dn_struct DN))"
    using encode_struct_is [OF assms(5,3,7,8)] decode_struct_is [OF assms(6,3,7,8)] by (simp_all add: struct_type_def)
qed

text \<open>Reading the attributes of all fields, whatever their numbers.\<close>

lemma parse_fields_all:
  "(\<And>f. f \<in> set fs \<Longrightarrow> from_attrs S (sf_attrs f) = Inr (attr f))
    \<Longrightarrow> parse_fields S (FieldsNamed fs) = Inr (map (\<lambda>f. (attr f, f)) fs)"
proof -
  have "(\<And>f. f \<in> set gs \<Longrightarrow> from_attrs S (sf_attrs f) = Inr (attr f))
      \<Longrightarrow> collect (\<lambda>f. rbind (from_attrs S (sf_attrs f)) (\<lambda>a. Inr (a, f))) gs = Inr (map (\<lambda>f. (attr f, f)) gs)" for gs
    by (induction gs) simp_all
  then show "(\<And>f. f \<in> set fs \<Longrightarrow> from_attrs S (sf_attrs f) = Inr (attr f))
      \<Longrightarrow> parse_fields S (FieldsNamed fs) = Inr (map (\<lambda>f. (attr f, f)) fs)"
    by (simp add: parse_fields_def)
qed

text \<open>The later of two fields with the same number.\<close>

lemma later_field_lost:
  assumes "bytes_reader R" and "di_data input = DataStruct (FieldsNamed fs)" and "distinct (map sf_ident fs)"
    and "decode_expand S R DN input = Inr D"
    and "struct_members W room EN DN members (sf_ident ` set fs)"
    and "parse_fields S (FieldsNamed fs) = Inr (before @ x # between @ y # after)"
    and "fieldnum (fst x) = fieldnum (fst y)"
    and "from_slice D bs = Some (Inr t)"
  shows "fl_fresh (derived_field members y) t"
proof -
  let ?xs = "before @ x # between @ y # after"
  let ?ds = "map (\<lambda>z. fl_dec (derived_field members z)) ?xs"
  have idents: "sf_ident ` snd ` set ?xs \<subseteq> sf_ident ` set fs" "distinct (map (sf_ident \<circ> snd) ?xs)"
    using parse_fields_idents [OF assms(6)] assms(3) by (blast, simp only:)
  have start: "fl_fresh (derived_field members y) (dn_struct DN)"
    using struct_members.derived_fresh [OF assms(5) idents(1)] by simp
  have loop: "tfold (struct_merge_field ?ds) u flds = Some (Inr u') \<Longrightarrow> fl_fresh (derived_field members y) u
      \<Longrightarrow> fl_fresh (derived_field members y) u'" for u u' flds
    using struct_members.later_field_untouched [OF assms(5) idents refl assms(7)]
    by (induction flds arbitrary: u) (auto simp: tbind_eq_Inr)
  have "then_stop (tfold (struct_merge_field ?ds) (dn_struct DN) (fst (fields_of bs))) (snd (fields_of bs)) = Some (Inr t)"
    using assms(8) decode_struct_is [OF assms(4,2,5,6)]
    by (simp add: from_slice_def parse_from_bytes_def struct_decode_def bytes_reader.decode_fields_fold [OF assms(1)]
        tbind_eq_Inr comp_def)
  then have "tfold (struct_merge_field ?ds) (dn_struct DN) (fst (fields_of bs)) = Some (Inr t)"
    by (auto simp: then_stop_def tbind_eq_Inr split: option.splits)
  from loop [OF this start] show ?thesis .
qed

text \<open>
  C19. A struct that both macros and the compiler accept, whose field numbers differ, is encoded and
  read back field by field, if the implementations of its fields' types keep the contract.
\<close>

theorem derived_struct_roundtrip:
  assumes "bytes_owned W room" and "bytes_reader R"
    and "di_data input = DataStruct (FieldsNamed fs)" and "distinct (map sf_ident fs)"
    and "encode_expand S W EN input = Inr E" and "decode_expand S R DN input = Inr D"
    and "struct_members W room EN DN members (sf_ident ` set fs)"
    and "parse_fields S (FieldsNamed fs) = Inr xs" and "numbers_ok (map (fieldnum \<circ> fst) xs)"
    and "struct_ok (map (derived_field members) xs) s"
  shows "\<exists>bs. to_vec W E s = Inr bs
    \<and> from_slice D bs = Some (Inr (struct_put (map (derived_field members) xs) s (dn_struct DN)))"
proof -
  note T = derived_struct_lawful [OF owned_writer [OF assms(1)] assms(2-9)]
  show ?thesis
    using lawful_roundtrip [OF T(1) assms(1), of s] assms(10) T(2,3) by (simp add: struct_type_def struct_decode_def)
qed

text \<open>
  C22. Neither macro refuses equal numbers: if the attributes of all fields of a struct can be read, both
  accept it, also if two of the fields have the same number. Of these the later one is never
  read: whatever the bytes, also those that \<open>to_vec\<close> wrote for it, it is \<open>decode_default()\<close>.
\<close>

theorem equal_numbers_lost:
  assumes "bytes_reader R" and "di_data input = DataStruct (FieldsNamed fs)" and "distinct (map sf_ident fs)"
    and "\<not> di_generics input" and "sy_crate_name S = Inr ()"
    and "struct_members W room EN DN members (sf_ident ` set fs)"
    and "\<And>f. f \<in> set fs \<Longrightarrow> from_attrs S (sf_attrs f) = Inr (attr f)"
    and "fs = before @ x # between @ y # after" and "fieldnum (attr x) = fieldnum (attr y)"
  shows "\<exists>E D. encode_expand S W EN input = Inr E \<and> decode_expand S R DN input = Inr D
    \<and> (\<forall>bs t. from_slice D bs = Some (Inr t) \<longrightarrow> fl_fresh (members (sf_ident y) (of_nat (fieldnum (attr y)))) t)"
proof -
  have xs: "parse_fields S (FieldsNamed fs) = Inr (map (\<lambda>f. (attr f, f)) fs)"
    using assms(7) by (rule parse_fields_all)
  then have "\<exists>E. encode_expand S W EN input = Inr E" and "\<exists>D. decode_expand S R DN input = Inr D"
    using assms(2,4,5) by (simp_all add: encode_expand_def encode_expand_struct_def decode_expand_def decode_expand_struct_def)
  moreover have "fl_fresh (members (sf_ident y) (of_nat (fieldnum (attr y)))) t"
    if "decode_expand S R DN input = Inr D" "from_slice D bs = Some (Inr t)" for D bs t
    using later_field_lost [OF assms(1-3) that(1) assms(6) _ _ that(2), of "map (\<lambda>f. (attr f, f)) before" "(attr x, x)"
        "map (\<lambda>f. (attr f, f)) between" "(attr y, y)"] xs assms(8,9)
    by (simp add: derived_field_def)
  ultimately show ?thesis by blast
qed

section \<open>Enums\<close>

text \<open>What \<open>Self::#ident(v)\<close> stands for in an enum with the default \<open>dflt\<close>.\<close>

locale enum_members =
  fixes W :: "'w bytes_write" and room and EN :: "('s, 'w) enc_names" and DN :: "'t dec_names"
    and members :: "string \<Rightarrow> u64 \<Rightarrow> ('s, 't, 'w) enum_variant" and idents :: "string set" and dflt :: 't
  assumes enc_name: "i \<in> idents \<Longrightarrow> en_variant EN i n = vt_enc (members i n)"
    and dec_name: "i \<in> idents \<Longrightarrow> dn_variant DN i n = vt_dec (members i n)"
    and number: "i \<in> idents \<Longrightarrow> vt_num (members i n) = n"
    and law: "i \<in> idents \<Longrightarrow> num_ok n \<Longrightarrow> variant_law W room dflt (members i n)"

definition derived_variant ::
    "'w bytes_write \<Rightarrow> ('s, 'w) enc_names \<Rightarrow> 't dec_names \<Rightarrow> (string \<Rightarrow> u64 \<Rightarrow> ('s, 't, 'w) enum_variant)
      \<Rightarrow> field_attr \<times> string \<times> 'i syn_field option \<Rightarrow> ('s, 't, 'w) enum_variant" where
  "derived_variant W EN DN members v =
     (case v of (attr, ident, field) \<Rightarrow> case field of
        Some _ \<Rightarrow> members ident (of_nat (fieldnum attr))
      | None \<Rightarrow> unit_variant W (of_nat (fieldnum attr)) (en_value EN ident) (dn_value DN ident))"

definition holding :: "(field_attr \<times> string \<times> 'i syn_field option) list \<Rightarrow> string set" where
  "holding xs = {ident. \<exists>attr f. (attr, ident, Some f) \<in> set xs}"

context enum_members
begin

lemma derived_variant_is:
  assumes "holding xs \<subseteq> idents" and "v \<in> set xs"
  shows "encode_arm W EN v = vt_enc (derived_variant W EN DN members v)"
    and "decode_arm DN v = vt_dec (derived_variant W EN DN members v)"
    and "vt_num (derived_variant W EN DN members v) = of_nat (fieldnum (fst v))"
proof -
  obtain attr ident field where v: "v = (attr, ident, field)" by (rule prod_cases3)
  have "ident \<in> idents" if "field = Some f" for f
    using assms that by (auto simp: v holding_def)
  then show "encode_arm W EN v = vt_enc (derived_variant W EN DN members v)"
    "decode_arm DN v = vt_dec (derived_variant W EN DN members v)"
    "vt_num (derived_variant W EN DN members v) = of_nat (fieldnum (fst v))"
    by (auto simp: v encode_arm_def decode_arm_def derived_variant_def unit_variant_def enc_name dec_name number
        vt_num_def enc_unit_variant_def split: option.split)
      (simp flip: vt_num_def add: number)
qed

lemma derived_enum_law:
  assumes "bytes_writer W room" and "holding xs \<subseteq> idents" and "numbers_ok (map (fieldnum \<circ> fst) xs)"
  shows "enum_law W room dflt (map (derived_variant W EN DN members) xs)"
proof -
  note ok = numbers_ok_words [OF assms(3)]
  have "variant_law W room dflt (derived_variant W EN DN members v)" if "v \<in> set xs" for v
  proof -
    obtain attr ident field where v: "v = (attr, ident, field)" by (rule prod_cases3)
    have "num_ok (of_nat (fieldnum attr))"
      using that by (intro ok(2)) (force simp: v)
    moreover have "ident \<in> idents" if "field = Some f" for f
      using assms(2) that \<open>v \<in> set xs\<close> by (auto simp: v holding_def)
    ultimately show ?thesis
      by (auto simp: v derived_variant_def intro: law unit_variant_law [OF assms(1)] split: option.split)
  qed
  moreover have "map vt_num (map (derived_variant W EN DN members) xs)
      = map (\<lambda>n. of_nat n) (map (fieldnum \<circ> fst) xs)"
    using derived_variant_is(3) [OF assms(2)] by simp
  ultimately show ?thesis
    using ok(1) by (simp only: enum_law_def) (auto simp: list_all_iff)
qed

end

text \<open>
  C20. An enum with fields that both macros and the compiler accept, whose numbers differ and whose field
  types keep the contract: a value whose variant writes a field, or which is the default, is
  encoded and read back.
\<close>

theorem derived_enum_roundtrip:
  assumes "bytes_owned W room" and "bytes_reader R"
    and "di_data input = DataEnum vs" and "repr_as_i32 S (di_attrs input) = Inr False"
    and "encode_expand S W EN input = Inr E" and "decode_expand S R DN input = Inr D"
    and "field_variants S vs = Inr xs" and "List.find is_default_variant xs = Some d"
    and "enum_members W room EN DN members (holding xs) (default_value DN d)"
    and "numbers_ok (map (fieldnum \<circ> fst) xs)"
    and "enum_ok (map (derived_variant W EN DN members) xs) (default_value DN d) s"
  shows "\<exists>bs. to_vec W E s = Inr bs
    \<and> from_slice D bs = Some (Inr (enum_val (map (derived_variant W EN DN members) xs) (default_value DN d) s))"
proof -
  note arms = enum_members.derived_variant_is [OF assms(9) subset_refl]
  have "map (encode_arm W EN) xs = map vt_enc (map (derived_variant W EN DN members) xs)"
    "map (decode_arm DN) xs = map vt_dec (map (derived_variant W EN DN members) xs)"
    using arms by simp_all
  then have code: "E = enum_with_fields_encode W (map vt_enc (map (derived_variant W EN DN members) xs))"
    "D = enum_with_fields_decode R (map vt_dec (map (derived_variant W EN DN members) xs)) (default_value DN d)"
    using assms(3-8) by (auto simp: encode_expand_def decode_expand_def encode_expand_enum_with_fields_def
        decode_expand_enum_with_fields_def rbind_eq_Inr simp del: map_map map_eq_conv split: if_splits)
  have "lawful W room (enum_type W R (map (derived_variant W EN DN members) xs) (default_value DN d))"
    by (rule enum_lawful [OF owned_writer [OF assms(1)] assms(2)
          enum_members.derived_enum_law [OF assms(9) owned_writer [OF assms(1)] subset_refl assms(10)]])
  then show ?thesis
    using lawful_roundtrip [OF _ assms(1), of _ s] assms(11)
    by (force simp: code enum_type_def enum_with_fields_decode_def)
qed

text \<open>The checks of \<open>variants_no_fields\<close> and of the compiler make an enum with \<open>#[repr(i32)]\<close> lawful.\<close>

lemma numbered_variants_ok:
  assumes "numbered_variants vs = Inr (variants, d)"
    and "distinct (map sv_discriminant vs)" and "distinct (map (value_of \<circ> sv_ident) vs)"
    and "\<And>n. Some (ExprInt n) \<in> set (map sv_discriminant vs) \<Longrightarrow> n < 2 ^ 31"
  shows "enum_numbers_ok (map (map_prod (\<lambda>n. n) value_of) variants) (map_prod (\<lambda>n. n) value_of d)"
proof -
  obtain all where all: "collect numbered_variant vs = Inr all" and d: "List.find (\<lambda>v. fst v = 0) all = Some d"
    and variants: "variants = takeWhile (\<lambda>v. fst v \<noteq> 0) all @ tl (dropWhile (\<lambda>v. fst v \<noteq> 0) all)"
    using assms(1) by (auto simp: numbered_variants_def rbind_eq_Inr Let_def split: option.splits if_splits)
  have "list_all2 (\<lambda>v x. sv_discriminant v = Some (ExprInt (fst x)) \<and> sv_ident v = snd x) vs all"
    using all unfolding collect_all
    by (rule list_all2_mono) (auto simp: numbered_variant_def split: option.splits syn_expr.splits if_splits)
  then have read: "map sv_discriminant vs = map (\<lambda>x. Some (ExprInt (fst x))) all" "map sv_ident vs = map snd all"
    by (induction rule: list_all2_induct) simp_all
  have perm: "mset (variants @ [d]) = mset all"
    using d unfolding variants by (induction all) (auto split: if_splits)
  have "distinct (map fst all)" "list_all (\<lambda>x. fst x < 2 ^ 31) all"
    using assms(2,4) by (auto simp: read distinct_map inj_on_def list_all_iff)
  moreover have "distinct (map (value_of \<circ> snd) all)"
    using assms(3) read(2) by (metis map_map)
  ultimately have "distinct (map fst (variants @ [d]))" "distinct (map (value_of \<circ> snd) (variants @ [d]))"
    "list_all (\<lambda>x. fst x < 2 ^ 31) variants"
    using perm by (metis mset_map mset_eq_imp_distinct_iff, metis mset_map mset_eq_imp_distinct_iff,
        metis list_all_append list.pred_set mset_eq_setD)
  moreover have "fst d = 0" using find_SomeD [OF d] by simp
  ultimately show ?thesis
    by (simp add: enum_numbers_ok_def comp_def list_all_iff split_def)
qed

lemma derived_numbers_lawful:
  assumes "bytes_writer W room" and "di_data input = DataEnum vs" and "repr_as_i32 S (di_attrs input) = Inr True"
    and "encode_expand S W EN input = Inr E" and "decode_expand S R DN input = Inr D"
    and "en_value EN = dn_value DN" and "distinct (map (en_value EN \<circ> sv_ident) vs)"
    and "distinct (map sv_discriminant vs)"
    and "\<And>n. Some (ExprInt n) \<in> set (map sv_discriminant vs) \<Longrightarrow> n < 2 ^ 31"
  shows "\<exists>T. lawful W room T \<and> mt_enc T = E \<and> mt_dec T = D \<and> mt_val T = (\<lambda>x. x)"
proof -
  obtain variants d where v: "numbered_variants vs = Inr (variants, d)"
    using assms(2-4) by (auto simp: encode_expand_def encode_expand_enum_no_fields_def rbind_eq_Inr)
  let ?vs = "map (map_prod (\<lambda>n. n) (dn_value DN)) variants" and ?d = "map_prod (\<lambda>n. n) (dn_value DN) d"
  have "E = enum_no_fields_encode W ?vs ?d" "D = enum_no_fields_decode ?vs ?d"
    using assms(2-6) v by (auto simp: encode_expand_def encode_expand_enum_no_fields_def decode_expand_def
        decode_expand_enum_no_fields_def rbind_eq_Inr split: if_splits)
  moreover have "lawful W room (enum_no_fields_type W ?vs ?d)"
    using enum_no_fields_lawful [OF assms(1) numbered_variants_ok [OF v assms(8) _ assms(9)]] assms(6,7) by simp
  ultimately show ?thesis
    by (intro exI [of _ "enum_no_fields_type W ?vs ?d"]) (simp add: enum_no_fields_type_def Let_def)
qed

section \<open>What is refused\<close>

text \<open>
  C30. \<open>derive(DecodeMessage)\<close> accepts exactly what \<open>derive(EncodeMessage)\<close> accepts, except types with
  generics, which it refuses.
\<close>

theorem decode_accepts:
  "(\<exists>D. decode_expand S R DN input = Inr D)
    \<longleftrightarrow> \<not> di_generics input \<and> (\<exists>E. encode_expand S W EN input = Inr E)"
proof (cases "di_data input")
  case (DataStruct d)
  then show ?thesis
    by (cases d) (auto simp: encode_expand_def decode_expand_def encode_expand_struct_def decode_expand_struct_def
        rbind_eq_Inr)
next
  case (DataEnum e)
  show ?thesis
  proof (cases "repr_as_i32 S (di_attrs input)")
    case (Inr repr)
    show ?thesis
    proof (cases repr)
      case True
      then show ?thesis
        using DataEnum Inr
        by (auto simp: encode_expand_def encode_expand_enum_no_fields_def decode_expand_def
            decode_expand_enum_no_fields_def rbind_eq_Inr)
    next
      case False
      show ?thesis
      proof (cases "field_variants S e")
        case (Inr variants)
        with False DataEnum \<open>repr_as_i32 S (di_attrs input) = Inr repr\<close> field_variants_default [OF Inr] show ?thesis
          by (auto simp: encode_expand_def encode_expand_enum_with_fields_def decode_expand_def
              decode_expand_enum_with_fields_def rbind_eq_Inr)
      qed (use False DataEnum Inr in \<open>simp add: encode_expand_def encode_expand_enum_with_fields_def decode_expand_def
          decode_expand_enum_with_fields_def\<close>)
    qed
  qed (use DataEnum in \<open>simp add: encode_expand_def decode_expand_def\<close>)
next
  case DataUnion
  then show ?thesis by (simp add: encode_expand_def decode_expand_def)
qed

section \<open>The macros on concrete types\<close>

text \<open>A parser of tokens.\<close>

datatype token = TInt nat | TComma | TPath string

fun path_token :: "token list \<Rightarrow> string + string \<times> token list" where
  "path_token (TPath p # ts) = Inr (p, ts)"
| "path_token _ = Inl ''expected identifier''"

definition token_syn :: "token list syn" where
  "token_syn = \<lparr>
     sy_lit_int = (\<lambda>ts. case ts of TInt n # ts \<Rightarrow> Inr (n, ts) | _ \<Rightarrow> Inl ''expected integer literal''),
     sy_peek_comma = (\<lambda>ts. case ts of TComma # _ \<Rightarrow> True | _ \<Rightarrow> False),
     sy_comma = (\<lambda>ts. case ts of TComma # ts \<Rightarrow> Inr ts | _ \<Rightarrow> Inl ''expected `,`''),
     sy_path = path_token, sy_type_path = path_token,
     sy_end = (\<lambda>ts. if ts = [] then Inr () else Inl ''unexpected token''),
     sy_crate_name = Inr ()\<rparr>"

definition field_at :: "token list \<Rightarrow> string \<Rightarrow> token list syn_field" where
  "field_at ts ident = \<lparr>sf_attrs = [\<lparr>sa_path = ''doc'', sa_args = []\<rparr>, \<lparr>sa_path = ''field'', sa_args = ts\<rparr>], sf_ident = ident\<rparr>"

lemma from_attrs_number [simp]:
  "from_attrs token_syn (sf_attrs (field_at [TInt n] ident))
     = (if n = 0 then Inl ''numbers need to be > 0'' else Inr \<lparr>fieldnum = n, default_path = None\<rparr>)"
  by (simp add: field_at_def parse_args_def field_attr_parse_def token_syn_def)

text \<open>\<open>Item\<close> of the README, with the number of its field \<open>value\<close>; the name is field 1.\<close>

record item =
  it_name :: "byte list"
  it_value :: u32

definition item_input :: "nat \<Rightarrow> token list derive_input" where
  "item_input n = \<lparr>di_attrs = [], di_generics = False,
     di_data = DataStruct (FieldsNamed [field_at [TInt 1] ''name'', field_at [TInt n] ''value''])\<rparr>"

definition item_members :: "string \<Rightarrow> u64 \<Rightarrow> (item, item, byte list) struct_field" where
  "item_members i n = (if i = ''name''
     then type_field n it_name it_name (\<lambda>v s. s\<lparr>it_name := v\<rparr>) (string_type vec_writer)
     else type_field n it_value it_value (\<lambda>v s. s\<lparr>it_value := v\<rparr>) (u32_type vec_writer))"

definition item_default :: item where
  "item_default = \<lparr>it_name = [], it_value = 0\<rparr>"

definition item_enc_names :: "(item, byte list) enc_names" where
  "item_enc_names = \<lparr>en_field = (\<lambda>i n. fl_enc (item_members i n)), en_value = (\<lambda>_. item_default),
     en_variant = (\<lambda>_ n. enc_unit_variant vec_writer n item_default)\<rparr>"

definition item_dec_names :: "item dec_names" where
  "item_dec_names = \<lparr>dn_field = (\<lambda>i n. fl_dec (item_members i n)), dn_struct = item_default,
     dn_value = (\<lambda>_. item_default), dn_variant = (\<lambda>_ n. dec_unit_variant n item_default), dn_holding = (\<lambda>_. item_default)\<rparr>"

interpretation item: struct_members vec_writer unbounded item_enc_names item_dec_names item_members "{''name'', ''value''}"
proof
  have "place it_name (\<lambda>v s. s\<lparr>it_name := v\<rparr>)" "place it_value (\<lambda>v s. s\<lparr>it_value := v\<rparr>)"
    by unfold_locales simp_all
  then show "field_law vec_writer unbounded (item_members i n)" if "num_ok n" for i n
    using that scalar_lawful [OF vec.bytes_writer_axioms] by (auto simp: item_members_def intro!: type_field_law)
qed (auto simp: item_members_def item_enc_names_def item_dec_names_def item_default_def dec_field_def tbind_eq_Inr
    u32_type_def int32_decode_def impl_varint_decode_def string_type_def string_decode_def)

lemma item_fields:
  "n \<noteq> 0 \<Longrightarrow> parse_fields token_syn (FieldsNamed [field_at [TInt 1] ''name'', field_at [TInt n] ''value''])
    = Inr [(\<lparr>fieldnum = 1, default_path = None\<rparr>, field_at [TInt 1] ''name''),
           (\<lparr>fieldnum = n, default_path = None\<rparr>, field_at [TInt n] ''value'')]"
  by (simp add: parse_fields_def)

lemma item_ident: "sf_ident (field_at ts i) = i"
  by (simp add: field_at_def)

definition item_encode :: "nat \<Rightarrow> (item, byte list) encode_message" where
  "item_encode n = struct_encode vec_writer
     [enc_field 1 it_name (string_encode vec_writer), enc_field (of_nat n) it_value (u32_encode vec_writer)]"

definition item_decode :: "nat \<Rightarrow> item decode_message" where
  "item_decode n = struct_decode slice_reader
     [dec_field 1 it_name (\<lambda>v s. s\<lparr>it_name := v\<rparr>) string_decode,
      dec_field (of_nat n) it_value (\<lambda>v s. s\<lparr>it_value := v\<rparr>) int32_decode] item_default"

lemma item_expands:
  assumes "n \<noteq> 0"
  shows "encode_expand token_syn vec_writer item_enc_names (item_input n) = Inr (item_encode n)"
    and "decode_expand token_syn slice_reader item_dec_names (item_input n) = Inr (item_decode n)"
  using item_fields [OF assms]
  by (simp_all add: encode_expand_def encode_expand_struct_def decode_expand_def decode_expand_struct_def item_input_def
      item_ident item_enc_names_def item_dec_names_def item_members_def item_encode_def item_decode_def string_type_def
      u32_type_def token_syn_def)

theorem derived_struct_roundtrip_witness:
  "\<exists>bs. to_vec vec_writer (item_encode 2) \<lparr>it_name = [65], it_value = 300\<rparr> = Inr bs
    \<and> from_slice (item_decode 2) bs = Some (Inr \<lparr>it_name = [65], it_value = 300\<rparr>)"
proof -
  let ?xs = "[(\<lparr>fieldnum = 1, default_path = None\<rparr>, field_at [TInt 1] ''name''),
    (\<lparr>fieldnum = 2, default_path = None\<rparr>, field_at [TInt 2] ''value'')]"
  let ?s = "\<lparr>it_name = [65], it_value = 300\<rparr>"
  have "\<exists>bs. to_vec vec_writer (item_encode 2) ?s = Inr bs
    \<and> from_slice (item_decode 2) bs = Some (Inr (struct_put (map (derived_field item_members) ?xs) ?s (dn_struct item_dec_names)))"
  proof (rule derived_struct_roundtrip [OF vec.bytes_owned_axioms slice.bytes_reader_axioms _ _
        item_expands(1) item_expands(2) _ item_fields])
    show "di_data (item_input 2) = DataStruct (FieldsNamed [field_at [TInt 1] ''name'', field_at [TInt 2] ''value''])"
      by (simp add: item_input_def)
    show "struct_members vec_writer unbounded item_enc_names item_dec_names item_members
        (sf_ident ` set [field_at [TInt 1] ''name'', field_at [TInt 2] ''value''])"
      using item.struct_members_axioms by (simp add: item_ident)
    show "struct_ok (map (derived_field item_members) ?xs) ?s"
      by (simp add: derived_field_def item_ident item_members_def struct_ok_def struct_kind_def field_part_simps
          fl_parts_def u32_type_def u32_encode_def impl_varint_encode_def string_type_def string_encode_def
          slice_u8_encode_def fl_num_def with_number_def bytes_of_field_def field_bytes_def length_varint_bytes
          digits128.simps tag_of_def)
  qed (simp_all add: item_ident numbers_ok_def)
  then show ?thesis
    by (simp add: struct_put_def derived_field_def item_ident item_members_def item_dec_names_def item_default_def
        string_type_def u32_type_def)
qed

text \<open>An item whose two fields are both number 1.\<close>

lemma token_crate: "sy_crate_name token_syn = Inr ()"
  by (simp add: token_syn_def)

theorem equal_numbers_lost_witness:
  "\<exists>E D. encode_expand token_syn vec_writer item_enc_names (item_input 1) = Inr E
    \<and> decode_expand token_syn slice_reader item_dec_names (item_input 1) = Inr D
    \<and> (\<forall>bs t. from_slice D bs = Some (Inr t) \<longrightarrow> it_value t = 0)"
proof -
  have "\<exists>E D. encode_expand token_syn vec_writer item_enc_names (item_input 1) = Inr E
    \<and> decode_expand token_syn slice_reader item_dec_names (item_input 1) = Inr D
    \<and> (\<forall>bs t. from_slice D bs = Some (Inr t) \<longrightarrow>
        fl_fresh (item_members (sf_ident (field_at [TInt 1] ''value'')) (of_nat (fieldnum \<lparr>fieldnum = 1, default_path = None\<rparr>))) t)"
    by (rule equal_numbers_lost [OF slice.bytes_reader_axioms,
          where fs = "[field_at [TInt 1] ''name'', field_at [TInt 1] ''value'']" and before = "[]" and between = "[]" and after = "[]"
            and x = "field_at [TInt 1] ''name''" and attr = "\<lambda>_. \<lparr>fieldnum = 1, default_path = None\<rparr>"])
      (use item.struct_members_axioms in \<open>auto simp: item_ident item_input_def token_crate\<close>)
  then show ?thesis
    by (auto simp: item_ident item_members_def u32_type_def int32_decode_def impl_varint_decode_def)
qed

text \<open>\<open>Test3\<close> and \<open>Test4\<close> of the tests.\<close>

definition test3_input :: "token list derive_input" where
  "test3_input = \<lparr>di_attrs = [], di_generics = False, di_data = DataEnum
     [\<lparr>sv_attrs = sf_attrs (field_at [TInt 1] ''One''), sv_ident = ''One'',
       sv_fields = FieldsUnnamed [\<lparr>sf_attrs = [], sf_ident = []\<rparr>], sv_discriminant = None\<rparr>,
      \<lparr>sv_attrs = sf_attrs (field_at [TInt 2, TComma, TPath ''default''] ''Two''), sv_ident = ''Two'',
       sv_fields = FieldsUnit, sv_discriminant = None\<rparr>]\<rparr>"

definition test3_members :: "string \<Rightarrow> u64 \<Rightarrow> (test3, test3, byte list) enum_variant" where
  "test3_members i n = type_variant n test3_One test3_One One3 (string_type vec_writer)"

definition test3_enc_names :: "(test3, byte list) enc_names" where
  "test3_enc_names = \<lparr>en_field = (\<lambda>_ n. enc_field n (\<lambda>_. []) (string_encode vec_writer)), en_value = (\<lambda>_. Two3),
     en_variant = (\<lambda>i n. vt_enc (test3_members i n))\<rparr>"

definition test3_dec_names :: "test3 dec_names" where
  "test3_dec_names = \<lparr>dn_field = (\<lambda>_ n. \<lparr>df_num = n, df_merge = (\<lambda>s k b. Some (Inr s))\<rparr>), dn_struct = Two3,
     dn_value = (\<lambda>_. Two3), dn_variant = (\<lambda>i n. vt_dec (test3_members i n)), dn_holding = (\<lambda>_. One3 [])\<rparr>"

interpretation test3_names: enum_members vec_writer unbounded test3_enc_names test3_dec_names test3_members "{''One''}" Two3
proof
  show "variant_law vec_writer unbounded Two3 (test3_members i n)" if "num_ok n" for i n
    unfolding test3_members_def using that scalar_lawful(10) [OF vec.bytes_writer_axioms]
    by (intro type_variant_law) simp_all
qed (simp_all add: test3_enc_names_def test3_dec_names_def test3_members_def)

definition test3_read :: "(field_attr \<times> string \<times> token list syn_field option) list" where
  "test3_read = [(\<lparr>fieldnum = 1, default_path = None\<rparr>, ''One'', Some \<lparr>sf_attrs = [], sf_ident = []\<rparr>),
     (\<lparr>fieldnum = 2, default_path = Some ''default''\<rparr>, ''Two'', None)]"

lemma test3_reads: "di_data test3_input = DataEnum vs \<Longrightarrow> field_variants token_syn vs = Inr test3_read"
  by (auto simp: test3_input_def field_variants_def field_variant_def field_at_def parse_args_def field_attr_parse_def
      token_syn_def is_default_variant_def test3_read_def)

lemma test3_expands:
  "encode_expand token_syn vec_writer test3_enc_names test3_input = Inr (test3_encode vec_writer)"
  "decode_expand token_syn slice_reader test3_dec_names test3_input = Inr (test3_decode slice_reader)"
  using test3_reads [of "case di_data test3_input of DataEnum vs \<Rightarrow> vs"]
  by (simp_all add: encode_expand_def encode_expand_enum_with_fields_def decode_expand_def
      decode_expand_enum_with_fields_def test3_input_def repr_as_i32_def test3_read_def encode_arm_def decode_arm_def
      is_default_variant_def default_value_def test3_enc_names_def test3_dec_names_def test3_members_def
      test3_encode_def test3_decode_def type_variant_def string_type_def string_decode_def token_syn_def)

theorem derived_enum_roundtrip_witness:
  "\<exists>bs. to_vec vec_writer (test3_encode vec_writer) (One3 [97]) = Inr bs
    \<and> from_slice (test3_decode slice_reader) bs = Some (Inr (One3 [97]))"
proof -
  let ?d = "(\<lparr>fieldnum = 2, default_path = Some ''default''\<rparr>, ''Two'', None :: token list syn_field option)"
  obtain vs where vs: "di_data test3_input = DataEnum vs" by (simp add: test3_input_def)
  have "holding test3_read = {''One''}" "default_value test3_dec_names ?d = Two3"
    by (auto simp: holding_def test3_read_def default_value_def test3_dec_names_def)
  then have names: "enum_members vec_writer unbounded test3_enc_names test3_dec_names test3_members
      (holding test3_read) (default_value test3_dec_names ?d)"
    using test3_names.enum_members_axioms by simp
  have variants: "map (derived_variant vec_writer test3_enc_names test3_dec_names test3_members) test3_read
      = test3_variants vec_writer"
    by (simp add: test3_read_def derived_variant_def test3_members_def test3_enc_names_def test3_dec_names_def
        test3_variants_def)
  have "\<exists>bs. to_vec vec_writer (test3_encode vec_writer) (One3 [97]) = Inr bs
    \<and> from_slice (test3_decode slice_reader) bs = Some (Inr (enum_val
        (map (derived_variant vec_writer test3_enc_names test3_dec_names test3_members) test3_read)
        (default_value test3_dec_names ?d) (One3 [97])))"
  proof (rule derived_enum_roundtrip [OF vec.bytes_owned_axioms slice.bytes_reader_axioms vs _ test3_expands
        test3_reads [OF vs] _ names])
    show "enum_ok (map (derived_variant vec_writer test3_enc_names test3_dec_names test3_members) test3_read)
        (default_value test3_dec_names ?d) (One3 [97])"
      unfolding variants using test3_ok [of vec_writer "One3 [97]"]
      by (simp add: default_value_def test3_dec_names_def test3_typed_def enum_kind_def enum_parts_def
          test3_variants_def type_variant_def enc_field_variant_def string_type_def vt_num_def field_bytes_def
          length_varint_bytes digits128.simps tag_of_def)
  qed (simp_all add: repr_as_i32_def test3_input_def test3_read_def is_default_variant_def numbers_ok_def)
  then show ?thesis
    unfolding variants by (simp add: default_value_def test3_dec_names_def test3_val)
qed

end
