(* ===== verification/Server_Props.thy ===== *)
theory Server_Props
  imports Servers Api_Props Derive_Message_Props
begin

text \<open>
  From a function under the macro \<open>api\<close> to the answer of a client's request, through registering,
  building and a connection; and the loop of a running server.
\<close>

section \<open>The loop of a server\<close>

text \<open>One round: a stream is accepted, its connection started and served in a session of its own.\<close>

inductive serves_one ::
    "('w \<Rightarrow> ((io_error + 's \<times> string) \<times> 'w) option) \<Rightarrow> ('s \<Rightarrow> 'w \<Rightarrow> server_connection \<times> 'v \<times> 'w) \<Rightarrow> type_id
      \<Rightarrow> ('v session \<Rightarrow> server_connection \<Rightarrow> 'w \<Rightarrow> 'w) \<Rightarrow> 'w \<Rightarrow> 'w \<Rightarrow> bool"
  for ac new_connection D spawn where
  "ac w = Some (Inr (stream, addr), w1) \<Longrightarrow> new_connection stream w1 = (con, configurator, w2)
    \<Longrightarrow> serves_one ac new_connection D spawn w (spawn (session_set D configurator (session_new addr)) con w2)"

inductive_cases serves_oneE: "serves_one ac new_connection D spawn w w'"

text \<open>A server ends with the first error of its listener, and only then.\<close>

lemma run_raw_rounds:
  assumes "run_raw ac new_connection D spawn w = Some r"
  shows "\<exists>w1. (serves_one ac new_connection D spawn)\<^sup>*\<^sup>* w w1 \<and> ac w1 = Some (Inl (fst r), snd r)"
proof (rule run_raw.raw_induct [of
      "\<lambda>ac new_connection D spawn w r. \<exists>w1. (serves_one ac new_connection D spawn)\<^sup>*\<^sup>* w w1 \<and> ac w1 = Some (Inl (fst r), snd r)",
      OF _ assms])
  fix run and ac :: "'a \<Rightarrow> ((io_error + 'b \<times> string) \<times> 'a) option"
    and new_connection :: "'b \<Rightarrow> 'a \<Rightarrow> server_connection \<times> 'c \<times> 'a" and D spawn w r
  assume IH: "\<And>ac new_connection D spawn w r. run ac new_connection D spawn w = Some r
      \<Longrightarrow> \<exists>w1. (serves_one ac new_connection D spawn)\<^sup>*\<^sup>* w w1 \<and> ac w1 = Some (Inl (fst r), snd r)"
    and eq: "(case ac w of
        None \<Rightarrow> None
      | Some (Inl e, w) \<Rightarrow> Some (e, w)
      | Some (Inr (stream, addr), w) \<Rightarrow>
          (case new_connection stream w of
             (con, configurator, w) \<Rightarrow>
               run ac new_connection D spawn (spawn (session_set D configurator (session_new addr)) con w))) = Some r"
  show "\<exists>w1. (serves_one ac new_connection D spawn)\<^sup>*\<^sup>* w w1 \<and> ac w1 = Some (Inl (fst r), snd r)"
  proof (cases "ac w")
    case None
    with eq show ?thesis by simp
  next
    case (Some x)
    obtain a w1 where x: "x = (a, w1)" by (rule prod.exhaust)
    show ?thesis
    proof (cases a)
      case (Inl e)
      with eq Some x show ?thesis by (intro exI [of _ w]) auto
    next
      case (Inr c)
      obtain stream addr where c: "c = (stream, addr)" by (rule prod.exhaust)
      obtain con configurator w2 where con: "new_connection stream w1 = (con, configurator, w2)" by (rule prod_cases3)
      let ?w = "spawn (session_set D configurator (session_new addr)) con w2"
      have "serves_one ac new_connection D spawn w ?w"
        using Some x Inr c con by (intro serves_one.intros) auto
      moreover have "run ac new_connection D spawn ?w = Some r"
        using eq Some x Inr c con by simp
      ultimately show ?thesis
        using IH by (meson converse_rtranclp_into_rtranclp)
    qed
  qed
qed

lemma run_raw_ends:
  "run_raw ac new_connection D spawn w = Some (e, w')
    \<longleftrightarrow> (\<exists>w1. (serves_one ac new_connection D spawn)\<^sup>*\<^sup>* w w1 \<and> ac w1 = Some (Inl e, w'))"
proof
  assume "\<exists>w1. (serves_one ac new_connection D spawn)\<^sup>*\<^sup>* w w1 \<and> ac w1 = Some (Inl e, w')"
  then obtain w1 where "(serves_one ac new_connection D spawn)\<^sup>*\<^sup>* w w1" "ac w1 = Some (Inl e, w')" by blast
  then show "run_raw ac new_connection D spawn w = Some (e, w')"
  proof (induction rule: converse_rtranclp_induct)
    case base
    then show ?case by (simp add: run_raw.simps)
  next
    case (step w w2)
    then show ?case by (auto elim!: serves_oneE simp: run_raw.simps [of ac new_connection D spawn w])
  qed
qed (use run_raw_rounds [of ac new_connection D spawn w "(e, w')"] in simp)

section \<open>Derived types as messages\<close>

text \<open>
  A struct that the derive macros of \<open>protopuffer\<close> accept, with different field numbers, is a message under
  \<open>derive(IntoMessage, FromMessage)\<close> with \<open>#[message(protobuf)]\<close>, for the values that are read back as they are.
\<close>

lemma derived_struct_converts:
  assumes "bytes_owned W room" and "bytes_reader R"
    and "di_data input = DataStruct (FieldsNamed fs)" and "distinct (map sf_ident fs)"
    and "encode_expand S W EN input = Inr E" and "decode_expand S R DN input = Inr D"
    and "struct_members W room EN DN members (sf_ident ` set fs)"
    and "parse_fields S (FieldsNamed fs) = Inr xs" and "numbers_ok (map (fieldnum \<circ> fst) xs)"
    and "packet_buffer B wfb mac"
  shows "message_conversion B (wfb HEADER_LEN) (protobuf_message W B E D)
    (\<lambda>s. struct_ok (map (derived_field members) xs) s \<and> struct_put (map (derived_field members) xs) s (dn_struct DN) = s)"
proof -
  note T = derived_struct_lawful [OF owned_writer [OF assms(1)] assms(2-9)]
  show ?thesis
    unfolding T(2,3)
    by (rule protobuf_conversion [OF T(1) assms(1) _ _ assms(10)]) (simp_all add: struct_type_def struct_decode_def)
qed

section \<open>Registered functions\<close>

lemma api_registered:
  assumes "expand_params sig = Inr params" and "api_expand T R sig f = Inr h"
    and "server_register_all (before @ RegisterRequest h # after) (server_new listener cfg) = Returned server"
    and "\<forall>h'. RegisterRequest h' \<in> set after \<longrightarrow> rh_action h' \<noteq> rq_action R"
  shows "get_handler (rq_action R) (bs_requests (server_build server)) = Some (api_handler T R params f)"
    and "validate_data T params (hr_data (bs_requests (server_build server)))"
proof -
  have h: "h = api_handler T R params f"
    using assms(1,2) by (simp add: api_expand_def)
  then have parts: "rh_action h = rq_action R" "rh_validate h = validate_data T params"
    by (simp_all add: api_handler_def)
  show "get_handler (rq_action R) (bs_requests (server_build server)) = Some (api_handler T R params f)"
    using registered_last(1) [OF assms(3)] assms(4) h parts(1) by (simp add: server_build_def)
  show "validate_data T params (hr_data (bs_requests (server_build server)))"
    using registered_last(2) [OF assms(3) _ parts(2)] assms(4) parts(1) by (simp add: server_build_def)
qed

section \<open>Properties\<close>

text \<open>
  C5. A function under \<open>api\<close> that was registered answers its requests: if the macro accepts the function,
  registering it does not panic, no later handler takes its action, and it takes its request not
  twice, then on the built server its arguments are there, and a client's request over a connection
  to it gives what the function returns, errors included.
\<close>

theorem registered_function_answers:
  assumes "expand_params sig = Inr params" and "api_expand T R sig f = Inr h"
    and "owned_uses T params = 0 \<or> owned_uses T params = 1 \<and> ref_uses T params = 0"
    and "server_register_all (before @ RegisterRequest h # after) (server_new listener cfg) = Returned server"
    and "\<forall>h'. RegisterRequest h' \<in> set after \<longrightarrow> rh_action h' \<noteq> rq_action R"
    and "message_conversion B wfb (rq_request R) okr" and "message_conversion B wfb (rq_response R) okt"
    and "message_conversion B wfb (rq_error R) oke"
    and "connects B wfb (bs_requests (server_build server)) session send" and "okr r"
  shows "\<exists>args. handler_args T (hr_data (bs_requests (server_build server))) session params (dm_new r) = Returned args
    \<and> (\<forall>w res w'. f args w = Some (Returned res, w') \<and> (case res of Inl e \<Rightarrow> oke e | Inr t \<Rightarrow> okt t)
        \<longrightarrow> client_request send R r w = Some (Returned res, w'))"
proof -
  let ?hs = "bs_requests (server_build server)"
  note h = api_registered [OF assms(1,2,4,5)]
  from handler_args_return [OF h(2), of session "dm_new r"] assms(3)
  have "returned (handler_args T (hr_data ?hs) session params (dm_new r))"
    by (simp add: dm_new_def)
  then obtain args where args: "handler_args T (hr_data ?hs) session params (dm_new r) = Returned args"
    by (cases "handler_args T (hr_data ?hs) session params (dm_new r)") simp_all
  then show ?thesis
    using request_calls_handler [OF assms(6-9) h(1) args _ assms(10)] by blast
qed

text \<open>The function of \<open>Api_Props\<close> that has bytes of the server's data appended to its request.\<close>

definition append_sig :: signature where
  "append_sig = \<lparr>sg_constness = False, sg_unsafety = False, sg_abi = False, sg_generics = False, sg_variadic = False,
     sg_inputs = [ArgTyped (TypeOther (TypeOf 0)), ArgTyped (TypeReference False False (TypeOf 1))]\<rparr>"

abbreviation append_params :: "param list" where
  "append_params \<equiv> [Owned (TypeOf 0), ByRef (TypeOf 1)]"

definition append_registrations :: "(some_action, plain_bytes, unit, byte list, nat) registration list" where
  "append_registrations = [RegisterData (TypeOf 1) [9]]
     @ RegisterRequest (api_handler (TypeOf 0) append_request append_params append_function)
     # [RegisterData (TypeOf 2) [3]]"

definition append_built :: "(some_action, plain_bytes, unit, byte list, nat) handlers" where
  "append_built = register_data (TypeOf 2) [3] append_server"

lemma append_registers:
  "server_register_all append_registrations (server_new () cfg)
     = Returned \<lparr>sv_inner = (), sv_requests = append_built, sv_cfg = cfg, sv_more = ()\<rparr>"
  by (simp add: append_registrations_def server_register_def server_new_def append_built_def
      append_server_registered [unfolded One_nat_def])

lemma append_expands:
  "expand_params append_sig = Inr append_params"
  "api_expand (TypeOf 0) append_request append_sig append_function
     = Inr (api_handler (TypeOf 0) append_request append_params append_function)"
  by (simp_all add: api_expand_def expand_params_def validate_signature_def append_sig_def)

lemma append_built_args:
  "handler_args (TypeOf 0) (hr_data append_built) session append_params (dm_new r) = Returned [ArgRequest r, ArgValue [9]]"
  by (simp add: append_built_def register_data_def append_server_def get_data_as_owned_def get_data_as_ref_def
      is_req_def is_session_def is_data_def dm_new_def dm_take_def data_get_def data_insert_def)

theorem registered_function_answers_witness:
  "client_request (over (wire_way be_ints some_action plain_packet_bytes KRequest 3)
      (wire_way be_ints some_action plain_packet_bytes KResponse 3) append_built (session_new ''127.0.0.1''))
     append_request [7, 8] 0 = Some (Returned (Inr [7, 8, 9]), 1)"
proof -
  let ?send = "over (wire_way be_ints some_action plain_packet_bytes KRequest 3)
      (wire_way be_ints some_action plain_packet_bytes KResponse 3) append_built (session_new ''127.0.0.1'')"
  let ?server = "\<lparr>sv_inner = (), sv_requests = append_built, sv_cfg = \<lparr>cfg_timeout = 10, cfg_body_limit = 0\<rparr>, sv_more = ()\<rparr>"
  have con: "connects plain_packet_bytes (plain_wf HEADER_LEN) (bs_requests (server_build ?server)) (session_new ''127.0.0.1'') ?send"
    by (simp add: server_build_def)
      (intro over_connects wire_carries [OF be.int_codec_axioms plain.packet_buffer_axioms])
  from registered_function_answers [OF append_expands _ append_registers [unfolded append_registrations_def,
        of "\<lparr>cfg_timeout = 10, cfg_body_limit = 0\<rparr>"] _ append_conversions con, of "[7, 8]"]
  obtain args where args: "handler_args (TypeOf 0) (hr_data append_built) (session_new ''127.0.0.1'') append_params
        (dm_new [7, 8 :: byte]) = Returned args"
    and answers: "\<And>w res w'. append_function args w = Some (Returned res, w')
        \<Longrightarrow> (case res of Inl e \<Rightarrow> mt_ok (string_type vec_writer) e | Inr t \<Rightarrow> mt_ok (bytes_type vec_writer) t)
        \<Longrightarrow> client_request ?send append_request [7, 8] w = Some (Returned res, w')"
    by (auto simp: server_build_def bytes_type_def)
  have "args = [ArgRequest [7, 8], ArgValue [9]]"
    using args unfolding append_built_args by simp
  then have "append_function args 0 = Some (Returned (Inr [7, 8, 9]), 1)" by simp
  from answers [OF this] show ?thesis by (simp add: bytes_type_def)
qed

end
