(* ===== verification/Stack_Props.thy ===== *)
theory Stack_Props
  imports Server_Props Exchange_Props
begin

text \<open>
  From the client's call to the function at the server and back, through everything in between: the
  conversions, both handlers with whatever else goes on in them, and what the stream does to packets.
\<close>

section \<open>Packets of a request\<close>

lemma request_stamped:
  assumes "packet_laws H P" and "start_request H P T (IRequest pkt c) h st = Returned (Some p, h', st')"
  shows "p = stamped H P KRequest (ph_id H (pk_header P p)) pkt"
proof -
  obtain i where p: "p = stamped H P KRequest i pkt"
    using assms(2) by (auto simp: start_request_def Let_def split: outcome.splits option.splits prod.splits if_splits)
  then have "ph_id H (pk_header P p) = i" using assms(1) by (simp add: packet_laws.stamped_header)
  with p show ?thesis by simp
qed

lemma arrived_stamp [simp]:
  "ph_id (api_header N A) (pk_header (api_packet N A B) (arrived N A B p)) = ph_id (api_header N A) (pk_header (api_packet N A B) p)"
  "ph_flags (api_header N A) (pk_header (api_packet N A B) (arrived N A B p)) = ph_flags (api_header N A) (pk_header (api_packet N A B) p)"
  by (simp_all add: arrived_def sent_header_def api_header_def api_packet_def)

lemma arrived_carries:
  assumes "int_codec N" and "packet_buffer B wfb mac" and "wfb HEADER_LEN (ms_bytes msg)"
  shows "carried B msg (arrived N A B (stamped (api_header N A) (api_packet N A B) k i msg))"
  using wire_carries [OF assms] by (simp add: wire_way_def)

section \<open>Properties\<close>

text \<open>
  C4. A request through all layers. A client makes the message of a request and its handler sends it; the
  server's handler takes what arrives, its task runs the function that was registered for it and
  puts the answer into the channel of this request; the server's handler sends it, and the client's
  handler takes what arrives. Both handlers do anything else meanwhile. Then the message that the
  client's call is given from its channel is read as what the function returned.
\<close>

theorem request_through_all_layers:
  assumes N: "int_codec N" and B: "packet_buffer B wfb mac"
    and sig: "expand_params sig = Inr params" "api_expand X R sig f = Inr h"
      "owned_uses X params = 0 \<or> owned_uses X params = 1 \<and> ref_uses X params = 0"
    and registered: "server_register_all (before @ RegisterRequest h # after) (server_new listener cfg) = Returned srv"
      "\<forall>h'. RegisterRequest h' \<in> set after \<longrightarrow> rh_action h' \<noteq> rq_action R"
    and conv: "message_conversion B (wfb HEADER_LEN) (rq_request R) okr"
      "message_conversion B (wfb HEADER_LEN) (rq_response R) okt" "message_conversion B (wfb HEADER_LEN) (rq_error R) oke"
    and request: "okr r" "into_message (rq_request R) r = Inr m"
    and asked: "start_request (api_header N A) (api_packet N A B) T (IRequest (message_set_action (rq_action R) m) c) client st
      = Returned (Some p, client1, st1)"
    and taken: "handler_send (api_header N A) (api_packet N A B) U (arrived N A B p) server us = (Inr SendNone, server1, us1)"
    and run: "\<And>args. handler_args X (hr_data (bs_requests (server_build srv))) session params (dm_new r) = Returned args
      \<Longrightarrow> f args w = Some (Returned res, w')" "case res of Inl e \<Rightarrow> oke e | Inr t \<Rightarrow> okt t"
    and channel: "\<And>st st' q. tk_oneshot_poll U (fst (tk_oneshot U us)) st = (PollSome q, st')
        \<Longrightarrow> respond (bs_requests (server_build srv)) session (arrived N A B p) w = Some (Some q, w')"
      "\<And>st st'. tk_oneshot_poll U (fst (tk_oneshot U us)) st \<noteq> (PollClosed, st')"
    and serving: "(other_step (api_header N A) (api_packet N A B) U (hd_id (ms_header p)))\<^sup>*\<^sup>* (server1, us1) (server2, us2)"
    and sent: "handler_to_send (api_header N A) (api_packet N A B) U user_first order server2 us2
      = Returned (SendThis a, server3, us3)"
    and a: "hd_id (ms_header a) = hd_id (ms_header p)"
      "flags_kind (ph_flags (api_header N A) (pk_header (api_packet N A B) a)) \<in> {KResponse, KNoResponse}"
    and waiting: "(other_step (api_header N A) (api_packet N A B) T (hd_id (ms_header p)))\<^sup>*\<^sup>* (client1, st1) (client2, st2)"
  shows "\<exists>client3 x. handler_send (api_header N A) (api_packet N A B) T (arrived N A B a) client2 st2
      = (Inr SendNone, client3, snd (tk_response_send T c (Inr x) st2))
    \<and> waiting_on_stream client3 (hd_id (ms_header p)) = None \<and> read_response R x = Some res"
proof -
  let ?H = "api_header N A" and ?P = "api_packet N A B" and ?hs = "bs_requests (server_build srv)"
  let ?msg = "message_set_action (rq_action R) m" and ?i = "hd_id (ms_header p)"
  have hid: "ph_id ?H (pk_header ?P x) = hd_id (ms_header x)" for x
    by (simp add: api_header_def api_packet_def)
  have laws: "packet_laws ?H ?P" by (rule api.packet_laws_axioms)
  note asked_p = request_stamped [OF laws asked, unfolded hid]
  \<comment> \<open>what the server's function makes of the request\<close>
  note h = api_registered [OF sig(1,2) registered]
  from handler_args_return [OF h(2), of session "dm_new r"] sig(3)
  have "returned (handler_args X (hr_data ?hs) session params (dm_new r))" by (simp add: dm_new_def)
  then obtain args where args: "handler_args X (hr_data ?hs) session params (dm_new r) = Returned args"
    by (cases "handler_args X (hr_data ?hs) session params (dm_new r)") simp_all
  have "wfb HEADER_LEN (ms_bytes ?msg)"
    using message_conversion.converts [OF conv(1) request(1)] request(2) by simp
  from arrived_carries [OF N B this, of A KRequest ?i] have "carried B ?msg (arrived N A B p)"
    by (simp flip: asked_p)
  from respond_result [OF conv h(1) args run(1) [OF args] request(1) run(2) request(2) this] obtain ans where
    ans: "respond ?hs session (arrived N A B p) w = Some (Some ans, w')" "wfb HEADER_LEN (ms_bytes ans)"
      "\<And>x. carried B ans x \<Longrightarrow> read_response R x = Some res"
    by blast
  \<comment> \<open>what the two handlers do with the packets\<close>
  have "flags_kind (ph_flags ?H (pk_header ?P (arrived N A B p))) = KRequest"
    using api.stamped_header(2) [of N A B KRequest ?i ?msg] by (simp flip: asked_p)
  then have "given ?H ?P U (fst (tk_oneshot U us)) ?i a"
    using packet_laws.server_answers [OF laws taken _ _ serving sent] a by (simp add: hid)
  then have "a = stamped ?H ?P KResponse ?i ans"
    using channel ans(1) by (fastforce simp: given_def)
  then have "answer_result ?H ?P (arrived N A B a) = Inr (arrived N A B a)"
    and "carried B ans (arrived N A B a)"
    using arrived_carries [OF N B ans(2)] by (simp_all add: answer_result_def api.stamped_header)
  with packet_laws.client_answered [OF laws asked, unfolded hid, OF waiting, of "arrived N A B a"] a ans(3) show ?thesis
    by (auto simp flip: hid)
qed

text \<open>
  The function of \<open>Server_Props\<close>, over plain packets, and runtimes as \<open>log_tokio\<close>: the server's channel
  gives what the function's task puts in.
\<close>

abbreviation append_packet_header :: "some_action header packet_header" where
  "append_packet_header \<equiv> api_header be_ints some_action"

abbreviation append_packet :: "((some_action, plain_bytes) message, some_action header, plain_bytes) packet" where
  "append_packet \<equiv> api_packet be_ints some_action plain_packet_bytes"

theorem request_through_all_layers_witness:
  "\<exists>answer client3 x. handler_send append_packet_header append_packet log_tokio (arrived be_ints some_action plain_packet_bytes answer)
        ((handler_new False)\<lparr>waiting_on_stream := [0 \<mapsto> StreamRequest 4], h_state := UniClient (Some 1)\<rparr>) (6, [], [])
      = (Inr SendNone, client3, (6, [], [(4, Inr x)]))
    \<and> waiting_on_stream client3 0 = None \<and> read_response append_request x = Some (Inr [7, 8, 9])"
proof -
  let ?client = "(handler_new False)\<lparr>waiting_on_stream := [0 \<mapsto> StreamRequest 4], h_state := UniClient (Some 1)\<rparr>"
  let ?server = "(handler_new True)\<lparr>waiting_on_user := [0 \<mapsto> UserRequest 7]\<rparr>"
  let ?H = append_packet_header and ?P = append_packet and ?session = "session_new ''127.0.0.1''"
  let ?arrived = "arrived be_ints some_action plain_packet_bytes"
  let ?srv = "\<lparr>sv_inner = (), sv_requests = append_built, sv_cfg = \<lparr>cfg_timeout = 10, cfg_body_limit = 0\<rparr>, sv_more = ()\<rparr>"
  have hid: "ph_id ?H (pk_header ?P x) = hd_id (ms_header x)" for x
    by (simp add: api_header_def api_packet_def)
  have ok: "mt_ok (bytes_type vec_writer) [7, 8]" by (simp add: bytes_type_def)
  from message_conversion.converts [OF append_conversions(1) ok]
  obtain m where m: "into_message (rq_request append_request) [7, 8] = Inr m" "plain_wf HEADER_LEN (ms_bytes m)"
    by blast
  let ?msg = "message_set_action (rq_action append_request) m"
  let ?p = "stamped ?H ?P KRequest 0 ?msg"
  have p: "hd_id (ms_header ?p) = 0"
    using api.stamped_header(1) [of be_ints some_action plain_packet_bytes KRequest 0 ?msg] by (simp add: hid)
  have "carried plain_packet_bytes ?msg (?arrived ?p)"
    using m(2) by (intro arrived_carries [OF be.int_codec_axioms plain.packet_buffer_axioms]) simp
  moreover have "get_handler (rq_action append_request) append_built
      = Some (api_handler (TypeOf 0) append_request append_params append_function)"
    by (simp add: get_handler_def append_built_def register_data_def append_server_def append_request_def)
  ultimately obtain ans where ans: "respond append_built ?session (?arrived ?p) 0 = Some (Some ans, 1)"
    using respond_result [where f = append_function and w = 0 and w' = 1 and res = "Inr [7, 8, 9]",
      OF append_conversions _ append_built_args _ ok _ m(1)]
    by (fastforce simp: bytes_type_def)
  let ?U = "answer_tokio ans" and ?a = "stamped ?H ?P KResponse 0 ans"
  have asked: "start_request ?H ?P log_tokio (IRequest ?msg 4) (handler_new False) (5, [], [])
      = Returned (Some ?p, ?client, (5, [], []))"
    by (simp add: start_request_def log_tokio_def Let_def handler_new_def checked_add_1_def stamped_def with_id_def)
  have taken: "handler_send ?H ?P ?U (?arrived ?p) (handler_new True) (7, [], []) = (Inr SendNone, ?server, (8, [], []))"
    by (simp add: handler_send_def api.stamped_header Let_def user_insert_def to_user_def answer_tokio_def log_tokio_def handler_new_def)
  have sent: "handler_to_send ?H ?P ?U True [0] ?server (8, [], []) = Returned (SendThis ?a, handler_new True, (8, [], []))"
    by (simp add: handler_to_send_def user_branch_def answer_tokio_def log_tokio_def handler_new_def)
  have waiting: "(other_step ?H ?P log_tokio 0)\<^sup>*\<^sup>* (?client, (5, [], [])) (?client, (6, [], []))"
    by (rule r_into_rtranclp) (rule other_step.user)
  have built: "bs_requests (server_build ?srv) = append_built" by (simp add: server_build_def)
  have run: "append_function args 0 = Some (Returned (Inr [7, 8, 9]), 1)"
    if "handler_args (TypeOf 0) (hr_data append_built) ?session append_params (dm_new [7, 8]) = Returned args" for args
    using that unfolding append_built_args by auto
  have channel: "tk_oneshot_poll ?U d st = (PollSome q, st') \<Longrightarrow> respond append_built ?session (?arrived ?p) 0 = Some (Some q, 1)"
    "tk_oneshot_poll ?U d st \<noteq> (PollClosed, st')" for d st st' q
    using ans by (auto simp: answer_tokio_def)
  have a: "hd_id (ms_header ?a) = 0" "flags_kind (ph_flags ?H (pk_header ?P ?a)) \<in> {KResponse, KNoResponse}"
    using api.stamped_header [of be_ints some_action plain_packet_bytes KResponse 0 ans] by (simp_all add: hid)
  have oke: "case Inr [7, 8, 9] of Inl e \<Rightarrow> mt_ok (string_type vec_writer) e | Inr t \<Rightarrow> mt_ok (bytes_type vec_writer) t"
    by (simp add: bytes_type_def)
  note through = request_through_all_layers [OF be.int_codec_axioms plain.packet_buffer_axioms append_expands _
      append_registers [unfolded append_registrations_def, of "\<lparr>cfg_timeout = 10, cfg_body_limit = 0\<rparr>"] _
      append_conversions ok m(1) asked taken, unfolded built p]
  have "\<exists>client3 x. handler_send ?H ?P log_tokio (?arrived ?a) ?client (6, [], [])
      = (Inr SendNone, client3, snd (tk_response_send log_tokio 4 (Inr x) (6, [], [])))
    \<and> waiting_on_stream client3 0 = None \<and> read_response append_request x = Some (Inr [7, 8, 9])"
    by (rule through [OF _ _ run oke channel _ sent a waiting]) simp_all
  then show ?thesis by (auto simp: log_tokio_def)
qed

end
