(* ===== verification/Derive_Api.thy ===== *)
theory Derive_Api
  imports Server_Props
begin

text \<open>
  What is left of \<open>lafere-api-codegen\<close>: the arguments of its attribute macros (\<open>args.rs\<close>), and
  \<open>derive(IntoMessage)\<close> and \<open>derive(FromMessage)\<close>, which make a type that is JSON or protobuf a message
  (\<open>message.rs\<close>).
\<close>

section \<open>The arguments of attributes\<close>

text \<open>Parsing a type, or types with commas between them, is done by \<open>syn\<close>.\<close>

record api_args =
  aa_ty :: string

definition api_args_parse :: "('i \<Rightarrow> string + string \<times> 'i) \<Rightarrow> 'i \<Rightarrow> string + api_args \<times> 'i" where
  "api_args_parse parse_type input =
     rbind (parse_type input) (\<lambda>(ty, input). Inr (\<lparr>aa_ty = ty\<rparr>, input))"

record enable_args =
  ea_ty :: string
  ea_bytes :: "string option"

text \<open>The list is not empty, as \<open>parse_separated_nonempty\<close> says; the code unwraps its first element.\<close>

definition enable_args_parse ::
    "('i \<Rightarrow> string + string list \<times> 'i) \<Rightarrow> 'i \<Rightarrow> (string + enable_args \<times> 'i) outcome" where
  "enable_args_parse parse_separated_nonempty input =
     (case parse_separated_nonempty input of
        Inl e \<Rightarrow> Returned (Inl e)
      | Inr (list, input) \<Rightarrow>
          (case list of
             [] \<Rightarrow> Panic ''called `Option::unwrap()` on a `None` value''
           | ty # iter \<Rightarrow>
               Returned (Inr (\<lparr>ea_ty = ty, ea_bytes = (case iter of [] \<Rightarrow> None | bytes # _ \<Rightarrow> Some bytes)\<rparr>, input))))"

text \<open>Without a type of bytes the handler is generic in them.\<close>

definition use_generics :: "enable_args \<Rightarrow> bool" where
  "use_generics args \<longleftrightarrow> ea_bytes args = None"

lemma enable_args_returns:
  assumes "\<And>ts rest. parse input = Inr (ts, rest) \<Longrightarrow> ts \<noteq> []"
  shows "returned (enable_args_parse parse input)"
  using assms by (auto simp: enable_args_parse_def split: sum.splits list.splits)

section \<open>derive(IntoMessage) and derive(FromMessage)\<close>

text \<open>\<open>syn\<close> parses identifiers, and \<open>proc_macro_crate\<close> looks for the crate \<open>lafere-api\<close>.\<close>

record 'i api_syn =
  as_ident :: "'i \<Rightarrow> string + string \<times> 'i"
  as_crate_name :: "string + unit"

fun msg_attr_loop ::
    "'i syn \<Rightarrow> 'i api_syn \<Rightarrow> 'i syn_attribute list \<Rightarrow> string option \<Rightarrow> string + string option" where
  "msg_attr_loop S A [] name = Inr name"
| "msg_attr_loop S A (attr # attrs) name =
     (if sa_path attr \<noteq> ''message'' then msg_attr_loop S A attrs name
      else rbind (parse_args S (as_ident A) attr) (\<lambda>m. msg_attr_loop S A attrs (Some m)))"

definition msg_from_attrs :: "'i syn \<Rightarrow> 'i api_syn \<Rightarrow> 'i syn_attribute list \<Rightarrow> string + string" where
  "msg_from_attrs S A attrs =
     rbind (msg_attr_loop S A attrs None) (\<lambda>name. case name of
       None \<Rightarrow> Inl ''need an attribute #[message(..)]''
     | Some m \<Rightarrow> Inr m)"

text \<open>
  \<open>encdec::#module\<close>, of the two modules of \<open>encdec.rs\<close>, with the implementations of the type that they
  use: those of \<open>serde\<close> and those of \<open>protopuffer\<close>. Other names are refused by the compiler.
\<close>

record ('t, 'm) type_impls =
  ti_to_writer :: "'t \<Rightarrow> string + byte list"
  ti_from_slice :: "byte list \<Rightarrow> string + 't"
  ti_encode :: "('t, 'm) encode_message"
  ti_decode :: "'t decode_message"

definition encdec_module ::
    "'m bytes_write \<Rightarrow> 'b packet_bytes \<Rightarrow> ('t, 'm) type_impls \<Rightarrow> string \<Rightarrow> string + ('t, 'a, 'b) as_message" where
  "encdec_module W B I name =
     (if name = ''json'' then Inr
        \<lparr>into_message = json_encode (ti_to_writer I) B, from_message = (\<lambda>msg. Some (json_decode (ti_from_slice I) B msg))\<rparr>
      else if name = ''protobuf'' then Inr (protobuf_message W B (ti_encode I) (ti_decode I))
      else Inl ''could not find module in `encdec`'')"

definition into_expand ::
    "'i syn \<Rightarrow> 'i api_syn \<Rightarrow> 'm bytes_write \<Rightarrow> 'b packet_bytes \<Rightarrow> ('t, 'm) type_impls \<Rightarrow> 'i derive_input
      \<Rightarrow> string + ('t \<Rightarrow> message_error + ('a, 'b) message)" where
  "into_expand S A W B I input =
     rbind (msg_from_attrs S A (di_attrs input)) (\<lambda>name.
     rbind (as_crate_name A) (\<lambda>_.
     rbind (encdec_module W B I name) (\<lambda>encdec. Inr (into_message encdec))))"

definition from_expand ::
    "'i syn \<Rightarrow> 'i api_syn \<Rightarrow> 'm bytes_write \<Rightarrow> 'b packet_bytes \<Rightarrow> ('t, 'm) type_impls \<Rightarrow> 'i derive_input
      \<Rightarrow> string + (('a, 'b) message \<Rightarrow> (message_error + 't) option)" where
  "from_expand S A W B I input =
     rbind (msg_from_attrs S A (di_attrs input)) (\<lambda>name.
     rbind (as_crate_name A) (\<lambda>_.
     rbind (encdec_module W B I name) (\<lambda>encdec. Inr (from_message encdec))))"

section \<open>Which module is taken\<close>

text \<open>The last attribute \<open>message\<close> counts, and all of them have to be identifiers.\<close>

lemma msg_attr_loop_last:
  assumes "list_all (\<lambda>attr. sa_path attr \<noteq> ''message'') after"
  shows "msg_attr_loop S A (before @ attr # after) name =
    rbind (msg_attr_loop S A before name) (\<lambda>name.
      if sa_path attr \<noteq> ''message'' then Inr name else map_sum id Some (parse_args S (as_ident A) attr))"
proof -
  have rest: "msg_attr_loop S A after m = Inr m" for m
    using assms by (induction after) auto
  show ?thesis
  proof (induction before arbitrary: name)
    case Nil
    show ?case using rest by (cases "parse_args S (as_ident A) attr") auto
  next
    case (Cons a before)
    then show ?case by (cases "parse_args S (as_ident A) a") auto
  qed
qed

text \<open>Both macros accept the same types, and use the same module.\<close>

lemma same_module:
  fixes I :: "('t, 'm) type_impls" and e :: "'t \<Rightarrow> message_error + ('a, 'b) message"
  shows "(\<exists>e :: 't \<Rightarrow> message_error + ('a, 'b) message. into_expand S A W B I input = Inr e)
    \<longleftrightarrow> (\<exists>d :: ('a, 'b) message \<Rightarrow> (message_error + 't) option. from_expand S A W B I input = Inr d)"
    and
  "into_expand S A W B I input = Inr e \<Longrightarrow> from_expand S A W B I input = Inr d \<Longrightarrow>
     \<exists>name. msg_from_attrs S A (di_attrs input) = Inr name
       \<and> encdec_module W B I name = Inr \<lparr>into_message = e, from_message = d\<rparr>"
  by (auto simp: into_expand_def from_expand_def rbind_eq_Inr)

section \<open>The types as messages\<close>

lemma json_converts:
  assumes "\<And>x. ok x \<Longrightarrow> \<exists>bs. to_writer x = Inr bs \<and> read_slice bs = Inr x" and B: "packet_buffer B wfb mac"
  shows "message_conversion B (wfb HEADER_LEN)
    \<lparr>into_message = json_encode to_writer B, from_message = (\<lambda>msg. Some (json_decode read_slice B msg))\<rparr> ok"
proof
  fix x assume "ok x"
  with assms(1) obtain bs where bs: "to_writer x = Inr bs" "read_slice bs = Inr x" by blast
  let ?m = "(message_empty B)\<lparr>ms_bytes := pb_set_body B bs (pb_new B HEADER_LEN)\<rparr>"
  have "pb_body B (ms_bytes ?m) = bs" "wfb HEADER_LEN (ms_bytes ?m)"
    using packet_buffer.set_body [OF B packet_buffer.new_wf [OF B, of HEADER_LEN], of bs] by simp_all
  moreover have "message_is_success ?m"
    using new_message_success [of B] by (simp add: message_is_success_def)
  ultimately show "\<exists>m. into_message \<lparr>into_message = json_encode to_writer B,
        from_message = (\<lambda>msg. Some (json_decode read_slice B msg))\<rparr> x = Inr m \<and> message_is_success m
    \<and> wfb HEADER_LEN (ms_bytes m) \<and> (\<forall>m'. pb_body B (ms_bytes m') = pb_body B (ms_bytes m)
        \<longrightarrow> from_message \<lparr>into_message = json_encode to_writer B,
              from_message = (\<lambda>msg. Some (json_decode read_slice B msg))\<rparr> m' = Some (Inr x))"
    using bs by (intro exI [of _ ?m]) (simp add: json_encode_def json_decode_def message_empty_def)
qed

lemma message_conversion_weaken:
  "message_conversion B wfb c ok \<Longrightarrow> (\<And>x. ok' x \<Longrightarrow> ok x) \<Longrightarrow> message_conversion B wfb c ok'"
  by (auto simp: message_conversion_def)

text \<open>
  A type for which both macros are accepted is a message for the values that its module reads back as
  they were: what \<open>serde_json\<close> or \<open>protopuffer\<close> promises for the type.
\<close>

lemma derived_message_converts:
  fixes e :: "'t \<Rightarrow> message_error + ('a, 'b) message"
  assumes "into_expand S A W B I input = Inr e" and "from_expand S A W B I input = Inr d"
    and "msg_from_attrs S A (di_attrs input) = Inr name" and "packet_buffer B wfb mac"
    and json: "\<And>x. name = ''json'' \<Longrightarrow> ok x \<Longrightarrow> \<exists>bs. ti_to_writer I x = Inr bs \<and> ti_from_slice I bs = Inr x"
    and protobuf: "name = ''protobuf'' \<Longrightarrow>
      message_conversion B (wfb HEADER_LEN) (protobuf_message W B (ti_encode I) (ti_decode I) :: ('t, 'a, 'b) as_message) ok"
  shows "message_conversion B (wfb HEADER_LEN) \<lparr>into_message = e, from_message = d\<rparr> ok"
proof -
  from same_module(2) [OF assms(1,2)] assms(3)
  have "encdec_module W B I name = Inr \<lparr>into_message = e, from_message = d\<rparr>" by simp
  then consider
    "name = ''json''" "\<lparr>into_message = e, from_message = d\<rparr> = \<lparr>into_message = json_encode (ti_to_writer I) B,
        from_message = (\<lambda>msg. Some (json_decode (ti_from_slice I) B msg))\<rparr>"
    | "name = ''protobuf''" "\<lparr>into_message = e, from_message = d\<rparr> = protobuf_message W B (ti_encode I) (ti_decode I)"
    by (auto simp: encdec_module_def split: if_splits)
  then show ?thesis
  proof cases
    case 1
    then show ?thesis using json_converts [OF json [OF 1(1)] assms(4)] by simp
  next
    case 2
    then show ?thesis using protobuf by simp
  qed
qed

text \<open>\<open>Item\<close> of the README under all four derive macros.\<close>

definition token_api :: "token list api_syn" where
  "token_api = \<lparr>as_ident = path_token, as_crate_name = Inr ()\<rparr>"

definition item_message_input :: "token list derive_input" where
  "item_message_input = (item_input 2)\<lparr>di_attrs := [\<lparr>sa_path = ''message'', sa_args = [TPath ''protobuf'']\<rparr>]\<rparr>"

definition item_impls :: "(item, byte list) type_impls" where
  "item_impls = \<lparr>ti_to_writer = (\<lambda>_. Inl []), ti_from_slice = (\<lambda>_. Inl []),
     ti_encode = item_encode 2, ti_decode = item_decode 2\<rparr>"

lemma item_message:
  "msg_from_attrs token_syn token_api (di_attrs item_message_input) = Inr ''protobuf''"
  "into_expand token_syn token_api vec_writer B item_impls item_message_input
     = Inr (protobuf_encode vec_writer B (item_encode 2))"
  "from_expand token_syn token_api vec_writer B item_impls item_message_input = Inr (protobuf_decode B (item_decode 2))"
proof -
  show name: "msg_from_attrs token_syn token_api (di_attrs item_message_input) = Inr ''protobuf''"
    by (simp add: msg_from_attrs_def item_message_input_def parse_args_def token_api_def token_syn_def)
  show "into_expand token_syn token_api vec_writer B item_impls item_message_input
     = Inr (protobuf_encode vec_writer B (item_encode 2))"
    "from_expand token_syn token_api vec_writer B item_impls item_message_input = Inr (protobuf_decode B (item_decode 2))"
    unfolding into_expand_def from_expand_def name
    by (simp_all add: encdec_module_def token_api_def item_impls_def protobuf_message_def)
qed

lemma item_converts:
  "message_conversion plain_packet_bytes (plain_wf HEADER_LEN)
     \<lparr>into_message = protobuf_encode vec_writer plain_packet_bytes (item_encode 2),
      from_message = protobuf_decode plain_packet_bytes (item_decode 2)\<rparr>
     (\<lambda>s. length (it_name s) < 2 ^ 32 \<and> utf8_valid (it_name s))"
  (is "message_conversion _ _ _ ?ok")
proof (rule derived_message_converts [OF item_message(2,3,1) plain.packet_buffer_axioms])
  let ?fs = "[field_at [TInt 1] ''name'', field_at [TInt 2] ''value'']"
  let ?xs = "[(\<lparr>fieldnum = 1, default_path = None\<rparr>, field_at [TInt 1] ''name''),
    (\<lparr>fieldnum = 2, default_path = None\<rparr>, field_at [TInt 2] ''value'')]"
  have "message_conversion plain_packet_bytes (plain_wf HEADER_LEN)
      (protobuf_message vec_writer plain_packet_bytes (item_encode 2) (item_decode 2))
      (\<lambda>s. struct_ok (map (derived_field item_members) ?xs) s
        \<and> struct_put (map (derived_field item_members) ?xs) s (dn_struct item_dec_names) = s)"
  proof (rule derived_struct_converts [OF vec.bytes_owned_axioms slice.bytes_reader_axioms _ _
        item_expands(1) item_expands(2) _ item_fields _ plain.packet_buffer_axioms])
    show "di_data (item_input 2) = DataStruct (FieldsNamed ?fs)"
      by (simp add: item_input_def)
    show "struct_members vec_writer unbounded item_enc_names item_dec_names item_members (sf_ident ` set ?fs)"
      using item.struct_members_axioms by (simp add: item_ident)
  qed (simp_all add: item_ident numbers_ok_def)
  moreover have "struct_ok (map (derived_field item_members) ?xs) s
      \<and> struct_put (map (derived_field item_members) ?xs) s (dn_struct item_dec_names) = s" if "?ok s" for s
    using that length_varint_bytes_bounds [of 10] length_varint_bytes_bounds [of 16]
      length_varint_bytes_bounds [of "ucast (it_value s)"] length_varint_bytes_bounds [of "of_nat (length (it_name s))"]
    by (auto simp: derived_field_def item_ident item_members_def struct_ok_def struct_kind_def field_part_simps
        fl_parts_def u32_type_def u32_encode_def impl_varint_encode_def string_type_def string_encode_def
        slice_u8_encode_def fl_num_def with_number_def bytes_of_field_def field_bytes_def tag_of_def
        struct_put_def item_dec_names_def item_default_def)
  ultimately show "message_conversion plain_packet_bytes (plain_wf HEADER_LEN)
      (protobuf_message vec_writer plain_packet_bytes (ti_encode item_impls) (ti_decode item_impls)) ?ok"
    unfolding item_impls_def type_impls.simps by (rule message_conversion_weaken)
qed simp_all

end
