(* ===== verification/Body.thy ===== *)
theory Body
  imports Packet_Bytes
begin

text \<open>
  \<open>lafere/src/packet/body_bytes.rs\<close>: the views of a packet's body that its users read and write.
  \<open>BodyBytes\<close> is a reader of the crate \<open>bytes\<close>, \<open>BodyBytesMut\<close> a writer behind an offset into the
  packet's buffer. Files and \<open>serde_json\<close> are parameters.
\<close>

section \<open>Reading\<close>

text \<open>\<open>Bytes\<close> of the crate: a slice with a position.\<close>

record 'i bytes_cursor =
  bc_from :: "byte list \<Rightarrow> 'i"
  bc_inner :: "'i \<Rightarrow> byte list"
  bc_len :: "'i \<Rightarrow> nat"
  bc_remaining :: "'i \<Rightarrow> byte list"
  bc_try_read :: "nat \<Rightarrow> 'i \<Rightarrow> (byte list \<times> 'i) option"
  bc_peek :: "nat \<Rightarrow> 'i \<Rightarrow> byte list option"
  bc_position :: "'i \<Rightarrow> nat"
  bc_try_seek :: "nat \<Rightarrow> 'i \<Rightarrow> 'i option"

record 'i body_bytes =
  bb_inner :: 'i

definition body_bytes_new :: "'i bytes_cursor \<Rightarrow> byte list \<Rightarrow> 'i body_bytes" where
  "body_bytes_new I slc = \<lparr>bb_inner = bc_from I slc\<rparr>"

definition body_len :: "'i bytes_cursor \<Rightarrow> 'i body_bytes \<Rightarrow> nat" where
  "body_len I self = bc_len I (bb_inner self)"

definition body_as_slice :: "'i bytes_cursor \<Rightarrow> 'i body_bytes \<Rightarrow> byte list" where
  "body_as_slice I self = bc_inner I (bb_inner self)"

definition body_remaining :: "'i bytes_cursor \<Rightarrow> 'i body_bytes \<Rightarrow> byte list" where
  "body_remaining I self = bc_remaining I (bb_inner self)"

definition body_try_read :: "'i bytes_cursor \<Rightarrow> nat \<Rightarrow> 'i body_bytes \<Rightarrow> (byte list \<times> 'i body_bytes) option" where
  "body_try_read I len self =
     map_option (\<lambda>(bs, i). (bs, self\<lparr>bb_inner := i\<rparr>)) (bc_try_read I len (bb_inner self))"

definition body_peek :: "'i bytes_cursor \<Rightarrow> nat \<Rightarrow> 'i body_bytes \<Rightarrow> byte list option" where
  "body_peek I len self = bc_peek I len (bb_inner self)"

definition body_position :: "'i bytes_cursor \<Rightarrow> 'i body_bytes \<Rightarrow> nat" where
  "body_position I self = bc_position I (bb_inner self)"

definition body_try_seek :: "'i bytes_cursor \<Rightarrow> nat \<Rightarrow> 'i body_bytes \<Rightarrow> 'i body_bytes option" where
  "body_try_seek I pos self = map_option (\<lambda>i. self\<lparr>bb_inner := i\<rparr>) (bc_try_seek I pos (bb_inner self))"

definition body_deserialize ::
    "'i bytes_cursor \<Rightarrow> (byte list \<Rightarrow> string + 'v) \<Rightarrow> 'i body_bytes \<Rightarrow> packet_error + 'v" where
  "body_deserialize I from_slice self =
     (case from_slice (body_as_slice I self) of Inl e \<Rightarrow> Inl (PacketJson e) | Inr v \<Rightarrow> Inr v)"

definition body_to_file ::
    "'i bytes_cursor \<Rightarrow> ('path \<Rightarrow> byte list \<Rightarrow> 'w \<Rightarrow> (string + unit) \<times> 'w) \<Rightarrow> 'path \<Rightarrow> 'i body_bytes \<Rightarrow> 'w
      \<Rightarrow> (packet_error + unit) \<times> 'w" where
  "body_to_file I fs_write path self w =
     (case fs_write path (body_as_slice I self) w of
        (Inl e, w) \<Rightarrow> (Inl (PacketIo e), w)
      | (Inr _, w) \<Rightarrow> (Inr (), w))"

section \<open>Writing\<close>

text \<open>\<open>Offset<Cursor<&mut Vec<u8>>>\<close>: the vector is that of the packet, and positions count from the offset.\<close>

record 'i offset_cursor =
  oc_new :: "nat \<Rightarrow> byte list \<Rightarrow> 'i"
  oc_offset :: "'i \<Rightarrow> nat"
  oc_vec :: "'i \<Rightarrow> byte list"
  oc_set_vec :: "byte list \<Rightarrow> 'i \<Rightarrow> 'i"
  oc_len :: "'i \<Rightarrow> nat"
  oc_remaining :: "'i \<Rightarrow> byte list"
  oc_try_write :: "byte list \<Rightarrow> 'i \<Rightarrow> 'i option"
  oc_position :: "'i \<Rightarrow> nat"
  oc_try_seek :: "nat \<Rightarrow> 'i \<Rightarrow> 'i option"

record 'i body_bytes_mut =
  bm_inner :: 'i

definition body_mut_new :: "'i offset_cursor \<Rightarrow> nat \<Rightarrow> byte list \<Rightarrow> 'i body_bytes_mut" where
  "body_mut_new V offset buffer = \<lparr>bm_inner = oc_new V offset buffer\<rparr>"

definition body_mut_resize :: "'i offset_cursor \<Rightarrow> nat \<Rightarrow> 'i body_bytes_mut \<Rightarrow> 'i body_bytes_mut" where
  "body_mut_resize V len self =
     (let offset = oc_offset V (bm_inner self)
      in self\<lparr>bm_inner := oc_set_vec V (vec_resize (offset + len) (oc_vec V (bm_inner self))) (bm_inner self)\<rparr>)"

definition body_mut_len :: "'i offset_cursor \<Rightarrow> 'i body_bytes_mut \<Rightarrow> nat" where
  "body_mut_len V self = oc_len V (bm_inner self)"

definition body_mut_remaining :: "'i offset_cursor \<Rightarrow> 'i body_bytes_mut \<Rightarrow> byte list" where
  "body_mut_remaining V self = oc_remaining V (bm_inner self)"

definition body_mut_try_write :: "'i offset_cursor \<Rightarrow> byte list \<Rightarrow> 'i body_bytes_mut \<Rightarrow> 'i body_bytes_mut option" where
  "body_mut_try_write V bs self = map_option (\<lambda>i. self\<lparr>bm_inner := i\<rparr>) (oc_try_write V bs (bm_inner self))"

definition body_mut_position :: "'i offset_cursor \<Rightarrow> 'i body_bytes_mut \<Rightarrow> nat" where
  "body_mut_position V self = oc_position V (bm_inner self)"

definition body_mut_try_seek :: "'i offset_cursor \<Rightarrow> nat \<Rightarrow> 'i body_bytes_mut \<Rightarrow> 'i body_bytes_mut option" where
  "body_mut_try_seek V pos self = map_option (\<lambda>i. self\<lparr>bm_inner := i\<rparr>) (oc_try_seek V pos (bm_inner self))"

text \<open>\<open>io::Write\<close>: \<open>write\<close> panics if the crate's \<open>write\<close> does, and takes all of \<open>buf\<close>.\<close>

definition body_mut_io_write ::
    "'i offset_cursor \<Rightarrow> byte list \<Rightarrow> 'i body_bytes_mut \<Rightarrow> (nat \<times> 'i body_bytes_mut) option" where
  "body_mut_io_write V buf self = map_option (\<lambda>self. (length buf, self)) (body_mut_try_write V buf self)"

text \<open>
  \<open>serde_json\<close>'s \<open>to_writer\<close> hands its text to \<open>write_all\<close> in pieces, which calls \<open>write\<close>; it may fail
  after some of them. \<open>None\<close> is a panic.
\<close>

fun write_pieces :: "'i offset_cursor \<Rightarrow> byte list list \<Rightarrow> 'i body_bytes_mut \<Rightarrow> 'i body_bytes_mut option" where
  "write_pieces V [] self = Some self"
| "write_pieces V (p # ps) self =
     (case body_mut_io_write V p self of None \<Rightarrow> None | Some (_, self) \<Rightarrow> write_pieces V ps self)"

definition body_serialize ::
    "'i offset_cursor \<Rightarrow> ('v \<Rightarrow> byte list list \<times> (string + unit)) \<Rightarrow> 'v \<Rightarrow> 'i body_bytes_mut
      \<Rightarrow> ((packet_error + unit) \<times> 'i body_bytes_mut) option" where
  "body_serialize V to_writer v self =
     (case to_writer v of (ps, r) \<Rightarrow>
        map_option (\<lambda>self. ((case r of Inl e \<Rightarrow> Inl (PacketJson e) | Inr _ \<Rightarrow> Inr ()), self)) (write_pieces V ps self))"

text \<open>
  \<open>from_file\<close>: what can be read is appended to the vector; \<open>read_to_end\<close> may fail after it has appended
  something. Reserving room does not change what is in the vector.
\<close>

definition body_from_file ::
    "'i offset_cursor \<Rightarrow> ('path \<Rightarrow> 'w \<Rightarrow> (string + 'file) \<times> 'w) \<Rightarrow> ('file \<Rightarrow> 'w \<Rightarrow> (byte list \<times> (string + unit)) \<times> 'w)
      \<Rightarrow> 'path \<Rightarrow> 'i body_bytes_mut \<Rightarrow> 'w \<Rightarrow> (packet_error + unit) \<times> 'i body_bytes_mut \<times> 'w" where
  "body_from_file V open_file read_to_end path self w =
     (case open_file path w of
        (Inl e, w) \<Rightarrow> (Inl (PacketIo e), self, w)
      | (Inr file, w) \<Rightarrow>
          (case read_to_end file w of
             ((bs, r), w) \<Rightarrow>
               ((case r of Inl e \<Rightarrow> Inl (PacketIo e) | Inr _ \<Rightarrow> Inr ()),
                self\<lparr>bm_inner := oc_set_vec V (oc_vec V (bm_inner self) @ bs) (bm_inner self)\<rparr>, w)))"

section \<open>What the crate documents\<close>

locale body_cursor =
  fixes I :: "'i bytes_cursor"
  assumes from_slice: "bc_inner I (bc_from I slc) = slc"
begin

lemma to_file_writes:
  "fs_write path slc w = (Inr (), w') \<Longrightarrow> body_to_file I fs_write path (body_bytes_new I slc) w = (Inr (), w')"
  by (simp add: body_to_file_def body_as_slice_def body_bytes_new_def from_slice)

lemma deserialize_reads:
  "read_json slc = Inr v \<Longrightarrow> body_deserialize I read_json (body_bytes_new I slc) = Inr v"
  by (simp add: body_deserialize_def body_as_slice_def body_bytes_new_def from_slice)

end

text \<open>Writing puts the bytes at the position, over what is there, and moves behind them.\<close>

locale offset_writer =
  fixes V :: "'i offset_cursor"
  assumes new: "oc_vec V (oc_new V offset v) = v" "oc_offset V (oc_new V offset v) = offset"
      "oc_position V (oc_new V offset v) = 0"
    and set_vec: "oc_vec V (oc_set_vec V v i) = v" "oc_offset V (oc_set_vec V v i) = oc_offset V i"
      "oc_position V (oc_set_vec V v i) = oc_position V i"
    and try_write: "oc_offset V i + oc_position V i \<le> length (oc_vec V i) \<Longrightarrow> \<exists>i'. oc_try_write V bs i = Some i'
      \<and> oc_vec V i' = take (oc_offset V i + oc_position V i) (oc_vec V i) @ bs
          @ drop (oc_offset V i + oc_position V i + length bs) (oc_vec V i)
      \<and> oc_offset V i' = oc_offset V i \<and> oc_position V i' = oc_position V i + length bs"
begin

text \<open>Resizing the view resizes the body.\<close>

lemma resize_is:
  "oc_vec V (bm_inner (body_mut_resize V len (body_mut_new V offset v))) = body_bytes_mut_resize offset len v"
  by (simp add: body_mut_resize_def body_mut_new_def Let_def set_vec(1) new body_bytes_mut_resize_def)

text \<open>Pieces written at the end are appended, however the text is cut.\<close>

lemma pieces_appended:
  "oc_offset V (bm_inner self) + oc_position V (bm_inner self) = length (oc_vec V (bm_inner self))
    \<Longrightarrow> \<exists>self'. write_pieces V ps self = Some self'
      \<and> oc_vec V (bm_inner self') = oc_vec V (bm_inner self) @ concat ps"
proof (induction ps arbitrary: self)
  case (Cons p ps)
  then obtain i' where i': "oc_try_write V p (bm_inner self) = Some i'"
      "oc_vec V i' = oc_vec V (bm_inner self) @ p" "oc_offset V i' = oc_offset V (bm_inner self)"
      "oc_position V i' = oc_position V (bm_inner self) + length p"
    using try_write [of "bm_inner self" p] by auto
  with Cons.prems have "\<exists>self'. write_pieces V ps (self\<lparr>bm_inner := i'\<rparr>) = Some self'
      \<and> oc_vec V (bm_inner self') = oc_vec V i' @ concat ps"
    using Cons.IH [of "self\<lparr>bm_inner := i'\<rparr>"] by simp
  with i' show ?case by (simp add: body_mut_io_write_def body_mut_try_write_def)
qed simp

text \<open>On a packet whose body is empty this is what the model of the buffers calls setting the body.\<close>

lemma serialized_is:
  assumes "length v = offset" and "to_writer x = (ps, Inr ())"
  shows "\<exists>self'. body_serialize V to_writer x (body_mut_new V offset v) = Some (Inr (), self')
    \<and> oc_vec V (bm_inner self') = body_bytes_mut_put offset (concat ps) v"
  using pieces_appended [of "body_mut_new V offset v" ps] assms
  by (auto simp: body_serialize_def body_bytes_mut_put_def body_mut_new_def new)

text \<open>A file that is read into an empty body, and a body written to a file.\<close>

lemma from_file_is:
  assumes "length v = offset" and "open_file path w = (Inr file, w1)" and "read_to_end file w1 = ((bs, Inr ()), w2)"
  shows "\<exists>self'. body_from_file V open_file read_to_end path (body_mut_new V offset v) w = (Inr (), self', w2)
    \<and> oc_vec V (bm_inner self') = body_bytes_mut_put offset bs v"
  using assms by (simp add: body_from_file_def body_bytes_mut_put_def body_mut_new_def new set_vec(1))

end


section \<open>A cursor\<close>

definition slice_cursor :: "(byte list \<times> nat) bytes_cursor" where
  "slice_cursor = \<lparr>
     bc_from = (\<lambda>s. (s, 0)), bc_inner = fst, bc_len = (\<lambda>(s, p). length s), bc_remaining = (\<lambda>(s, p). drop p s),
     bc_try_read = (\<lambda>n (s, p). if p + n \<le> length s then Some (take n (drop p s), s, p + n) else None),
     bc_peek = (\<lambda>n (s, p). if p + n \<le> length s then Some (take n (drop p s)) else None),
     bc_position = snd, bc_try_seek = (\<lambda>q (s, p). if q \<le> length s then Some (s, q) else None)\<rparr>"

interpretation slice_cursor: body_cursor slice_cursor
  by unfold_locales (simp add: slice_cursor_def)

definition vec_cursor :: "(nat \<times> nat \<times> byte list) offset_cursor" where
  "vec_cursor = \<lparr>
     oc_new = (\<lambda>n v. (n, 0, v)), oc_offset = fst, oc_vec = (\<lambda>(n, p, v). v), oc_set_vec = (\<lambda>v (n, p, _). (n, p, v)),
     oc_len = (\<lambda>(n, p, v). length v - n), oc_remaining = (\<lambda>(n, p, v). drop (n + p) v),
     oc_try_write = (\<lambda>bs (n, p, v). Some (n, p + length bs, take (n + p) v @ bs @ drop (n + p + length bs) v)),
     oc_position = (\<lambda>(n, p, v). p), oc_try_seek = (\<lambda>q (n, p, v). if n + q \<le> length v then Some (n, q, v) else None)\<rparr>"

interpretation vec_cursor: offset_writer vec_cursor
  by unfold_locales (auto simp: vec_cursor_def)

end
