(* ===== verification/Spec2Isabelle.thy ===== *)
theory Spec2Isabelle
  imports Startup_Props Watch Reconnect_Props Stack_Props Derive_Api Body
begin

text \<open>
  \<^bold>\<open>lafere\<close> is a Rust workspace of five crates. \<open>protopuffer\<close> encodes and decodes protobuf messages, and
  \<open>protopuffer-codegen\<close> derives this for structs and enums. \<open>lafere\<close> is a connection on which both
  sides send requests, answers and streams of packets, plain or encrypted. \<open>lafere-api\<close> puts typed
  requests and their handlers on such a connection, and \<open>lafere-api-codegen\<close> generates the handlers.

  \<^bold>\<open>How the parts interact.\<close> A user calls a \<open>Connection\<close> (\<open>Endpoints\<close>), which queues a request for the
  background task. The task (\<open>Connection\<close>) runs a loop over what it receives, what the handler has to
  send, pings, the close signal and new configurations; the \<open>Handler\<close> gives out ids and knows which
  packet answers which request. Packets go through a packet stream (\<open>Streams\<close>, \<open>Transport\<close>), which
  encrypts them with the keys of the \<open>Handshake\<close>, writes them, and reads them in pieces with the
  \<open>Receiver\<close> from a \<open>Timeout\<close> reader. A packet is a \<open>Message\<close> in a buffer (\<open>Packet_Bytes\<close>), whose
  body is JSON or what \<open>protopuffer\<close> makes (\<open>Requests\<close>). On the other side the message is taken from
  the connection (\<open>Serving\<close>) and given to the handler of its action with its data (\<open>Injection\<close>).

  \<^bold>\<open>Theories and code\<close>, in the order they build on each other. Operations have the names of the code,
  with a prefix where several types have the same method; the records have its fields.

  \<^item> \<open>Prelude\<close>, \<open>Bytes_Api\<close>: results as sums, options of results for decoding, words and bytes; what the
    code uses of the crate \<open>bytes\<close> as records with the locales \<open>bytes_writer\<close>, \<open>bytes_owned\<close>,
    \<open>bytes_reader\<close> for what it documents.
  \<^item> \<open>Varint\<close> (\<open>protopuffer/src/varint.rs\<close>), \<open>Wire\<close> (\<open>lib.rs\<close>, \<open>MessageDecoder\<close> of \<open>decode.rs\<close>),
    \<open>Field_Loops\<close> (its loops over fields, and that they are folds over parsed fields), \<open>Encoder\<close>
    (\<open>MessageEncoder\<close>, \<open>SizeBuilder\<close>, \<open>FieldOpt\<close> of \<open>encode.rs\<close>), \<open>Codec\<close> (the traits and \<open>to_vec\<close>,
    \<open>to_bytes_writer\<close>, \<open>from_slice\<close>), \<open>Scalars\<close>, \<open>Containers\<close>, \<open>Structs\<close>, \<open>Enums\<close> (the implementations
    for numbers, strings, \<open>Vec\<close>, \<open>Option\<close>, \<open>HashMap\<close>, tuples, and those that \<open>protopuffer-codegen\<close>
    generates), \<open>Messages\<close> (the types of \<open>protopuffer/tests/basic_test.rs\<close>), \<open>Derive_Message\<close> (the macros
    of \<open>protopuffer-codegen\<close> themselves: a syntax tree to an error or an implementation).
  \<^item> \<open>Packet\<close> (\<open>lafere/src/packet/packet.rs\<close>, \<open>mod.rs\<close>), \<open>Packet_Bytes\<close> (\<open>bytes.rs\<close>, \<open>encrypted_bytes.rs\<close>
    and of \<open>body_bytes.rs\<close> what changes a body), \<open>Body\<close> (\<open>body_bytes.rs\<close>), \<open>Receiver\<close> (\<open>builder.rs\<close>), \<open>Message\<close>
    (\<open>lafere-api/src/message.rs\<close>), \<open>Streams\<close> and \<open>Transport\<close> (\<open>lafere/src/plain/mod.rs\<close>,
    \<open>encrypted/stream.rs\<close>), \<open>Timeout\<close> (\<open>util/timeout.rs\<close>), \<open>Handshake\<close> (\<open>encrypted/handshake.rs\<close>).
  \<^item> \<open>Handler\<close>, \<open>Handler_Ids\<close>, \<open>Connection\<close> (\<open>lafere/src/handler/handler.rs\<close>, \<open>error.rs\<close>), \<open>Watch\<close>
    (\<open>util/watch.rs\<close>), \<open>Endpoints\<close> (\<open>handler/mod.rs\<close>, \<open>sender.rs\<close>, \<open>receiver.rs\<close>, \<open>client.rs\<close>,
    \<open>server.rs\<close>), \<open>Startup\<close> (the functions \<open>client\<close> and \<open>server\<close> of both streams).
  \<^item> \<open>Injection\<close> (\<open>lafere-api/src/util.rs\<close>, \<open>Data\<close>, \<open>Session\<close>), \<open>Requests\<close> (\<open>request.rs\<close>, \<open>encdec.rs\<close>,
    \<open>client.rs\<close>, \<open>requestor.rs\<close>, \<open>server.rs\<close>, \<open>request_handlers.rs\<close>, and what \<open>api\<close> of
    \<open>lafere-api-codegen\<close> generates), \<open>Serving\<close> (the loops that take requests and connections, and
    what \<open>enable_server_requests\<close> generates), \<open>Servers\<close> (\<open>Server\<close>, \<open>BuiltServer\<close> and
    \<open>lafere/src/util/listener.rs\<close>), \<open>Derive\<close> and \<open>Derive_Api\<close> (\<open>action.rs\<close>,
    \<open>util.rs\<close>, \<open>args.rs\<close> and \<open>message.rs\<close> of \<open>lafere-api-codegen\<close>).

  \<^bold>\<open>How effects are modelled.\<close> State is passed explicitly. An error is the left side of a sum, a panic
  \<open>Panic\<close> or \<open>Panicked\<close>. A future that is awaited and may be dropped gives \<open>Cancelled\<close>; what it has
  done by then is in its state. The branch that a \<open>select!\<close> takes is an event of a step, and theorems
  hold for every sequence of events. \<open>tokio\<close>'s channels and clock, \<open>crypto\<close>, \<open>bytes\<close>, \<open>serde_json\<close>
  and the byte streams are arguments, with locales for what the code relies on, each interpreted
  on a concrete instance that the witnesses run. Integers are words where the code has fixed widths;
  lengths of buffers are natural numbers.

  \<^bold>\<open>What the groups of lemmas show.\<close>

  \<^item> \<open>Protopuffer_Props\<close>: every type built from the implementations round-trips (\<open>lawful\<close> is the
    contract that each implementation satisfies), sizes are exact, decoding returns on any input,
    packed and unpacked vectors agree; two deviations from protobuf.
  \<^item> \<open>Derive_Message_Props\<close>: the same for every type that the derive macros accept; which of the macros
    refuse a type, and what they should refuse but do not.
  \<^item> \<open>Packet_Props\<close>, \<open>Receiver_Props\<close>, \<open>Transport_Props\<close>, \<open>Session_Props\<close>, \<open>Connected_Props\<close>: what is sent
    arrives, first one message, then all that a connection carries: the receiver refines reading at
    once, the keys of both sides stay in step, and each background task is given a beginning of
    what the other has sent, in order and once, from the handshake on.
  \<^item> \<open>Handler_Props\<close>, \<open>Connection_Props\<close>, \<open>Closing_Props\<close>, \<open>Exchange_Props\<close>: ids never collide with a peer
    that keeps to its half, answers reach their request and only it, what ends a connection with an
    error, closing ends after a bounded number of rounds and sends its packet once and last, and what
    reconnecting does and does not. \<open>Reconnect_Props\<close>: through a lost stream, the strategy and the next
    stream, that server requests are not enabled again.
  \<^item> \<open>Handshake_Props\<close>, \<open>Startup_Props\<close>: both sides get the same keys, the client uses only signed ones,
    and its task, with all its reconnects, runs only on streams whose keys were signed for.
  \<^item> \<open>Watch\<close>, \<open>Timeout\<close>: no wakeup is lost; a silent stream fails exactly after its timeout.
  \<^item> \<open>Api_Props\<close>, \<open>Server_Props\<close>, \<open>Endpoint_Props\<close>: a request gives what the function behind it returns,
    locally and over a connection, if the function was accepted by \<open>api\<close> and registered; when a server
    ends; when the arguments of a handler are there; when a server may send requests; that a derived
    action is lawful. \<open>Stack_Props\<close> puts these together with \<open>Exchange_Props\<close> and \<open>Packet_Props\<close>: one
    request from the client's call through both handlers to the registered function and back.
    \<open>Derive_Api\<close> also shows that a type with derived conversions is a message, by either module.

  \<^bold>\<open>Bounds and fuel.\<close> Decoding loops and \<open>read_full\<close> terminate by measures on the bytes that are left.
  \<open>receive_calls\<close>, \<open>receive_all\<close> and \<open>bg_run\<close> take a number of calls or a list of events that the
  theorems quantify over; \<open>closing_ends\<close> gives a length that is enough. \<open>reconnect_attempts\<close>,
  \<open>bg_stream_reconnect\<close>, \<open>handle_connection\<close>, \<open>accept\<close> and \<open>run_raw\<close> may run for ever and are partial functions,
  \<open>None\<close> if they do. The counters of \<open>Watch\<close> are natural numbers, as the code's would have to
  wrap around after \<open>2 ^ 64\<close> calls.

  \<^bold>\<open>Not modelled.\<close> Logging and the implementations of \<open>Display\<close>; the adapters \<open>PinnedFuture\<close> and \<open>poll_fn\<close>,
  which only pass calls on; parsing tokens and quoting code in the macros, which is done by \<open>syn\<close> and
  \<open>quote\<close>, and whether the compiler accepts what they generate; tests and examples. Tuples of
  five and six places are instances of the macro that is modelled up to four.
\<close>

end
